theory Spec2Isabelle
  imports Complex_Main
begin

section \<open>Numbers, points and tolerances\<close>

text \<open>
  The engine computes on IEEE doubles. The development idealises them as real numbers:
  every definition below performs the comparisons and the arithmetic of the source in
  the order of the source, on \<^typ>\<open>real\<close>. The one non-number a computation of
  interest can produce (\<open>undefined + x\<close>, which is \<open>NaN\<close>) is modelled explicitly
  where it can arise.
\<close>

type_synonym point = "real \<times> real"

text \<open>
  Modelled from the spec: the constants of \<open>Numerical\<close> are spliced into the sources by
  the build (\<open>/*#=*/Numerical.CURVETIME_EPSILON\<close>) and their values are not part of
  the source files. The spec gives \<open>CURVETIME_EPSILON \<approx> 1e-8\<close>,
  \<open>GEOMETRIC_EPSILON \<approx> 1e-7\<close> and \<open>WINDING_EPSILON \<approx> 1e-9\<close>.
\<close>

definition CURVETIME_EPSILON :: real where
  "CURVETIME_EPSILON = 1 / 10 ^ 8"

text \<open>
  \<open>GEOMETRIC_EPSILON\<close> is only compared with \<open>>=\<close> (the area of a partial path in
  \<open>tracePaths\<close>), where the number the engine holds matters: the literal \<open>1e-7\<close> is the
  double 944473296573929/2^73, just below 1/10^7.
\<close>

definition GEOMETRIC_EPSILON :: real where
  "GEOMETRIC_EPSILON = 944473296573929 / 2 ^ 73"

definition WINDING_EPSILON :: real where
  "WINDING_EPSILON = 1 / 10 ^ 9"

section \<open>CurveLocation (src/path/CurveLocation.js)\<close>

text \<open>
  Curves and segments are objects with identity; they are named by natural numbers.
  A curve is known to \<open>CurveLocation\<close> through four reads: the version of its path
  (absent when the curve has no path), its two segments, and \<open>getNext()\<close>.
\<close>

record curve_obj =
  c_path_version :: "nat option"
  c_segment1 :: nat
  c_segment2 :: nat
  c_next :: "nat option"

record curve_location =
  cl_id :: nat
  cl_version :: nat
  cl_curve :: "nat option"
  cl_segment :: "nat option"
  cl_segment1 :: nat
  cl_segment2 :: nat
  cl_parameter :: real
  cl_point :: point
  cl_distance :: "real option"
  cl_overlap :: bool
  cl_crossing :: "bool option"
  cl_intersection :: "nat option"
  cl_other :: bool

text \<open>
  The locations that exist, by id, and the counter behind \<open>UID.get(CurveLocation)\<close>.
\<close>

record location_heap =
  h_locs :: "nat \<rightharpoonup> curve_location"
  h_uid :: nat

text \<open>
  \<open>_setCurve\<close>: \<open>_version\<close> is the path's version or 0, \<open>_segment\<close> is reset to
  null, and both segments of the curve are remembered.
\<close>

definition setCurve :: "(nat \<Rightarrow> curve_obj) \<Rightarrow> curve_location \<Rightarrow> nat \<Rightarrow> curve_location" where
  "setCurve curves this curve =
     this\<lparr> cl_version := (case c_path_version (curves curve) of Some v \<Rightarrow> v | None \<Rightarrow> 0),
           cl_curve := Some curve,
           cl_segment := None,
           cl_segment1 := c_segment1 (curves curve),
           cl_segment2 := c_segment2 (curves curve) \<rparr>"

text \<open>
  The constructor compares the parameter with \<open>1 - CURVETIME_EPSILON\<close>, which the
  engine computes in doubles: the literal \<open>1e-8\<close> is the double nearest to 1/10^8, and
  the difference from 1 rounds to the double 9007199164668999/2^53, printed 0.99999999.
  That double lies just below the real number 1 - 1/10^8, and no double lies between the
  two. The comparison \<open>>=\<close> is against the double.
\<close>

definition oneMinusCurvetimeEpsilon :: real where
  "oneMinusCurvetimeEpsilon = 9007199164668999 / 2 ^ 53"

text \<open>
  The first statement of the constructor: a parameter at the very end of a curve moves
  to the start of the next curve, when there is one.
\<close>

definition mergeToNext :: "(nat \<Rightarrow> curve_obj) \<Rightarrow> nat \<Rightarrow> real \<Rightarrow> nat \<times> real" where
  "mergeToNext curves curve parameter =
     (if parameter \<ge> oneMinusCurvetimeEpsilon then
        (case c_next (curves curve) of
           Some next \<Rightarrow> (next, 0)
         | None \<Rightarrow> (curve, parameter))
      else (curve, parameter))"

text \<open>
  The object before the constructor has written to it: no field is set. \<open>_curve\<close> is
  absent; the number fields hold 0 until they are written.
\<close>

definition newLocation :: curve_location where
  "newLocation =
     \<lparr> cl_id = 0, cl_version = 0, cl_curve = None, cl_segment = None,
       cl_segment1 = 0, cl_segment2 = 0, cl_parameter = 0, cl_point = (0, 0),
       cl_distance = None, cl_overlap = False, cl_crossing = None,
       cl_intersection = None, cl_other = False \<rparr>"

text \<open>
  \<open>initialize(curve, parameter, point, _distance, _overlap, _intersection)\<close>, statement
  by statement: the id, \<open>_setCurve(curve)\<close>, then the other fields. The constructor
  returns the id of the new location and the heap holding it; when a partner location is
  passed, the partner is linked back to the new location and flagged \<open>_other\<close>.
  \<open>getPointAt\<close> is the curve evaluation of \<open>Curve\<close>, a parameter here.
\<close>

definition initialize ::
  "(nat \<Rightarrow> curve_obj) \<Rightarrow> (nat \<Rightarrow> real \<Rightarrow> point) \<Rightarrow> location_heap \<Rightarrow>
   nat \<Rightarrow> real \<Rightarrow> point option \<Rightarrow> real option \<Rightarrow> bool \<Rightarrow> nat option \<Rightarrow>
   nat \<times> location_heap" where
  "initialize curves getPointAt h curve0 parameter0 point distance overlap partner0 =
     (let (curve, parameter) = mergeToNext curves curve0 parameter0;
          i = h_uid h;
          this1 = setCurve curves (newLocation\<lparr> cl_id := i \<rparr>) curve;
          this = this1\<lparr> cl_parameter := parameter,
                       cl_point := (case point of
                                      Some p \<Rightarrow> p
                                    | None \<Rightarrow> getPointAt curve parameter),
                       cl_distance := distance, cl_overlap := overlap,
                       cl_crossing := None, cl_intersection := partner0 \<rparr>;
          locs1 = (h_locs h)(i \<mapsto> this);
          locs2 = (case partner0 of
                     None \<Rightarrow> locs1
                   | Some j \<Rightarrow>
                       (case locs1 j of
                          None \<Rightarrow> locs1
                        | Some partner \<Rightarrow>
                            locs1(j \<mapsto> partner\<lparr> cl_intersection := Some i, cl_other := True \<rparr>)))
      in (i, \<lparr> h_locs = locs2, h_uid = i + 1 \<rparr>))"

text \<open>The location an \<open>initialize\<close> call has just created.\<close>

definition created :: "nat \<times> location_heap \<Rightarrow> curve_location option" where
  "created r = h_locs (snd r) (fst r)"


section \<open>divideLocations (src/path/PathItem.Boolean.js, lines 1322-1395)\<close>

text \<open>
  \<open>divideLocations\<close> walks the location array from its last entry to its first. Of
  a location it reads the fields \<open>_curve\<close> and \<open>_time\<close> directly; a curve is named
  by a natural number (object identity). Dividing a curve keeps the identity of the
  curve object for the left part, and neither the division nor the linking of
  intersections writes the \<open>_curve\<close> or \<open>_time\<close> of a location still to come, so
  the walk below carries exactly the state that decides where each curve is divided:
  \<open>prevCurve\<close>, \<open>prevTime\<close> and \<open>noHandles\<close>.
\<close>

record div_location =
  dl_curve :: nat
  dl_time :: real

text \<open>Where a location ends up: on \<open>curve._segment1\<close>, on \<open>curve._segment2\<close>, or
  on the segment that \<open>curve.divideAtTime(time, true)\<close> inserts.\<close>

datatype division = AtSegment1 | AtSegment2 | DivideAtTime real

record divided =
  dv_loc :: div_location
  dv_time :: real
  dv_where :: division
  dv_clear :: bool

definition tMin :: real where
  "tMin = CURVETIME_EPSILON"

definition tMax :: real where
  "tMax = 1 - tMin"

text \<open>
  Lines 1344-1351. \<open>prev\<close> is \<open>None\<close> before the first processed location
  (\<open>prevCurve\<close> is undefined then, and \<open>curve !== prevCurve\<close> holds).
\<close>

definition rescale :: "(nat \<times> real) option \<Rightarrow> nat \<Rightarrow> real \<Rightarrow> real" where
  "rescale prev curve time =
     (case prev of
        None \<Rightarrow> time
      | Some (prevCurve, prevTime) \<Rightarrow>
          if curve \<noteq> prevCurve then time
          else if prevTime \<ge> tMin \<and> prevTime \<le> tMax then time / prevTime
          else time)"

definition updateNoHandles ::
  "(nat \<Rightarrow> bool) \<Rightarrow> (nat \<times> real) option \<Rightarrow> nat \<Rightarrow> bool \<Rightarrow> bool" where
  "updateNoHandles hasHandles prev curve noHandles =
     (case prev of
        None \<Rightarrow> \<not> hasHandles curve
      | Some (prevCurve, prevTime) \<Rightarrow>
          if curve \<noteq> prevCurve then \<not> hasHandles curve else noHandles)"

text \<open>Lines 1352-1366.\<close>

definition divisionAt :: "real \<Rightarrow> division" where
  "divisionAt time =
     (if time < tMin then AtSegment1
      else if time > tMax then AtSegment2
      else DivideAtTime time)"

text \<open>
  The loop body, over the locations in the order the loop visits them. \<open>include\<close> is
  the optional filter; it runs before the fields are read and may refresh them
  (\<open>getCurve()\<close> in \<open>resolveCrossings\<close>), so it maps a location to the location as it
  is after the call, or to \<open>None\<close> when it rejects it. A rejected location is skipped
  by \<open>continue\<close> and leaves \<open>prevCurve\<close> and \<open>prevTime\<close> untouched.
\<close>

fun divideWalk ::
  "(nat \<Rightarrow> bool) \<Rightarrow> (div_location \<Rightarrow> div_location option) option \<Rightarrow>
   (nat \<times> real) option \<Rightarrow> bool \<Rightarrow> div_location list \<Rightarrow> divided list" where
  "divideWalk hasHandles incl prev noHandles [] = []"
| "divideWalk hasHandles incl prev noHandles (loc0 # rest) =
     (case (case incl of None \<Rightarrow> Some loc0 | Some f \<Rightarrow> f loc0) of
        None \<Rightarrow> divideWalk hasHandles incl prev noHandles rest
      | Some loc \<Rightarrow>
          (let curve = dl_curve loc;
               origTime = dl_time loc;
               noHandles' = updateNoHandles hasHandles prev curve noHandles;
               time = rescale prev curve origTime;
               place = divisionAt time
           in \<lparr> dv_loc = loc, dv_time = time, dv_where = place,
                dv_clear = (noHandles' \<and> place = DivideAtTime time) \<rparr>
              # divideWalk hasHandles incl (Some (curve, origTime)) noHandles' rest))"

text \<open>The loop runs \<open>i\<close> from \<open>locations.length - 1\<close> down to 0.\<close>

definition divideLocations ::
  "(nat \<Rightarrow> bool) \<Rightarrow> (div_location \<Rightarrow> div_location option) option \<Rightarrow>
   div_location list \<Rightarrow> divided list" where
  "divideLocations hasHandles incl locations =
     divideWalk hasHandles incl None False (rev locations)"

section \<open>Operators and the open-path dispatch (PathItem.Boolean.js, lines 1136-1283)\<close>

datatype operation = Unite | Intersect | Subtract | Exclude

text \<open>
  The lookup table of an operator: the winding numbers it admits, and the flag that
  \<open>computeBoolean\<close> adds under the name of the operation
  (\<open>operator[operation] = true\<close>). Every operation has a table of its own, so a table
  carries the flag of its own operation only.
\<close>

record operator =
  op_admits :: "int \<Rightarrow> bool"
  op_unite :: bool
  op_intersect :: bool
  op_subtract :: bool
  op_exclude :: bool

definition operators :: "operation \<Rightarrow> operator" where
  "operators operation =
     \<lparr> op_admits = (case operation of
                       Unite \<Rightarrow> (\<lambda>w. w = 1)
                     | Intersect \<Rightarrow> (\<lambda>w. w = 2)
                     | Subtract \<Rightarrow> (\<lambda>w. w = 1)
                     | Exclude \<Rightarrow> (\<lambda>w. w = 1)),
       op_unite = (operation = Unite),
       op_intersect = (operation = Intersect),
       op_subtract = (operation = Subtract),
       op_exclude = (operation = Exclude) \<rparr>"

text \<open>
  A path item is a \<open>Path\<close>, which has a \<open>_closed\<close> flag and no \<open>_children\<close>, or a
  \<open>CompoundPath\<close>, which has \<open>_children\<close>.
\<close>

record path_data =
  pd_id :: nat
  pd_closed :: bool

datatype path_item = Path path_data | CompoundPath nat "path_data list"

text \<open>\<open>!item._children && !item._closed\<close>\<close>

fun isOpenPath :: "path_item \<Rightarrow> bool" where
  "isOpenPath (Path d) = (\<not> pd_closed d)"
| "isOpenPath (CompoundPath i children) = False"

text \<open>
  The pieces \<open>computeOpenBoolean\<close> tests. Splitting an open path at a crossing is the
  work of \<open>CurveLocation#split\<close> and \<open>Path#contains\<close>, which are not part of these
  sources: a piece is given by its id and by the outcome of
  \<open>_path2.contains(path.getPointAt(path.getLength() / 2))\<close> for it. \<open>og_splits\<close> lists
  what \<open>crossings[i].split()\<close> returns in the order of the loop (last crossing
  first; \<open>None\<close> where it returns null), \<open>og_rest\<close> is what is left of \<open>_path1\<close>.
\<close>

record piece =
  pc_id :: nat
  pc_midInside :: bool
  pc_handleInCleared :: bool
  pc_handleOutCleared :: bool

record open_geometry =
  og_splits :: "piece option list"
  og_rest :: piece

text \<open>
  \<open>addPath\<close>: \<open>contains(...) ^ sub\<close> is truthy when the two differ; an accepted
  piece goes to the front of \<open>paths\<close>.
\<close>

definition addPath :: "bool \<Rightarrow> piece \<Rightarrow> piece list \<Rightarrow> bool \<times> piece list" where
  "addPath sub path paths =
     (if pc_midInside path \<noteq> sub then (True, path # paths) else (False, paths))"

text \<open>The loop over the crossings: the state is \<open>paths\<close> and the remaining \<open>_path1\<close>.\<close>

fun splitLoop :: "bool \<Rightarrow> piece option list \<Rightarrow> piece list \<times> piece \<Rightarrow> piece list \<times> piece" where
  "splitLoop sub [] st = st"
| "splitLoop sub (None # others) st = splitLoop sub others st"
| "splitLoop sub (Some path # others) (paths, rest) =
     (let (added, paths') = addPath sub path paths;
          paths'' = (if added then (case paths' of
                                      [] \<Rightarrow> []
                                    | p # ps \<Rightarrow> p\<lparr> pc_handleInCleared := True \<rparr> # ps)
                     else paths')
      in splitLoop sub others (paths'', rest\<lparr> pc_handleOutCleared := True \<rparr>))"

datatype 'r boolean_result = NullResult | Group "piece list" | Traced 'r

text \<open>\<open>computeOpenBoolean(path1, path2, operator)\<close>; \<open>path2\<close> may be missing.\<close>

definition computeOpenBoolean ::
  "(path_item \<Rightarrow> path_item \<Rightarrow> open_geometry) \<Rightarrow> path_item \<Rightarrow> path_item option \<Rightarrow>
   operator \<Rightarrow> 'r boolean_result" where
  "computeOpenBoolean geometry path1 path2 operator =
     (case path2 of
        None \<Rightarrow> NullResult
      | Some p2 \<Rightarrow>
          if isOpenPath p2 \<or> (\<not> op_subtract operator \<and> \<not> op_intersect operator) then NullResult
          else
            (let g = geometry path1 p2;
                 sub = op_subtract operator;
                 (paths, rest) = splitLoop sub (og_splits g) ([], og_rest g)
             in Group (snd (addPath sub rest paths))))"

text \<open>
  \<open>computeBoolean(path1, path2, operation)\<close>. An open first operand is handed to
  \<open>computeOpenBoolean\<close>; for every other first operand the result is traced
  (\<open>traced\<close> stands for lines 1179-1241).
\<close>

definition computeBoolean ::
  "(path_item \<Rightarrow> path_item \<Rightarrow> open_geometry) \<Rightarrow>
   (path_item \<Rightarrow> path_item option \<Rightarrow> operator \<Rightarrow> 'r) \<Rightarrow>
   path_item \<Rightarrow> path_item option \<Rightarrow> operation \<Rightarrow> 'r boolean_result" where
  "computeBoolean geometry traced path1 path2 operation =
     (let operator = operators operation
      in if isOpenPath path1 then computeOpenBoolean geometry path1 path2 operator
         else Traced (traced path1 path2 operator))"

text \<open>
  The claim's words: an operand is closed when it is present and is not an open path
  (the code's comment: ``Assume that compound-paths are closed'').
\<close>

definition closedOperand :: "path_item option \<Rightarrow> bool" where
  "closedOperand path2 = (case path2 of None \<Rightarrow> False | Some p \<Rightarrow> \<not> isOpenPath p)"

text \<open>The paths the open-path code keeps, as the result's children.\<close>

definition openPieces ::
  "(path_item \<Rightarrow> path_item \<Rightarrow> open_geometry) \<Rightarrow> path_item \<Rightarrow> path_item \<Rightarrow> bool \<Rightarrow> piece list" where
  "openPieces geometry path1 p2 sub =
     (let g = geometry path1 p2;
          (paths, rest) = splitLoop sub (og_splits g) ([], og_rest g)
      in snd (addPath sub rest paths))"

section \<open>Ray-cast winding (PathItem.Boolean.js, lines 1410-1574)\<close>

text \<open>
  The values of a curve are the array \<open>[x0, y0, x1, y1, x2, y2, x3, y3]\<close>, a list of
  eight numbers read by index. The primitives of \<open>Curve\<close> are not part of these
  sources and are parameters of the model:
  \<open>cg_monoCurves v dir\<close> is \<open>Curve.getMonoCurves(v, dir)\<close>,
  \<open>cg_solve v coord val\<close> lists the roots that
  \<open>Curve.solveCubic(v, coord, val, roots, 0, 1)\<close> writes (its return value is their
  number), and \<open>cg_point v t\<close> is \<open>Curve.getPoint(v, t)\<close>.
\<close>

record curve_geometry =
  cg_monoCurves :: "real list \<Rightarrow> nat \<Rightarrow> real list list"
  cg_solve :: "real list \<Rightarrow> nat \<Rightarrow> real \<Rightarrow> real list"
  cg_point :: "real list \<Rightarrow> real \<Rightarrow> point"

text \<open>
  A curve object as \<open>getWinding\<close> reads it: its values, the identity of its path and
  whether that path is clockwise, and the values of the curves that repeated calls of
  \<open>getPrevious()\<close> yield, in that order, up to the call that returns null or the
  curve itself.
\<close>

record winding_curve =
  wc_values :: "real list"
  wc_path :: nat
  wc_clockwise :: bool
  wc_previous :: "real list list"

text \<open>\<open>windings[0]\<close>, \<open>windings[1]\<close> and \<open>isOnCurve[0]\<close> of \<open>addWinding\<close>.\<close>

record wind_acc =
  wa_left :: int
  wa_right :: int
  wa_on :: bool

text \<open>
  \<open>Curve.solveCubic(v, coord ? 0 : 1, po, roots, 0, 1) === 1
     ? Curve.getPoint(v, roots[0])[coord ? 'y' : 'x'] : (va0 + va3) / 2\<close>
\<close>

definition solvedAbscissa :: "curve_geometry \<Rightarrow> real list \<Rightarrow> nat \<Rightarrow> real \<Rightarrow> real \<Rightarrow> real" where
  "solvedAbscissa g v coord po fallback =
     (case cg_solve g v (if coord \<noteq> 0 then 0 else 1) po of
        [t] \<Rightarrow> (if coord \<noteq> 0 then snd (cg_point g v t) else fst (cg_point g v t))
      | _ \<Rightarrow> fallback)"

text \<open>
  \<open>addWinding(v, vPrev, px, py, windings, isOnCurve, coord)\<close>: the value returned is
  the next \<open>vPrev\<close>; the two arrays it writes are returned as the accumulator.
\<close>

definition addWinding ::
  "curve_geometry \<Rightarrow> real list \<Rightarrow> real list \<Rightarrow> real \<Rightarrow> real \<Rightarrow> wind_acc \<Rightarrow> nat \<Rightarrow>
   real list \<times> wind_acc" where
  "addWinding g v vPrev px py acc coord =
     (let epsilon = WINDING_EPSILON;
          pa = (if coord \<noteq> 0 then py else px);
          po = (if coord \<noteq> 0 then px else py);
          vo0 = v ! (1 - coord);
          vo3 = v ! (7 - coord)
      in if (vo0 > po \<and> vo3 > po) \<or> (vo0 < po \<and> vo3 < po) then (v, acc)
         else
           (let aBefore = pa - epsilon;
                aAfter = pa + epsilon;
                va0 = v ! coord;
                va1 = v ! (2 + coord);
                va2 = v ! (4 + coord);
                va3 = v ! (6 + coord)
            in if vo0 = vo3 then
                 (vPrev,
                  if (va1 \<le> aAfter \<and> va3 \<ge> aBefore) \<or> (va3 \<le> aAfter \<and> va1 \<ge> aBefore)
                  then acc\<lparr> wa_on := True \<rparr> else acc)
               else
                 (let a = (if po = vo0 then va0
                           else if po = vo3 then va3
                           else if (va0 < aBefore \<and> va1 < aBefore \<and> va2 < aBefore \<and> va3 < aBefore) \<or>
                                   (va0 > aAfter \<and> va1 > aAfter \<and> va2 > aAfter \<and> va3 > aAfter)
                                then (va0 + va3) / 2
                           else solvedAbscissa g v coord po ((va0 + va3) / 2));
                      winding = (if vo0 > vo3 then 1 else - 1);
                      prevWinding = (if vPrev ! (1 - coord) > vPrev ! (7 - coord) then 1 else - 1 :: int);
                      prevAEnd = vPrev ! (6 + coord)
                  in (v,
                      if po \<noteq> vo0 then
                        (if a < aBefore then acc\<lparr> wa_left := wa_left acc + winding \<rparr>
                         else if a > aAfter then acc\<lparr> wa_right := wa_right acc + winding \<rparr>
                         else acc\<lparr> wa_on := True, wa_left := wa_left acc + winding,
                                   wa_right := wa_right acc + winding \<rparr>)
                      else if winding \<noteq> prevWinding then
                        (let acc1 = (if prevAEnd \<le> aAfter
                                     then acc\<lparr> wa_left := wa_left acc + winding \<rparr> else acc)
                         in if prevAEnd \<ge> aBefore
                            then acc1\<lparr> wa_right := wa_right acc1 + winding \<rparr> else acc1)
                      else if (prevAEnd < aBefore \<and> a \<ge> aBefore) \<or> (prevAEnd > aAfter \<and> a \<le> aAfter) then
                        (if prevAEnd < aBefore
                         then acc\<lparr> wa_on := True, wa_right := wa_right acc + winding \<rparr>
                         else if prevAEnd > aAfter
                         then acc\<lparr> wa_on := True, wa_left := wa_left acc + winding \<rparr>
                         else acc\<lparr> wa_on := True \<rparr>)
                      else acc))))"

text \<open>
  The state of the loop of \<open>getWinding\<close>: \<open>windings\<close>, the per-path accumulator
  (\<open>pathWindings\<close> and \<open>isOnPath\<close>), \<open>onPathWinding\<close> and \<open>vPrev\<close>.
\<close>

record wind_state =
  ws_left :: int
  ws_right :: int
  ws_path :: wind_acc
  ws_onPathWinding :: int
  ws_vPrev :: "real list"

text \<open>Lines 1506-1520: on a new path, the values of the last curve before this one
  that is not level in the ordinate, or else the values of the curve itself.\<close>

definition initialVPrev :: "winding_curve \<Rightarrow> nat \<Rightarrow> real list" where
  "initialVPrev curve coord =
     (case find (\<lambda>v2. v2 ! (1 - coord) \<noteq> v2 ! (7 - coord)) (wc_previous curve) of
        Some v2 \<Rightarrow> v2
      | None \<Rightarrow> wc_values curve)"

text \<open>Lines 1541-1544: \<open>addWinding\<close> over the monotone pieces, threading \<open>vPrev\<close>.\<close>

fun addWindings ::
  "curve_geometry \<Rightarrow> real \<Rightarrow> real \<Rightarrow> nat \<Rightarrow> real list list \<Rightarrow> real list \<times> wind_acc \<Rightarrow>
   real list \<times> wind_acc" where
  "addWindings g px py coord [] st = st"
| "addWindings g px py coord (m # ms) (vPrev, acc) =
     addWindings g px py coord ms (addWinding g m vPrev px py acc coord)"

text \<open>Lines 1521-1545: one curve of the array.\<close>

definition windCurve ::
  "curve_geometry \<Rightarrow> real \<Rightarrow> real \<Rightarrow> nat \<Rightarrow> real list \<Rightarrow> real list \<times> wind_acc \<Rightarrow>
   real list \<times> wind_acc" where
  "windCurve g px py coord v st =
     (let po = (if coord \<noteq> 0 then px else py);
          pa = (if coord \<noteq> 0 then py else px);
          aBefore = pa - WINDING_EPSILON;
          aAfter = pa + WINDING_EPSILON;
          vo0 = v ! (1 - coord);
          vo1 = v ! (3 - coord);
          vo2 = v ! (5 - coord);
          vo3 = v ! (7 - coord)
      in if (vo0 \<ge> po \<or> vo1 \<ge> po \<or> vo2 \<ge> po \<or> vo3 \<ge> po) \<and>
            (vo0 \<le> po \<or> vo1 \<le> po \<or> vo2 \<le> po \<or> vo3 \<le> po) then
           (let va0 = v ! coord;
                va1 = v ! (2 + coord);
                va2 = v ! (4 + coord);
                va3 = v ! (6 + coord);
                monoCurves =
                  (if (va0 < aBefore \<and> va1 < aBefore \<and> va2 < aBefore \<and> va3 < aBefore) \<or>
                      (va0 > aAfter \<and> va1 > aAfter \<and> va2 > aAfter \<and> va3 > aAfter)
                   then [v] else cg_monoCurves g v coord)
            in addWindings g px py coord monoCurves st)
         else st)"

text \<open>Lines 1546-1558: what happens after the last curve of a path.\<close>

definition closePath :: "winding_curve \<Rightarrow> wind_state \<Rightarrow> wind_state" where
  "closePath curve st =
     (let pw = ws_path st;
          st1 = (if wa_left pw = 0 \<and> wa_right pw = 0 \<and> wa_on pw
                 then st\<lparr> ws_onPathWinding :=
                              ws_onPathWinding st + (if wc_clockwise curve then 1 else - 1) \<rparr>
                 else st\<lparr> ws_left := ws_left st + wa_left pw,
                          ws_right := ws_right st + wa_right pw,
                          ws_path := pw\<lparr> wa_left := 0, wa_right := 0 \<rparr> \<rparr>)
      in st1\<lparr> ws_path := (ws_path st1)\<lparr> wa_on := False \<rparr> \<rparr>)"

text \<open>
  The loop over the array; \<open>prior\<close> is \<open>curves[i - 1]\<close> (\<open>None\<close> when \<open>i = 0\<close>)
  and the head of the remaining list is \<open>curves[i + 1]\<close>.
\<close>

fun windingLoop ::
  "curve_geometry \<Rightarrow> real \<Rightarrow> real \<Rightarrow> nat \<Rightarrow> winding_curve option \<Rightarrow> winding_curve list \<Rightarrow>
   wind_state \<Rightarrow> wind_state" where
  "windingLoop g px py coord prior [] st = st"
| "windingLoop g px py coord prior (curve # rest) st =
     (let st1 = (if (case prior of None \<Rightarrow> True | Some b \<Rightarrow> wc_path b \<noteq> wc_path curve)
                 then st\<lparr> ws_vPrev := initialVPrev curve coord \<rparr> else st);
          (vPrev, pw) = windCurve g px py coord (wc_values curve) (ws_vPrev st1, ws_path st1);
          st2 = st1\<lparr> ws_vPrev := vPrev, ws_path := pw \<rparr>;
          st3 = (if (case rest of [] \<Rightarrow> True | nextCurve # _ \<Rightarrow> wc_path nextCurve \<noteq> wc_path curve)
                 then closePath curve st2 else st2)
      in windingLoop g px py coord (Some curve) rest st3)"

definition initialWindState :: wind_state where
  "initialWindState =
     \<lparr> ws_left = 0, ws_right = 0,
       ws_path = \<lparr> wa_left = 0, wa_right = 0, wa_on = False \<rparr>,
       ws_onPathWinding = 0, ws_vPrev = [] \<rparr>"

definition windingState ::
  "curve_geometry \<Rightarrow> point \<Rightarrow> winding_curve list \<Rightarrow> bool \<Rightarrow> wind_state" where
  "windingState g pt curves horizontal =
     windingLoop g (fst pt) (snd pt) (if horizontal then 1 else 0) None curves initialWindState"

text \<open>The counts \<open>windings[0]\<close> and \<open>windings[1]\<close> that the loop has accumulated.\<close>

definition accumulatedCounts ::
  "curve_geometry \<Rightarrow> point \<Rightarrow> winding_curve list \<Rightarrow> bool \<Rightarrow> int \<times> int" where
  "accumulatedCounts g pt curves horizontal =
     (let st = windingState g pt curves horizontal in (ws_left st, ws_right st))"

text \<open>\<open>onPathWinding\<close> when the loop has ended: the sum, over the paths on whose
  outline the point lies with no other crossing left, of 1 for a clockwise path and -1
  for a counter-clockwise one.\<close>

definition onPathWinding ::
  "curve_geometry \<Rightarrow> point \<Rightarrow> winding_curve list \<Rightarrow> bool \<Rightarrow> int" where
  "onPathWinding g pt curves horizontal = ws_onPathWinding (windingState g pt curves horizontal)"

text \<open>
  Lines 1560-1563: the counts as they stand when the result is computed. When both
  accumulated counts are zero, both are replaced by \<open>onPathWinding\<close>.
\<close>

definition windingCounts ::
  "curve_geometry \<Rightarrow> point \<Rightarrow> winding_curve list \<Rightarrow> bool \<Rightarrow> int \<times> int" where
  "windingCounts g pt curves horizontal =
     (let st = windingState g pt curves horizontal
      in if ws_left st = 0 \<and> ws_right st = 0
         then (ws_onPathWinding st, ws_onPathWinding st)
         else (ws_left st, ws_right st))"

text \<open>JavaScript's \<open>a && b\<close> on numbers: \<open>a\<close> when \<open>a\<close> is zero, else \<open>b\<close>.\<close>

definition jsAnd :: "int \<Rightarrow> int \<Rightarrow> int" where
  "jsAnd a b = (if a = 0 then a else b)"

record winding_result =
  w_winding :: int
  w_contour :: bool

text \<open>
  Lines 1564-1573. \<open>!windLeft ^ !windRight\<close> is 1 when exactly one of the two is
  zero and 0 otherwise; \<open>w_contour\<close> is its truth value.
\<close>

definition getWinding ::
  "curve_geometry \<Rightarrow> point \<Rightarrow> winding_curve list \<Rightarrow> bool \<Rightarrow> winding_result" where
  "getWinding g pt curves horizontal =
     (let (w0, w1) = windingCounts g pt curves horizontal;
          windLeft = jsAnd w0 (2 - \<bar>w0\<bar> mod 2);
          windRight = jsAnd w1 (2 - \<bar>w1\<bar> mod 2)
      in \<lparr> w_winding = max windLeft windRight,
           w_contour = ((windLeft = 0) \<noteq> (windRight = 0)) \<rparr>)"

text \<open>The claim's mapping: \<open>f(w) = 0\<close> if \<open>w = 0\<close>, otherwise \<open>2 - (|w| mod 2)\<close>.\<close>

definition mod2map :: "int \<Rightarrow> int" where
  "mod2map w = (if w = 0 then 0 else 2 - (\<bar>w\<bar> mod 2))"

text \<open>
  Example data: the closed, clockwise square with corners (0,0), (10,0), (10,10) and
  (0,10) as four straight curves (handles zero, so the control points coincide with the
  end points), each with the curves before it in the order \<open>getPrevious()\<close> yields
  them. For a straight curve \<open>Curve.getMonoCurves\<close> returns the curve itself, and a
  straight line that is not level meets a level ray in one point.
\<close>

definition squareValues :: "real list list" where
  "squareValues =
     [[0, 0, 0, 0, 10, 0, 10, 0],
      [10, 0, 10, 0, 10, 10, 10, 10],
      [10, 10, 10, 10, 0, 10, 0, 10],
      [0, 10, 0, 10, 0, 0, 0, 0]]"

definition squareCurves :: "winding_curve list" where
  "squareCurves =
     map (\<lambda>i. \<lparr> wc_values = squareValues ! i, wc_path = 1, wc_clockwise = True,
                 wc_previous = map (\<lambda>k. squareValues ! ((i + 4 - k) mod 4)) [1, 2, 3] \<rparr>)
       [0, 1, 2, 3]"

definition straightGeometry :: curve_geometry where
  "straightGeometry =
     \<lparr> cg_monoCurves = (\<lambda>v dir. [v]),
       cg_solve = (\<lambda>v coord val.
          (let c0 = v ! coord; c3 = v ! (coord + 6)
           in if c0 = c3 then [] else [(val - c0) / (c3 - c0)])),
       cg_point = (\<lambda>v t. (v ! 0 + t * (v ! 6 - v ! 0), v ! 1 + t * (v ! 7 - v ! 1))) \<rparr>"

section \<open>Segments, paths and intersections of the operands\<close>

text \<open>
  A reference in JavaScript is \<open>undefined\<close>, \<open>null\<close> or an object; \<open>===\<close> tells
  the three apart, a condition only asks whether it is an object.
\<close>

datatype 'a jsref = Undefined | Null | Ref 'a

fun truthy :: "'a jsref \<Rightarrow> bool" where
  "truthy (Ref x) = True"
| "truthy _ = False"

datatype js_error = TypeError | OutOfFuel

text \<open>
  A segment is named by the id of its path and its index in \<open>path._segments\<close>;
  neither changes while windings are propagated and paths are traced. The store holds
  what the engine reads and writes of the cloned operands: per path the number of its
  segments, \<open>_closed\<close>, the id of the compound path that is its parent (if any) and the
  two flags \<open>computeBoolean\<close> sets; per segment its geometry and the fields
  \<open>_intersection\<close>, \<open>_winding\<close> (absent until propagated), \<open>_contour\<close> and
  \<open>_visited\<close>; per intersection (a \<open>CurveLocation\<close>, named by a number) its
  \<open>_segment\<close>, whether \<open>_overlap\<close> is set, and the locations that follow it in its
  chain, \<open>_next\<close>, \<open>_next._next\<close>, ... (the chain built by \<open>linkIntersections\<close> is a
  finite list).
\<close>

type_synonym seg_ref = "nat \<times> nat"

record segment =
  sg_point :: point
  sg_handleIn :: point
  sg_handleOut :: point
  sg_intersection :: "nat jsref"
  sg_winding :: "int option"
  sg_contour :: bool
  sg_visited :: bool

record path_info =
  pa_count :: nat
  pa_closed :: bool
  pa_parent :: "nat option"
  pa_overlapsOnly :: bool
  pa_validOverlapsOnly :: bool

record location =
  lo_segment :: seg_ref
  lo_overlap :: bool
  lo_nexts :: "nat list"

record store =
  st_paths :: "nat \<Rightarrow> path_info"
  st_segs :: "seg_ref \<Rightarrow> segment"
  st_locs :: "nat \<Rightarrow> location"

text \<open>
  \<open>Segment#getNext\<close>: \<open>segments[index + 1] || path._closed && segments[0] || null\<close>.
\<close>

definition getNext :: "store \<Rightarrow> seg_ref \<Rightarrow> seg_ref jsref" where
  "getNext st seg =
     (let p = fst seg; i = snd seg
      in if i + 1 < pa_count (st_paths st p) then Ref (p, i + 1)
         else if pa_closed (st_paths st p) then Ref (p, 0)
         else Null)"

definition visit :: "seg_ref \<Rightarrow> store \<Rightarrow> store" where
  "visit seg st = st\<lparr> st_segs := (st_segs st)(seg := (st_segs st seg)\<lparr> sg_visited := True \<rparr>) \<rparr>"

section \<open>Winding propagation (PathItem.Boolean.js, lines 1576-1624)\<close>

text \<open>
  The segments that repeated calls of \<open>getNext()\<close> yield after \<open>start\<close>: the rest of
  the segment array, and for a closed path the array from its beginning up to and
  including \<open>start\<close> itself; after the last of them \<open>getNext()\<close> is null for an open
  path.
\<close>

definition successors :: "store \<Rightarrow> seg_ref \<Rightarrow> seg_ref list" where
  "successors st start =
     (let p = fst start; i = snd start
      in map (Pair p) ([i + 1 ..< pa_count (st_paths st p)] @
                        (if pa_closed (st_paths st p) then [0 ..< i + 1] else [])))"

text \<open>
  The condition of the \<open>do ... while\<close> loop at lines 1585-1591, over the successors:
  the chain goes on while there is a next segment, it has no intersection and it is
  not the start.
\<close>

fun chainLoop :: "store \<Rightarrow> seg_ref \<Rightarrow> seg_ref list \<Rightarrow> seg_ref list" where
  "chainLoop st start [] = []"
| "chainLoop st start (segment # rest) =
     (if \<not> truthy (sg_intersection (st_segs st segment)) \<and> segment \<noteq> start
      then segment # chainLoop st start rest
      else [])"

definition chainOf :: "store \<Rightarrow> seg_ref \<Rightarrow> seg_ref list" where
  "chainOf st start = start # chainLoop st start (successors st start)"

text \<open>
  Geometry of the chain, outside these sources: the length of the curve that starts at
  a segment (\<open>segment.getCurve().getLength()\<close>), and for a curve and an arc length on
  it the sampled point and whether the curve is nearly level there
  (\<open>getTimeAt\<close>, \<open>getPointAtTime\<close>, \<open>getTangentAtTime\<close>).
\<close>

record chain_geometry =
  ch_length :: "seg_ref \<Rightarrow> real"
  ch_sample :: "seg_ref \<Rightarrow> real \<Rightarrow> point \<times> bool"

text \<open>Lines 1593-1617: the first curve of the chain that holds the remaining length.\<close>

fun findSample :: "(seg_ref \<times> real) list \<Rightarrow> real \<Rightarrow> (seg_ref \<times> real) option" where
  "findSample [] len = None"
| "findSample ((seg, curveLength) # rest) len =
     (if len \<le> curveLength then Some (seg, len) else findSample rest (len - curveLength))"

definition chainEntries :: "chain_geometry \<Rightarrow> store \<Rightarrow> seg_ref \<Rightarrow> (seg_ref \<times> real) list" where
  "chainEntries cg st start = map (\<lambda>s. (s, ch_length cg s)) (chainOf st start)"

text \<open>The sampled point of the chain: the segment of the curve, the point, and \<open>hor\<close>.\<close>

definition chainSample ::
  "chain_geometry \<Rightarrow> store \<Rightarrow> seg_ref \<Rightarrow> (seg_ref \<times> point \<times> bool) option" where
  "chainSample cg st start =
     (let entries = chainEntries cg st start;
          totalLength = sum_list (map snd entries)
      in case findSample entries (totalLength / 2) of
           None \<Rightarrow> None
         | Some (seg, len) \<Rightarrow> Some (seg, ch_sample cg seg len))"

text \<open>
  An operand as \<open>propagateWinding\<close> uses it: its identity and the curves
  \<open>_getWinding\<close> casts the ray against. The path item a curve is compared with is the
  parent of its path when that is a compound path, else the path.
\<close>

record operand =
  od_id :: nat
  od_curves :: "winding_curve list"

definition ownerItem :: "store \<Rightarrow> seg_ref \<Rightarrow> nat" where
  "ownerItem st seg =
     (case pa_parent (st_paths st (fst seg)) of Some parent \<Rightarrow> parent | None \<Rightarrow> fst seg)"

text \<open>Lines 1609-1613. \<open>{ winding: 0 }\<close> has no \<open>contour\<close>, which reads as false.\<close>

definition sampleWinding ::
  "curve_geometry \<Rightarrow> store \<Rightarrow> operand \<Rightarrow> operand option \<Rightarrow> winding_curve list \<Rightarrow>
   operator \<Rightarrow> seg_ref \<times> point \<times> bool \<Rightarrow> winding_result" where
  "sampleWinding g st path1 path2 curves operator sample =
     (let (seg, pt, hor) = sample;
          path = ownerItem st seg
      in if \<not> (op_subtract operator \<and>
                (case path2 of
                   None \<Rightarrow> False
                 | Some p2 \<Rightarrow>
                     (path = od_id path1 \<and> w_winding (getWinding g pt (od_curves p2) hor) \<noteq> 0) \<or>
                     (path = od_id p2 \<and> \<not> w_winding (getWinding g pt (od_curves path1) hor) \<noteq> 0)))
         then getWinding g pt curves hor
         else \<lparr> w_winding = 0, w_contour = False \<rparr>)"

text \<open>Lines 1619-1623: the loop over the chain, from its last entry to its first.\<close>

fun assignWinding :: "winding_result \<Rightarrow> seg_ref list \<Rightarrow> store \<Rightarrow> store" where
  "assignWinding w [] st = st"
| "assignWinding w (seg # rest) st =
     assignWinding w rest
       (st\<lparr> st_segs := (st_segs st)
               (seg := (st_segs st seg)\<lparr> sg_winding := Some (w_winding w),
                                         sg_contour := w_contour w \<rparr>) \<rparr>)"

text \<open>
  \<open>propagateWinding(segment, path1, path2, curves, operator)\<close>. When no curve of the
  chain holds the sampled length, \<open>winding\<close> stays undefined and the first assignment
  throws.
\<close>

definition propagateWinding ::
  "curve_geometry \<Rightarrow> chain_geometry \<Rightarrow> store \<Rightarrow> seg_ref \<Rightarrow> operand \<Rightarrow> operand option \<Rightarrow>
   winding_curve list \<Rightarrow> operator \<Rightarrow> js_error + store" where
  "propagateWinding g cg st segment path1 path2 curves operator =
     (case chainSample cg st segment of
        None \<Rightarrow> Inl TypeError
      | Some sample \<Rightarrow>
          Inr (assignWinding (sampleWinding g st path1 path2 curves operator sample)
                 (rev (chainOf st segment)) st))"

text \<open>
  Example data: operand A is the triangle (2,2), (6,2), (2,5) (path 0, curve lengths 4,
  5 and 3), operand B is the square of side 10 around it (path 1); no intersections.
  The chain that starts at the first segment of the triangle is the whole triangle; half
  of its length, 6, lies 2 units along the second curve, at (22/5, 16/5), where the
  curve is not nearly level.
\<close>

definition triangleValues :: "real list list" where
  "triangleValues =
     [[2, 2, 2, 2, 6, 2, 6, 2],
      [6, 2, 6, 2, 2, 5, 2, 5],
      [2, 5, 2, 5, 2, 2, 2, 2]]"

definition triangleCurves :: "winding_curve list" where
  "triangleCurves =
     map (\<lambda>i. \<lparr> wc_values = triangleValues ! i, wc_path = 0, wc_clockwise = True,
                 wc_previous = map (\<lambda>k. triangleValues ! ((i + 3 - k) mod 3)) [1, 2] \<rparr>)
       [0, 1, 2]"

definition operandStore :: store where
  "operandStore =
     \<lparr> st_paths = (\<lambda>p. \<lparr> pa_count = (if p = 0 then 3 else 4), pa_closed = True,
                         pa_parent = None, pa_overlapsOnly = False,
                         pa_validOverlapsOnly = False \<rparr>),
       st_segs = (\<lambda>s. \<lparr> sg_point = (if fst s = 0 then [(2, 2), (6, 2), (2, 5)] ! snd s
                                     else [(0, 0), (10, 0), (10, 10), (0, 10)] ! snd s),
                        sg_handleIn = (0, 0), sg_handleOut = (0, 0),
                        sg_intersection = Undefined, sg_winding = None,
                        sg_contour = False, sg_visited = False \<rparr>),
       st_locs = (\<lambda>i. \<lparr> lo_segment = (0, 0), lo_overlap = False, lo_nexts = [] \<rparr>) \<rparr>"

definition operandChain :: chain_geometry where
  "operandChain =
     \<lparr> ch_length = (\<lambda>s. if fst s = 0 then [4, 5, 3] ! snd s else 10),
       ch_sample = (\<lambda>s len.
          (let a = sg_point (st_segs operandStore s);
               b = (case getNext operandStore s of
                      Ref n \<Rightarrow> sg_point (st_segs operandStore n) | _ \<Rightarrow> a);
               l = (if fst s = 0 then [4, 5, 3] ! snd s else 10);
               dx = (fst b - fst a) / l;
               dy = (snd b - snd a) / l
           in ((fst a + len * dx, snd a + len * dy), \<bar>dy\<bar> < 1 / 2))) \<rparr>"

section \<open>Path tracing (PathItem.Boolean.js, lines 1636-1817)\<close>

text \<open>
  A segment of a traced path is \<open>new Segment(seg._point, handleIn, next && seg._handleOut)\<close>:
  a handle that is passed as \<open>undefined\<close> or \<open>null\<close> is absent. A traced path is the
  list of its segments and its \<open>_closed\<close> flag.
\<close>

record out_segment =
  os_point :: point
  os_handleIn :: "point option"
  os_handleOut :: "point option"

record traced_path =
  tp_segments :: "out_segment list"
  tp_closed :: bool

text \<open>
  Geometry outside these sources: \<open>path.getArea()\<close>, \<open>path.getArea(true)\<close> and
  \<open>Numerical.isZero\<close>.
\<close>

record trace_geometry =
  tg_area :: "traced_path \<Rightarrow> real"
  tg_areaClosed :: "traced_path \<Rightarrow> real"
  tg_isZero :: "real \<Rightarrow> bool"

datatype log_entry = OpenPathError

text \<open>\<open>operator[seg._winding]\<close>: an absent winding is no key of the table.\<close>

definition admits :: "operator \<Rightarrow> int option \<Rightarrow> bool" where
  "admits opr w = (case w of None \<Rightarrow> False | Some n \<Rightarrow> op_admits opr n)"

text \<open>
  \<open>isValid(seg, excludeContour)\<close>; the operator is absent when \<open>resolveCrossings\<close>
  calls \<open>tracePaths(segments)\<close>.
\<close>

definition isValid :: "operator option \<Rightarrow> store \<Rightarrow> seg_ref jsref \<Rightarrow> bool \<Rightarrow> bool" where
  "isValid operator st seg excludeContour =
     (case seg of
        Ref s \<Rightarrow>
          \<not> sg_visited (st_segs st s) \<and>
          (case operator of
             None \<Rightarrow> True
           | Some opr \<Rightarrow>
               admits opr (sg_winding (st_segs st s)) \<or>
               (\<not> excludeContour \<and> op_unite opr \<and> sg_contour (st_segs st s)))
      | _ \<Rightarrow> False)"

text \<open>\<open>isStart(seg)\<close>: \<open>seg === start || seg === otherStart\<close>.\<close>

definition isStart :: "seg_ref jsref \<Rightarrow> seg_ref jsref \<Rightarrow> seg_ref jsref \<Rightarrow> bool" where
  "isStart start otherStart seg = (seg = start \<or> seg = otherStart)"

text \<open>
  The \<open>while (inter)\<close> loop of \<open>findBestIntersection\<close> over the chain of
  intersections. Reading \<open>nextSeg._visited\<close> when \<open>getNext()\<close> returned null throws.
\<close>

fun findBestLoop ::
  "operator option \<Rightarrow> store \<Rightarrow> seg_ref jsref \<Rightarrow> seg_ref jsref \<Rightarrow> seg_ref \<Rightarrow> nat list \<Rightarrow>
   js_error + nat option" where
  "findBestLoop operator st start otherStart exclude [] = Inr None"
| "findBestLoop operator st start otherStart exclude (i # rest) =
     (let seg = lo_segment (st_locs st i);
          nextSeg = getNext st seg
      in if seg = exclude then findBestLoop operator st start otherStart exclude rest
         else if isStart start otherStart (Ref seg) \<or> isStart start otherStart nextSeg
         then Inr (Some i)
         else if sg_visited (st_segs st seg)
         then findBestLoop operator st start otherStart exclude rest
         else
           (case nextSeg of
              Ref n \<Rightarrow>
                if \<not> sg_visited (st_segs st n) \<and>
                   (operator = None \<or>
                    (isValid operator st (Ref seg) False \<and>
                     (isValid operator st nextSeg False \<or>
                      (case sg_intersection (st_segs st n) of
                         Ref nextInter \<Rightarrow>
                           isValid operator st (Ref (lo_segment (st_locs st nextInter))) False
                       | _ \<Rightarrow> False))))
                then Inr (Some i)
                else findBestLoop operator st start otherStart exclude rest
            | _ \<Rightarrow> Inl TypeError))"

definition findBestIntersection ::
  "operator option \<Rightarrow> store \<Rightarrow> seg_ref jsref \<Rightarrow> seg_ref jsref \<Rightarrow> nat \<Rightarrow> seg_ref \<Rightarrow>
   js_error + nat option" where
  "findBestIntersection operator st start otherStart i exclude =
     (if lo_nexts (st_locs st i) = [] then Inr (Some i)
      else findBestLoop operator st start otherStart exclude (i # lo_nexts (st_locs st i)))"

text \<open>The variables of the inner loop.\<close>

record trace_state =
  ts_store :: store
  ts_seg :: seg_ref
  ts_inter :: "nat jsref"
  ts_path :: "out_segment list option"
  ts_start :: "seg_ref jsref"
  ts_otherStart :: "seg_ref jsref"
  ts_handleIn :: "point option"
  ts_finished :: bool

text \<open>
  Line 1725: \<open>inter = inter && findBestIntersection(inter, seg) || inter\<close>.
\<close>

definition bestIntersection :: "operator option \<Rightarrow> trace_state \<Rightarrow> js_error + nat jsref" where
  "bestIntersection operator t =
     (case ts_inter t of
        Ref i \<Rightarrow>
          (case findBestIntersection operator (ts_store t) (ts_start t) (ts_otherStart t) i
                  (ts_seg t) of
             Inl e \<Rightarrow> Inl e
           | Inr (Some best) \<Rightarrow> Inr (Ref best)
           | Inr None \<Rightarrow> Inr (Ref i))
      | none \<Rightarrow> Inr none)"

text \<open>Line 1727: \<open>other = inter && inter._segment\<close>.\<close>

definition otherSegment :: "store \<Rightarrow> nat jsref \<Rightarrow> seg_ref jsref" where
  "otherSegment st isect =
     (case isect of
        Ref i \<Rightarrow> Ref (lo_segment (st_locs st i))
      | Null \<Rightarrow> Null
      | Undefined \<Rightarrow> Undefined)"

text \<open>
  Lines 1725-1749: the choice of the branch. The result is the state with \<open>seg\<close>,
  \<open>finished\<close> and the visited mark updated, and \<open>other\<close>.
\<close>

definition switchSegment ::
  "operator option \<Rightarrow> trace_state \<Rightarrow> js_error + (trace_state \<times> seg_ref jsref)" where
  "switchSegment operator t =
     (case bestIntersection operator t of
        Inl e \<Rightarrow> Inl e
      | Inr isect \<Rightarrow>
          (let st = ts_store t;
               seg = ts_seg t;
               other = otherSegment st isect;
               t0 = t\<lparr> ts_inter := isect \<rparr>
           in if isStart (ts_start t) (ts_otherStart t) (Ref seg)
              then Inr (t0\<lparr> ts_finished := True \<rparr>, other)
              else
                (case other of
                   Ref partner \<Rightarrow>
                     if isStart (ts_start t) (ts_otherStart t) other
                     then Inr (t0\<lparr> ts_finished := True, ts_seg := partner \<rparr>, other)
                     else if isValid operator st other (isValid operator st (Ref seg) True)
                     then Inr (t0\<lparr> ts_store :=
                                      (case operator of
                                         None \<Rightarrow> st
                                       | Some opr \<Rightarrow>
                                           if op_intersect opr \<or> op_subtract opr
                                           then visit seg st else st),
                                    ts_seg := partner \<rparr>, other)
                     else Inr (t0, other)
                 | _ \<Rightarrow> Inr (t0, other))))"

text \<open>
  Lines 1763-1781: the segment is added to the path (which is created with it when
  there is none yet), marked visited, and the loop moves on to the next segment, or to
  the first segment of the path at the end of an open path.
\<close>

definition addSegment :: "trace_state \<Rightarrow> seg_ref jsref \<Rightarrow> trace_state" where
  "addSegment t other =
     (let st = ts_store t;
          seg = ts_seg t;
          next = getNext st seg;
          added = \<lparr> os_point = sg_point (st_segs st seg),
                    os_handleIn = ts_handleIn t,
                    os_handleOut = (case next of
                                      Ref n \<Rightarrow> Some (sg_handleOut (st_segs st seg))
                                    | _ \<Rightarrow> None) \<rparr>;
          seg' = (case next of Ref n \<Rightarrow> n | _ \<Rightarrow> (fst seg, 0))
      in t\<lparr> ts_store := visit seg st,
            ts_path := Some ((case ts_path t of None \<Rightarrow> [] | Some segs \<Rightarrow> segs) @ [added]),
            ts_start := (case ts_path t of None \<Rightarrow> Ref seg | Some segs \<Rightarrow> ts_start t),
            ts_otherStart := (case ts_path t of None \<Rightarrow> other | Some segs \<Rightarrow> ts_otherStart t),
            ts_seg := seg',
            ts_handleIn := (case next of
                              Ref n \<Rightarrow> Some (sg_handleIn (st_segs st n))
                            | _ \<Rightarrow> None),
            ts_inter := sg_intersection (st_segs st seg') \<rparr>)"

text \<open>
  The inner loop \<open>while (true)\<close> (lines 1722-1782). The source has no bound on its
  iterations; the model counts them down from \<open>fuel\<close> and reports \<open>OutOfFuel\<close> when
  the count is used up.
\<close>

fun traceLoop :: "operator option \<Rightarrow> nat \<Rightarrow> trace_state \<Rightarrow> js_error + trace_state" where
  "traceLoop operator 0 t = Inl OutOfFuel"
| "traceLoop operator (Suc fuel) t =
     (case switchSegment operator t of
        Inl e \<Rightarrow> Inl e
      | Inr (t1, other) \<Rightarrow>
          if ts_finished t1 \<or> sg_visited (st_segs (ts_store t1) (ts_seg t1))
          then Inr (t1\<lparr> ts_store := visit (ts_seg t1) (ts_store t1) \<rparr>)
          else if pa_validOverlapsOnly (st_paths (ts_store t1) (fst (ts_seg t1))) \<and>
                  \<not> isValid operator (ts_store t1) (Ref (ts_seg t1)) False
          then Inr t1
          else traceLoop operator fuel (addSegment t1 other))"

text \<open>
  What \<open>tracePaths\<close> carries from one round of its outer loop to the next: the store,
  \<open>paths\<close>, the errors written to the console, and \<open>handleIn\<close>. The variable
  \<open>handleIn\<close> is declared in the body of the outer loop without a value (line 1689);
  a \<open>var\<close> belongs to the function, so it is \<open>undefined\<close> only when \<open>tracePaths\<close>
  starts and afterwards holds what the last trace left in it.
\<close>

record tracer =
  tr_store :: store
  tr_paths :: "traced_path list"
  tr_log :: "log_entry list"
  tr_handleIn :: "point option"

text \<open>\<open>path1.clone(false)\<close> of a path of the store.\<close>

definition clonePath :: "store \<Rightarrow> nat \<Rightarrow> traced_path" where
  "clonePath st p =
     \<lparr> tp_segments =
         map (\<lambda>i. \<lparr> os_point = sg_point (st_segs st (p, i)),
                     os_handleIn = Some (sg_handleIn (st_segs st (p, i))),
                     os_handleOut = Some (sg_handleOut (st_segs st (p, i))) \<rparr>)
           [0 ..< pa_count (st_paths st p)],
       tp_closed = pa_closed (st_paths st p) \<rparr>"

text \<open>\<open>Base.equals(segments1, segments2)\<close>: the same points and handles, in order.\<close>

definition segmentsEqual :: "store \<Rightarrow> nat \<Rightarrow> nat \<Rightarrow> bool" where
  "segmentsEqual st p1 p2 = (tp_segments (clonePath st p1) = tp_segments (clonePath st p2))"

text \<open>
  Lines 1693-1710: two paths that overlap in all their segments. \<open>inter._segment\<close>
  throws when the segment has no intersection, and \<open>operator.unite\<close> throws when there
  is no operator.
\<close>

definition overlapShortcut ::
  "trace_geometry \<Rightarrow> operator option \<Rightarrow> seg_ref \<Rightarrow> tracer \<Rightarrow> js_error + tracer" where
  "overlapShortcut tg operator seg tr =
     (let st = tr_store tr
      in if \<not> sg_visited (st_segs st seg) \<and> pa_overlapsOnly (st_paths st (fst seg)) then
           (case sg_intersection (st_segs st seg) of
              Ref i \<Rightarrow>
                (let path1 = fst seg;
                     path2 = fst (lo_segment (st_locs st i))
                 in if segmentsEqual st path1 path2 then
                      (case operator of
                         None \<Rightarrow> Inl TypeError
                       | Some opr \<Rightarrow>
                           Inr (tr\<lparr> tr_paths :=
                                       (if (op_unite opr \<or> op_intersect opr) \<and>
                                           tg_area tg (clonePath st path1) \<noteq> 0
                                        then tr_paths tr @ [clonePath st path1]
                                        else tr_paths tr),
                                     tr_store :=
                                       fold (\<lambda>j s. visit (path2, j) (visit (path1, j) s))
                                         [0 ..< pa_count (st_paths st path1)] st \<rparr>))
                    else Inr tr)
            | _ \<Rightarrow> Inl TypeError)
         else Inr tr)"

text \<open>Lines 1810-1814: a path is added to the result when it has more than 8 segments
  or its area is not zero.\<close>

definition emit :: "trace_geometry \<Rightarrow> traced_path \<Rightarrow> tracer \<Rightarrow> tracer" where
  "emit tg path tr =
     (if length (tp_segments path) > 8 \<or> \<not> tg_isZero tg (tg_area tg path)
      then tr\<lparr> tr_paths := tr_paths tr @ [path] \<rparr>
      else tr)"

text \<open>\<open>path.firstSegment.setHandleIn(handleIn)\<close>\<close>

fun setFirstHandleIn :: "point option \<Rightarrow> out_segment list \<Rightarrow> out_segment list" where
  "setFirstHandleIn h [] = []"
| "setFirstHandleIn h (s # rest) = s\<lparr> os_handleIn := h \<rparr> # rest"

text \<open>
  Lines 1783-1814: what happens to the path after the inner loop. A finished loop with
  no path would throw at \<open>path.firstSegment\<close>.
\<close>

definition finishTrace :: "trace_geometry \<Rightarrow> trace_state \<Rightarrow> tracer \<Rightarrow> js_error + tracer" where
  "finishTrace tg t tr =
     (if ts_finished t then
        (case ts_path t of
           None \<Rightarrow> Inl TypeError
         | Some segs \<Rightarrow>
             Inr (emit tg \<lparr> tp_segments = setFirstHandleIn (ts_handleIn t) segs,
                            tp_closed = True \<rparr> tr))
      else
        (case ts_path t of
           Some segs \<Rightarrow>
             (let area = tg_areaClosed tg \<lparr> tp_segments = segs, tp_closed = False \<rparr>
              in Inr (tr\<lparr> tr_log := (if \<bar>area\<bar> \<ge> GEOMETRIC_EPSILON
                                       then tr_log tr @ [OpenPathError]
                                       else tr_log tr) \<rparr>))
         | None \<Rightarrow> Inr tr))"

text \<open>
  Lines 1684-1721: the head of the outer loop for one segment of the array. After the
  shortcut for fully overlapping paths, the segment is passed over (\<open>continue\<close>) or the
  inner loop starts at it, with the \<open>handleIn\<close> the function holds.
\<close>

definition seedStart ::
  "trace_geometry \<Rightarrow> operator option \<Rightarrow> seg_ref \<Rightarrow> tracer \<Rightarrow>
   js_error + (tracer \<times> trace_state option)" where
  "seedStart tg operator seg tr0 =
     (case overlapShortcut tg operator seg tr0 of
        Inl e \<Rightarrow> Inl e
      | Inr tr \<Rightarrow>
          (let st = tr_store tr;
               isect = sg_intersection (st_segs st seg)
           in if \<not> isValid operator st (Ref seg) True \<or>
                 (\<not> pa_validOverlapsOnly (st_paths st (fst seg)) \<and>
                  (case isect of Ref i \<Rightarrow> lo_overlap (st_locs st i) | _ \<Rightarrow> False))
              then Inr (tr, None)
              else Inr (tr, Some \<lparr> ts_store = st, ts_seg = seg, ts_inter = isect,
                                   ts_path = None, ts_start = Null, ts_otherStart = Null,
                                   ts_handleIn = tr_handleIn tr, ts_finished = False \<rparr>)))"

text \<open>The body of the outer loop (lines 1684-1815) for one segment of the array.\<close>

definition traceSeed ::
  "trace_geometry \<Rightarrow> operator option \<Rightarrow> nat \<Rightarrow> seg_ref \<Rightarrow> tracer \<Rightarrow> js_error + tracer" where
  "traceSeed tg operator fuel seg tr0 =
     (case seedStart tg operator seg tr0 of
        Inl e \<Rightarrow> Inl e
      | Inr (tr, None) \<Rightarrow> Inr tr
      | Inr (tr, Some t0) \<Rightarrow>
          (case traceLoop operator fuel t0 of
             Inl e \<Rightarrow> Inl e
           | Inr t \<Rightarrow>
               finishTrace tg t (tr\<lparr> tr_store := ts_store t, tr_handleIn := ts_handleIn t \<rparr>)))"

fun traceAll ::
  "trace_geometry \<Rightarrow> operator option \<Rightarrow> nat \<Rightarrow> seg_ref list \<Rightarrow> tracer \<Rightarrow> js_error + tracer" where
  "traceAll tg operator fuel [] tr = Inr tr"
| "traceAll tg operator fuel (seg # rest) tr =
     (case traceSeed tg operator fuel seg tr of
        Inl e \<Rightarrow> Inl e
      | Inr tr' \<Rightarrow> traceAll tg operator fuel rest tr')"

text \<open>\<open>tracePaths(segments, operator)\<close>; the paths it returns are \<open>tr_paths\<close>.\<close>

definition initialTracer :: "store \<Rightarrow> tracer" where
  "initialTracer st = \<lparr> tr_store = st, tr_paths = [], tr_log = [], tr_handleIn = None \<rparr>"

definition tracePaths ::
  "trace_geometry \<Rightarrow> operator option \<Rightarrow> nat \<Rightarrow> seg_ref list \<Rightarrow> store \<Rightarrow> js_error + tracer" where
  "tracePaths tg operator fuel segments st =
     traceAll tg operator fuel segments (initialTracer st)"

text \<open>
  The record of a run: for every segment of the array at which the inner loop ran, the
  state in which the loop ended, in the order of the run.
\<close>

definition seedEnd ::
  "trace_geometry \<Rightarrow> operator option \<Rightarrow> nat \<Rightarrow> seg_ref \<Rightarrow> tracer \<Rightarrow> trace_state option" where
  "seedEnd tg operator fuel seg tr =
     (case seedStart tg operator seg tr of
        Inr (tr1, Some t0) \<Rightarrow>
          (case traceLoop operator fuel t0 of Inr t \<Rightarrow> Some t | Inl e \<Rightarrow> None)
      | _ \<Rightarrow> None)"

fun loopEnds ::
  "trace_geometry \<Rightarrow> operator option \<Rightarrow> nat \<Rightarrow> seg_ref list \<Rightarrow> tracer \<Rightarrow> trace_state list" where
  "loopEnds tg operator fuel [] tr = []"
| "loopEnds tg operator fuel (seg # rest) tr =
     (case seedEnd tg operator fuel seg tr of None \<Rightarrow> [] | Some t \<Rightarrow> [t]) @
     (case traceSeed tg operator fuel seg tr of
        Inl e \<Rightarrow> []
      | Inr tr' \<Rightarrow> loopEnds tg operator fuel rest tr')"

definition runEnds ::
  "trace_geometry \<Rightarrow> operator option \<Rightarrow> nat \<Rightarrow> seg_ref list \<Rightarrow> store \<Rightarrow> trace_state list" where
  "runEnds tg operator fuel segments st = loopEnds tg operator fuel segments (initialTracer st)"

text \<open>
  The path a finished loop closes (lines 1783-1787), and the area \<open>path.getArea(true)\<close>
  of the partial path an unfinished loop leaves (line 1795).
\<close>

definition closedPath :: "trace_state \<Rightarrow> traced_path option" where
  "closedPath t =
     (if ts_finished t then
        (case ts_path t of
           None \<Rightarrow> None
         | Some segs \<Rightarrow>
             Some \<lparr> tp_segments = setFirstHandleIn (ts_handleIn t) segs, tp_closed = True \<rparr>)
      else None)"

definition unfinishedArea :: "trace_geometry \<Rightarrow> trace_state \<Rightarrow> real option" where
  "unfinishedArea tg t =
     (if ts_finished t then None
      else (case ts_path t of
              None \<Rightarrow> None
            | Some segs \<Rightarrow> Some (tg_areaClosed tg \<lparr> tp_segments = segs, tp_closed = False \<rparr>)))"

text \<open>
  The claim's words for the console: a partial path whose area is below
  \<open>GEOMETRIC_EPSILON\<close> in magnitude leaves no message, a larger one leaves one error.
\<close>

fun openPathErrors :: "trace_geometry \<Rightarrow> trace_state list \<Rightarrow> log_entry list" where
  "openPathErrors tg [] = []"
| "openPathErrors tg (t # ts) =
     (case unfinishedArea tg t of
        None \<Rightarrow> []
      | Some area \<Rightarrow> if GEOMETRIC_EPSILON \<le> \<bar>area\<bar> then [OpenPathError] else []) @
     openPathErrors tg ts"

text \<open>
  The rounds of the inner loop: the states in which the loop body begins, from the
  state the loop starts in, in order. The tests are those of \<open>traceLoop\<close>.
\<close>

fun loopRounds :: "operator option \<Rightarrow> nat \<Rightarrow> trace_state \<Rightarrow> trace_state list" where
  "loopRounds operator 0 t = []"
| "loopRounds operator (Suc fuel) t =
     t # (case switchSegment operator t of
            Inl e \<Rightarrow> []
          | Inr (t1, other) \<Rightarrow>
              if ts_finished t1 \<or> sg_visited (st_segs (ts_store t1) (ts_seg t1)) then []
              else if pa_validOverlapsOnly (st_paths (ts_store t1) (fst (ts_seg t1))) \<and>
                      \<not> isValid operator (ts_store t1) (Ref (ts_seg t1)) False
              then []
              else loopRounds operator fuel (addSegment t1 other))"

text \<open>The rounds of the loop that starts at a segment of the array, if it starts.\<close>

definition seedRounds ::
  "trace_geometry \<Rightarrow> operator option \<Rightarrow> nat \<Rightarrow> seg_ref \<Rightarrow> tracer \<Rightarrow> trace_state list" where
  "seedRounds tg operator fuel seg tr =
     (case seedStart tg operator seg tr of
        Inr (tr1, Some t0) \<Rightarrow> loopRounds operator fuel t0
      | _ \<Rightarrow> [])"

text \<open>What the choice of the branch comes to: the segment the loop goes on with,
  \<open>other\<close>, and \<open>finished\<close>.\<close>

definition switchOutcome ::
  "operator option \<Rightarrow> trace_state \<Rightarrow> js_error + (seg_ref \<times> seg_ref jsref \<times> bool)" where
  "switchOutcome operator t =
     (case switchSegment operator t of
        Inl e \<Rightarrow> Inl e
      | Inr (t', other) \<Rightarrow> Inr (ts_seg t', other, ts_finished t'))"

text \<open>
  Two stores with the same paths, intersections and segments, up to the \<open>_visited\<close>
  marks: tracing writes nothing else.
\<close>

definition sameGeometry :: "store \<Rightarrow> store \<Rightarrow> bool" where
  "sameGeometry st st' =
     (st_paths st' = st_paths st \<and> st_locs st' = st_locs st \<and>
      (\<forall>s. sg_point (st_segs st' s) = sg_point (st_segs st s) \<and>
           sg_handleIn (st_segs st' s) = sg_handleIn (st_segs st s) \<and>
           sg_handleOut (st_segs st' s) = sg_handleOut (st_segs st s) \<and>
           sg_intersection (st_segs st' s) = sg_intersection (st_segs st s) \<and>
           sg_winding (st_segs st' s) = sg_winding (st_segs st s) \<and>
           sg_contour (st_segs st' s) = sg_contour (st_segs st s)))"

text \<open>
  What the trace loop lets into the result: a closed path that has more than 8 segments
  or an area that is not zero.
\<close>

definition emittedOk :: "trace_geometry \<Rightarrow> traced_path \<Rightarrow> bool" where
  "emittedOk tg path =
     (tp_closed path \<and>
      (8 < length (tp_segments path) \<or> \<not> tg_isZero tg (tg_area tg path)))"

text \<open>
  What the shortcut for fully overlapping paths lets into the result: the clone of a
  path of the operands that has only overlaps and an area other than 0.
\<close>

definition overlapClone :: "trace_geometry \<Rightarrow> store \<Rightarrow> traced_path \<Rightarrow> bool" where
  "overlapClone tg st path =
     (\<exists>i. path = clonePath st i \<and> pa_overlapsOnly (st_paths st i) \<and> tg_area tg path \<noteq> 0)"

text \<open>Views of a result of \<open>tracePaths\<close>: the points of each returned path with its
  \<open>_closed\<close> flag, and the magnitude of its area.\<close>

definition tracedPoints :: "js_error + tracer \<Rightarrow> (point list \<times> bool) list" where
  "tracedPoints r =
     (case r of
        Inr tr \<Rightarrow> map (\<lambda>p. (map os_point (tp_segments p), tp_closed p)) (tr_paths tr)
      | Inl e \<Rightarrow> [])"

definition tracedAreas :: "trace_geometry \<Rightarrow> js_error + tracer \<Rightarrow> (bool \<times> real) list" where
  "tracedAreas tg r =
     (case r of
        Inr tr \<Rightarrow> map (\<lambda>p. (tp_closed p, \<bar>tg_area tg p\<bar>)) (tr_paths tr)
      | Inl e \<Rightarrow> [])"

text \<open>
  Example geometry for paths whose segments have no handles: the area of a path is the
  area of the polygon through its points (the sign tells the orientation), and a number
  counts as zero within 1/10^12 (the tolerance of \<open>Numerical.isZero\<close>).
\<close>

fun crossSum :: "point \<Rightarrow> point list \<Rightarrow> real" where
  "crossSum first [] = 0"
| "crossSum first [p] = fst p * snd first - fst first * snd p"
| "crossSum first (p # q # rest) =
     (fst p * snd q - fst q * snd p) + crossSum first (q # rest)"

definition polygonArea :: "point list \<Rightarrow> real" where
  "polygonArea pts = (case pts of [] \<Rightarrow> 0 | p # rest \<Rightarrow> crossSum p pts / 2)"

definition polygonGeometry :: trace_geometry where
  "polygonGeometry =
     \<lparr> tg_area = (\<lambda>path. polygonArea (map os_point (tp_segments path))),
       tg_areaClosed = (\<lambda>path. polygonArea (map os_point (tp_segments path))),
       tg_isZero = (\<lambda>v. - (1 / 10 ^ 12) \<le> v \<and> v \<le> 1 / 10 ^ 12) \<rparr>"

text \<open>
  Example data: \<open>exclude\<close> of the squares (0,0)-(100,100) and (50,50)-(150,150), as
  \<open>computeBoolean\<close> hands them to \<open>tracePaths\<close>. The second square is reversed, both
  are divided at the crossings (100,50) and (50,100), and every segment has winding 1.
  Path 0 is the first square, path 1 the second. The segment at a crossing refers to
  the location on the other path: locations 0 and 2 lie on path 1, locations 1 and 3
  on path 0.
\<close>

definition squaresStore :: store where
  "squaresStore =
     \<lparr> st_paths = (\<lambda>p. \<lparr> pa_count = 6, pa_closed = True, pa_parent = None,
                         pa_overlapsOnly = False, pa_validOverlapsOnly = False \<rparr>),
       st_segs = (\<lambda>s.
          \<lparr> sg_point =
              (if fst s = 0
               then [(0, 0), (100, 0), (100, 50), (100, 100), (50, 100), (0, 100)] ! snd s
               else [(50, 150), (150, 150), (150, 50), (100, 50), (50, 50), (50, 100)] ! snd s),
            sg_handleIn = (0, 0), sg_handleOut = (0, 0),
            sg_intersection =
              (if s = (0, 2) then Ref 0 else if s = (1, 3) then Ref 1
               else if s = (0, 4) then Ref 2 else if s = (1, 5) then Ref 3
               else Undefined),
            sg_winding = Some 1, sg_contour = True, sg_visited = False \<rparr>),
       st_locs = (\<lambda>i. \<lparr> lo_segment = [(1, 3), (0, 2), (1, 5), (0, 4)] ! i,
                        lo_overlap = False, lo_nexts = [] \<rparr>) \<rparr>"

definition squaresSegments :: "seg_ref list" where
  "squaresSegments = map (Pair 0) [0 ..< 6] @ map (Pair 1) [0 ..< 6]"

text \<open>The store after the first path has been traced from the first segment.\<close>

definition squaresAfterFirst :: store where
  "squaresAfterFirst =
     (case traceSeed polygonGeometry (Some (operators Exclude)) 20 (0, 0)
             (initialTracer squaresStore) of
        Inr tr \<Rightarrow> tr_store tr
      | Inl e \<Rightarrow> squaresStore)"

text \<open>
  Example data: one closed path of ten segments without handles around the rectangle
  from (0,0) to (4, 1/10^8), with no intersections, traced without an operator as
  \<open>resolveCrossings\<close> does.
\<close>

definition thinStore :: store where
  "thinStore =
     \<lparr> st_paths = (\<lambda>p. \<lparr> pa_count = 10, pa_closed = True, pa_parent = None,
                         pa_overlapsOnly = False, pa_validOverlapsOnly = False \<rparr>),
       st_segs = (\<lambda>s.
          \<lparr> sg_point = [(0, 0), (1, 0), (2, 0), (3, 0), (4, 0), (4, 1 / 10 ^ 8),
                         (3, 1 / 10 ^ 8), (2, 1 / 10 ^ 8), (1, 1 / 10 ^ 8), (0, 1 / 10 ^ 8)] ! snd s,
            sg_handleIn = (0, 0), sg_handleOut = (0, 0),
            sg_intersection = Undefined,
            sg_winding = None, sg_contour = False, sg_visited = False \<rparr>),
       st_locs = (\<lambda>i. \<lparr> lo_segment = (0, 0), lo_overlap = False, lo_nexts = [] \<rparr>) \<rparr>"

text \<open>
  Example data: the two squares once more, divided at the same crossings, but with
  winding 2 on every segment of the second square, so that no segment of the second
  square is part of the result of \<open>exclude\<close>.
\<close>

definition coveredStore :: store where
  "coveredStore =
     squaresStore\<lparr> st_segs := (\<lambda>s. if fst s = 0 then st_segs squaresStore s
                                    else (st_segs squaresStore s)\<lparr> sg_winding := Some 2 \<rparr>) \<rparr>"

text \<open>
  Example data for a trace that is given up. Path 0 has four segments; the first three
  lie on overlaps with path 1 and have winding 1, the fourth is on no overlap and has
  winding 0. Path 1 has three segments of winding 2, all on the overlaps. So path 0 has
  \<open>_validOverlapsOnly\<close> set and \<open>_overlapsOnly\<close> not, and path 1 has both set, as
  lines 1200 and 1225-1234 leave them. The first three points of path 0 are (0,0),
  (\<open>s\<close>,0) and (0,\<open>s\<close>): the triangle through them has the area \<open>s * s / 2\<close>.
\<close>

definition bailStore :: "real \<Rightarrow> store" where
  "bailStore s =
     \<lparr> st_paths = (\<lambda>p. \<lparr> pa_count = (if p = 0 then 4 else 3), pa_closed = True,
                         pa_parent = None, pa_overlapsOnly = (p \<noteq> 0),
                         pa_validOverlapsOnly = True \<rparr>),
       st_segs = (\<lambda>seg.
          \<lparr> sg_point = [(0, 0), (s, 0), (0, s), (- s, s)] ! snd seg,
            sg_handleIn = (0, 0), sg_handleOut = (0, 0),
            sg_intersection =
              (if snd seg < 3 then Ref (if fst seg = 0 then snd seg else 3 + snd seg)
               else Undefined),
            sg_winding = (if fst seg = 0 then (if snd seg < 3 then Some 1 else Some 0)
                          else Some 2),
            sg_contour = False, sg_visited = False \<rparr>),
       st_locs = (\<lambda>i. \<lparr> lo_segment = (if i < 3 then (1, i) else (0, i - 3)),
                        lo_overlap = True, lo_nexts = [] \<rparr>) \<rparr>"

definition bailSegments :: "seg_ref list" where
  "bailSegments = map (Pair 0) [0 ..< 4] @ map (Pair 1) [0 ..< 3]"
text \<open>
  The operands as the tracer walks them: a list of segments that holds, with each
  segment, the first segment of its path and the segment \<open>getNext()\<close> yields, and a
  list of intersections that holds the \<open>_intersection\<close> of each of these segments and
  the chain \<open>_next\<close> of each of its members, whose \<open>_segment\<close> are among the segments.
\<close>

definition linked :: "seg_ref list \<Rightarrow> nat list \<Rightarrow> store \<Rightarrow> bool" where
  "linked segs locs st =
     ((\<forall>s \<in> set segs.
         (fst s, 0) \<in> set segs \<and>
         (case getNext st s of Ref n \<Rightarrow> n \<in> set segs | _ \<Rightarrow> True) \<and>
         (case sg_intersection (st_segs st s) of Ref i \<Rightarrow> i \<in> set locs | _ \<Rightarrow> True)) \<and>
      (\<forall>i \<in> set locs.
         lo_segment (st_locs st i) \<in> set segs \<and>
         set (lo_nexts (st_locs st i)) \<subseteq> set locs))"

text \<open>The segments among them that are not marked \<open>_visited\<close>.\<close>

definition unvisited :: "seg_ref list \<Rightarrow> store \<Rightarrow> seg_ref set" where
  "unvisited segs st = {s \<in> set segs. \<not> sg_visited (st_segs st s)}"

text \<open>The inner loop is at a segment and an intersection of the operands.\<close>

definition atOperands :: "seg_ref list \<Rightarrow> nat list \<Rightarrow> trace_state \<Rightarrow> bool" where
  "atOperands segs locs t =
     (ts_seg t \<in> set segs \<and> (case ts_inter t of Ref i \<Rightarrow> i \<in> set locs | _ \<Rightarrow> True))"
section \<open>The older tracer (PathItem.Boolean.js, lines 558-779)\<close>






section \<open>Orientation of the traced paths (PathItem.Boolean.js, lines 1976-2036)\<close>

text \<open>
  What \<open>resolveCrossings\<close> reads of a path when it fixes the orientations: its
  identity, whether it is clockwise, and the area of its bounding box.
  \<open>paths[j].contains(paths[i].getInteriorPoint())\<close> is geometry outside these sources;
  it is the parameter \<open>cont\<close>, asked with the identities of the container and of the
  path whose interior point is tested. \<open>setClockwise\<close> is modelled by writing the flag.

  The older fixer \<open>CompoundPath#reorient\<close> (lines 1079-1098) hands its children to
  \<open>removeChildren\<close> and \<open>addChildren\<close>, which are outside these sources and may set
  orientations themselves; it is not modelled.
\<close>

record orient_path =
  or_id :: nat
  or_clockwise :: bool
  or_boundsArea :: real

datatype fill_rule = NonZero | EvenOdd

text \<open>The variables of the inner loop (lines 1996-2023).\<close>

record scan_state =
  sc_windings :: "int list"
  sc_excluded :: "nat list"
  sc_isContained :: bool
  sc_container :: "nat option"
  sc_exclude :: bool

text \<open>
  The inner loop over \<open>j = i - 1, ..., 0\<close>, which runs while no container is set.
  \<open>windings\<close> is only read and written under \<open>isNonZero\<close>. The \<open>break\<close> at line 2015
  leaves the loop with \<open>exclude\<close> set.
\<close>

fun scanContainers ::
  "(nat \<Rightarrow> nat \<Rightarrow> bool) \<Rightarrow> bool \<Rightarrow> orient_path list \<Rightarrow> nat \<Rightarrow> nat list \<Rightarrow>
   scan_state \<Rightarrow> scan_state" where
  "scanContainers cont isNonZero paths i [] s = s"
| "scanContainers cont isNonZero paths i (j # js) s =
     (if sc_container s \<noteq> None then s
      else if cont (or_id (paths ! j)) (or_id (paths ! i)) then
        (let w = (if isNonZero \<and> \<not> sc_isContained s
                  then (sc_windings s)[i := sc_windings s ! i + sc_windings s ! j]
                  else sc_windings s)
         in if isNonZero \<and> \<not> sc_isContained s \<and> w ! i \<noteq> 0 \<and> w ! j \<noteq> 0
            then s\<lparr> sc_windings := w, sc_exclude := True, sc_excluded := i # sc_excluded s \<rparr>
            else scanContainers cont isNonZero paths i js
                   (s\<lparr> sc_windings := w, sc_isContained := True,
                       sc_container := (if j \<in> set (sc_excluded s) then None else Some j) \<rparr>))
      else scanContainers cont isNonZero paths i js s)"

text \<open>The variables of the outer loop: the path array, whose entries \<open>setClockwise\<close>
  changes in place, \<open>windings\<close>, \<open>excluded\<close> and \<open>items\<close> (as indices into the array).\<close>

record fix_state =
  fx_paths :: "orient_path list"
  fx_windings :: "int list"
  fx_excluded :: "nat list"
  fx_items :: "nat list"

text \<open>The outer loop (lines 1993-2032) over the indices \<open>i = 1, ..., length - 1\<close>.\<close>

fun fixLoop ::
  "(nat \<Rightarrow> nat \<Rightarrow> bool) \<Rightarrow> bool \<Rightarrow> nat list \<Rightarrow> fix_state \<Rightarrow> fix_state" where
  "fixLoop cont isNonZero [] st = st"
| "fixLoop cont isNonZero (i # rest) st =
     (let s = scanContainers cont isNonZero (fx_paths st) i (rev [0..<i])
                \<lparr> sc_windings = fx_windings st, sc_excluded = fx_excluded st,
                  sc_isContained = False, sc_container = None, sc_exclude = False \<rparr>;
          st1 = st\<lparr> fx_windings := sc_windings s, fx_excluded := sc_excluded s \<rparr>
      in fixLoop cont isNonZero rest
           (if sc_exclude s then st1
            else st1\<lparr> fx_paths := (fx_paths st)
                         [i := (fx_paths st ! i)
                            \<lparr> or_clockwise :=
                                (case sc_container s of
                                   Some j \<Rightarrow> \<not> or_clockwise (fx_paths st ! j)
                                 | None \<Rightarrow> or_clockwise (fx_paths st ! 0)) \<rparr>],
                      fx_items := fx_items st @ [i] \<rparr>))"

text \<open>
  Lines 1981-1983: the comparator \<open>b.getBounds().getArea() - a.getBounds().getArea()\<close>
  orders by bounding-box area, largest first; paths of equal area keep their order.
\<close>

definition sortByBoundsArea :: "orient_path list \<Rightarrow> orient_path list" where
  "sortByBoundsArea paths = sort_key (\<lambda>p. - or_boundsArea p) paths"

text \<open>
  Lines 1976-2036 of \<open>resolveCrossings\<close>, which have no name of their own in the
  source: the paths that remain, reoriented, in their new order.
\<close>

definition reorientPaths ::
  "(nat \<Rightarrow> nat \<Rightarrow> bool) \<Rightarrow> fill_rule \<Rightarrow> orient_path list \<Rightarrow> orient_path list" where
  "reorientPaths cont rule paths0 =
     (if length paths0 > 1 then
        (let paths = sortByBoundsArea paths0;
             isNonZero = (rule = NonZero);
             windings = (if isNonZero
                         then map (\<lambda>p. if or_clockwise p then 1 else - 1) paths
                         else []);
             st = fixLoop cont isNonZero [1..<length paths]
                    \<lparr> fx_paths = paths, fx_windings = windings, fx_excluded = [],
                      fx_items = [0] \<rparr>
         in map (\<lambda>i. fx_paths st ! i) (fx_items st))
      else paths0)"

text \<open>
  The index of the nearest larger path that contains the interior point of path \<open>i\<close>:
  the first hit of the inner loop.
\<close>

definition nearestContainer ::
  "(nat \<Rightarrow> nat \<Rightarrow> bool) \<Rightarrow> orient_path list \<Rightarrow> nat \<Rightarrow> nat option" where
  "nearestContainer cont paths i =
     find (\<lambda>j. cont (or_id (paths ! j)) (or_id (paths ! i))) (rev [0..<i])"

text \<open>The claim's count: how many larger paths contain the interior point of path \<open>i\<close>.\<close>

definition containerCount ::
  "(nat \<Rightarrow> nat \<Rightarrow> bool) \<Rightarrow> orient_path list \<Rightarrow> nat \<Rightarrow> nat" where
  "containerCount cont paths i =
     length (filter (\<lambda>j. cont (or_id (paths ! j)) (or_id (paths ! i))) [0..<i])"

text \<open>
  Example data: three paths without crossings. Path 0 is a band that runs around three
  sides of a square and touches the fourth; path 1 is that square, so both have the same
  bounding box; path 2 is a small path inside the band. The interior point of path 2
  lies in the band and in the square; the interior point of the square (the centre of
  its bounding box) does not lie in the band.
\<close>

definition bandPaths :: "orient_path list" where
  "bandPaths =
     [\<lparr> or_id = 0, or_clockwise = True, or_boundsArea = 100 \<rparr>,
      \<lparr> or_id = 1, or_clockwise = False, or_boundsArea = 100 \<rparr>,
      \<lparr> or_id = 2, or_clockwise = True, or_boundsArea = 1 \<rparr>]"

definition bandContains :: "nat \<Rightarrow> nat \<Rightarrow> bool" where
  "bandContains j i = ((j = 0 \<or> j = 1) \<and> i = 2)"

section \<open>Interior point (PathItem.Boolean.js, lines 2072-2125)\<close>

text \<open>
  The abscissa of the returned point is a number or, when the code adds \<open>undefined\<close>
  to a number, \<open>NaN\<close>.
\<close>

datatype jsnum = Num real | NaN

text \<open>
  Lines 2087-2103: the monotone pieces of all curves whose ordinate range holds \<open>y\<close>
  and that are not level, each with its winding (1 falling, -1 rising in array order).
\<close>

definition monoWinding :: "real list \<Rightarrow> int" where
  "monoWinding v = (if v ! 1 > v ! 7 then 1 else if v ! 1 < v ! 7 then - 1 else 0)"

definition rayMonos :: "curve_geometry \<Rightarrow> real \<Rightarrow> real list \<Rightarrow> (real list \<times> int) list" where
  "rayMonos g y v =
     (if (v ! 1 \<le> y \<or> v ! 3 \<le> y \<or> v ! 5 \<le> y \<or> v ! 7 \<le> y) \<and>
         (v ! 1 \<ge> y \<or> v ! 3 \<ge> y \<or> v ! 5 \<ge> y \<or> v ! 7 \<ge> y)
      then map (\<lambda>m. (m, monoWinding m))
             (filter (\<lambda>m. ((y \<ge> m ! 1 \<and> y \<le> m ! 7) \<or> (y \<ge> m ! 7 \<and> y \<le> m ! 1)) \<and>
                           monoWinding m \<noteq> 0)
                (cg_monoCurves g v 0))
      else [])"

text \<open>Lines 2108-2114: the abscissa where a monotone piece meets the ray.\<close>

definition intercept :: "curve_geometry \<Rightarrow> real \<Rightarrow> real list \<Rightarrow> real" where
  "intercept g y v =
     (if y = v ! 1 then v ! 0
      else if y = v ! 7 then v ! 6
      else (case cg_solve g v 1 y of
              [t] \<Rightarrow> fst (cg_point g v t)
            | _ \<Rightarrow> (v ! 0 + v ! 6) / 2))"

text \<open>
  \<open>(intercepts[0] + intercepts[1]) / 2\<close>: an index past the end of the array reads
  \<open>undefined\<close>, and the sum is \<open>NaN\<close> then.
\<close>

fun firstTwoMidpoint :: "real list \<Rightarrow> jsnum" where
  "firstTwoMidpoint (a # b # rest) = Num ((a + b) / 2)"
| "firstTwoMidpoint _ = NaN"

text \<open>
  \<open>getInteriorPoint\<close>. \<open>center\<close> is \<open>getBounds().getCenter(true)\<close>, \<open>isInside\<close> is
  the outcome of \<open>this.contains(point)\<close> and \<open>curves\<close> are the values of
  \<open>this.getCurves()\<close>; \<open>Item#getBounds\<close> and \<open>Item#contains\<close> are not part of these
  sources. \<open>intercepts.sort\<close> with the comparator \<open>a - b\<close> sorts ascending.
\<close>

definition getInteriorPoint ::
  "curve_geometry \<Rightarrow> point \<Rightarrow> bool \<Rightarrow> real list list \<Rightarrow> jsnum \<times> real" where
  "getInteriorPoint g center isInside curves =
     (let y = snd center
      in if isInside then (Num (fst center), y)
         else
           (let monoCurves = concat (map (rayMonos g y) curves)
            in if monoCurves = [] then (Num (fst center), y)
               else
                 (let intercepts = sort (map (\<lambda>(v, winding). intercept g y v) monoCurves)
                  in (firstTwoMidpoint intercepts, y))))"

text \<open>The intercepts the ray finds, in ascending order.\<close>

definition rayIntercepts :: "curve_geometry \<Rightarrow> point \<Rightarrow> real list list \<Rightarrow> real list" where
  "rayIntercepts g center curves =
     sort (map (\<lambda>(v, winding). intercept g (snd center) v)
            (concat (map (rayMonos g (snd center)) curves)))"
section \<open>The older interior point (PathItem.Boolean.js, lines 1018-1045)\<close>

text \<open>
  The file also holds the earlier \<open>getInteriorPoint\<close>. It walks the monotone curves of
  \<open>_getMonoCurves()\<close>, each with its \<open>winding\<close> (1 rising, -1 falling, 0 level), and
  stops as soon as it has more than one intercept. \<open>Curve.solveCubic\<close> writes the roots
  it finds to the front of the array \<open>roots\<close>, which all calls share and which keeps
  what lies behind them; the loop over \<open>j\<close> runs down the whole array.
\<close>

fun xInterceptsLoop ::
  "curve_geometry \<Rightarrow> real \<Rightarrow> (real list \<times> int) list \<Rightarrow> real list \<Rightarrow> real list \<Rightarrow> real list" where
  "xInterceptsLoop g y [] roots xIntercepts = xIntercepts"
| "xInterceptsLoop g y ((values, winding) # rest) roots xIntercepts =
     (let hit = ((winding = 1 \<and> y \<ge> values ! 1 \<and> y \<le> values ! 7) \<or>
                 (y \<ge> values ! 7 \<and> y \<le> values ! 1));
          solved = (if hit then cg_solve g values 1 y else []);
          roots' = solved @ drop (length solved) roots;
          xIntercepts' = (if solved \<noteq> []
                          then xIntercepts @ map (\<lambda>t. fst (cg_point g values t)) (rev roots')
                          else xIntercepts)
      in if length xIntercepts' > 1 then xIntercepts'
         else xInterceptsLoop g y rest roots' xIntercepts')"

text \<open>
  \<open>isInside\<close> is the outcome of \<open>this.contains(point)\<close> and \<open>monoCurves\<close> the result
  of \<open>this._getMonoCurves()\<close>. There is no test of the number of intercepts.
\<close>

definition getInteriorPointOld ::
  "curve_geometry \<Rightarrow> point \<Rightarrow> bool \<Rightarrow> (real list \<times> int) list \<Rightarrow> jsnum \<times> real" where
  "getInteriorPointOld g center isInside monoCurves =
     (if isInside then (Num (fst center), snd center)
      else (firstTwoMidpoint (xInterceptsLoop g (snd center) monoCurves [] []), snd center))"

section \<open>Verified properties\<close>


subsection \<open>Path tracing\<close>

lemma sameGeometry_refl: "sameGeometry st st"
  by (simp add: sameGeometry_def)

lemma sameGeometry_trans:
  "sameGeometry a b \<Longrightarrow> sameGeometry b c \<Longrightarrow> sameGeometry a c"
  by (simp add: sameGeometry_def)

lemma sameGeometry_visit: "sameGeometry st (visit s st)"
  by (simp add: sameGeometry_def visit_def)

lemma sameGeometry_clonePath: "sameGeometry st st' \<Longrightarrow> clonePath st' i = clonePath st i"
  by (simp add: sameGeometry_def clonePath_def)

lemma switchSegment_sameGeometry:
  "switchSegment operator t = Inr (t', other) \<Longrightarrow> sameGeometry (ts_store t) (ts_store t')"
  by (auto simp: switchSegment_def Let_def sameGeometry_refl sameGeometry_visit
           split: sum.splits jsref.splits if_splits option.splits)

lemma addSegment_sameGeometry:
  "sameGeometry (ts_store t) (ts_store (addSegment t other))"
  by (simp add: addSegment_def Let_def sameGeometry_visit)

lemma traceLoop_sameGeometry:
  "traceLoop operator fuel t = Inr t' \<Longrightarrow> sameGeometry (ts_store t) (ts_store t')"
proof (induction fuel arbitrary: t)
  case 0
  then show ?case by simp
next
  case (Suc fuel)
  from Suc.prems obtain t1 other where sw: "switchSegment operator t = Inr (t1, other)"
    by (auto split: sum.splits)
  note g1 = switchSegment_sameGeometry [OF sw]
  consider
    (stop) "ts_finished t1 \<or> sg_visited (st_segs (ts_store t1) (ts_seg t1))"
  | (bail) "\<not> (ts_finished t1 \<or> sg_visited (st_segs (ts_store t1) (ts_seg t1)))"
      "pa_validOverlapsOnly (st_paths (ts_store t1) (fst (ts_seg t1))) \<and>
       \<not> isValid operator (ts_store t1) (Ref (ts_seg t1)) False"
  | (go) "\<not> (ts_finished t1 \<or> sg_visited (st_segs (ts_store t1) (ts_seg t1)))"
      "\<not> (pa_validOverlapsOnly (st_paths (ts_store t1) (fst (ts_seg t1))) \<and>
          \<not> isValid operator (ts_store t1) (Ref (ts_seg t1)) False)"
    by blast
  then show ?case
  proof cases
    case stop
    with Suc.prems sw have "t' = t1\<lparr> ts_store := visit (ts_seg t1) (ts_store t1) \<rparr>" by auto
    then have "sameGeometry (ts_store t1) (ts_store t')" by (simp add: sameGeometry_visit)
    with g1 show ?thesis by (rule sameGeometry_trans)
  next
    case bail
    with Suc.prems sw have "t' = t1" by auto
    with g1 show ?thesis by simp
  next
    case go
    with Suc.prems sw have "traceLoop operator fuel (addSegment t1 other) = Inr t'" by auto
    from Suc.IH [OF this] have "sameGeometry (ts_store (addSegment t1 other)) (ts_store t')" .
    with addSegment_sameGeometry [of t1 other]
    have "sameGeometry (ts_store t1) (ts_store t')" by (rule sameGeometry_trans)
    with g1 show ?thesis by (rule sameGeometry_trans)
  qed
qed

lemma fold_visit_sameGeometry:
  "sameGeometry st (fold (\<lambda>j s. visit (p2, j) (visit (p1, j) s)) js st)"
proof (induction js arbitrary: st)
  case Nil
  then show ?case by (simp add: sameGeometry_refl)
next
  case (Cons j js)
  have "sameGeometry st (visit (p2, j) (visit (p1, j) st))"
    using sameGeometry_visit sameGeometry_trans by blast
  with Cons [of "visit (p2, j) (visit (p1, j) st)"] show ?case
    using sameGeometry_trans by auto
qed

lemma overlapShortcut_result:
  "overlapShortcut tg operator seg tr = Inr tr' \<Longrightarrow>
   sameGeometry (tr_store tr) (tr_store tr') \<and> tr_log tr' = tr_log tr \<and>
   (\<forall>p \<in> set (tr_paths tr'). p \<in> set (tr_paths tr) \<or> overlapClone tg (tr_store tr) p)"
  by (auto simp: overlapShortcut_def Let_def sameGeometry_refl fold_visit_sameGeometry
        overlapClone_def
      split: if_splits jsref.splits option.splits)

lemma emit_result:
  "tr_store (emit tg p tr) = tr_store tr \<and> tr_log (emit tg p tr) = tr_log tr \<and>
   tr_handleIn (emit tg p tr) = tr_handleIn tr \<and>
   (\<forall>q \<in> set (tr_paths (emit tg p tr)).
      q \<in> set (tr_paths tr) \<or> (q = p \<and> (8 < length (tp_segments p) \<or> \<not> tg_isZero tg (tg_area tg p))))"
  by (auto simp: emit_def)

lemma finishTrace_run:
  "finishTrace tg t tr = Inr tr' \<Longrightarrow>
   tr_store tr' = tr_store tr \<and> tr_handleIn tr' = tr_handleIn tr \<and>
   (\<forall>p \<in> set (tr_paths tr').
      p \<in> set (tr_paths tr) \<or> (emittedOk tg p \<and> closedPath t = Some p)) \<and>
   tr_log tr' = tr_log tr @ openPathErrors tg [t]"
  using emit_result [of tg "\<lparr> tp_segments = setFirstHandleIn (ts_handleIn t) (the (ts_path t)),
                            tp_closed = True \<rparr>" tr]
  by (auto simp: finishTrace_def Let_def emittedOk_def closedPath_def unfinishedArea_def
           split: if_splits option.splits)

lemma overlapClone_sameGeometry:
  "sameGeometry st st' \<Longrightarrow> overlapClone tg st' p \<Longrightarrow> overlapClone tg st p"
proof -
  assume g: "sameGeometry st st'" and "overlapClone tg st' p"
  then obtain i where i: "p = clonePath st' i" "pa_overlapsOnly (st_paths st' i)"
    "tg_area tg p \<noteq> 0"
    by (auto simp: overlapClone_def)
  from g have "clonePath st' i = clonePath st i" by (rule sameGeometry_clonePath)
  moreover from g have "st_paths st' = st_paths st" by (simp add: sameGeometry_def)
  ultimately show ?thesis using i by (auto simp: overlapClone_def)
qed

text \<open>The head of the outer loop: the shortcut, then the loop starts at the store the
  shortcut left, or the segment is passed over.\<close>

lemma seedStart_cases:
  assumes "seedStart tg operator seg tr = Inr (tr1, r)"
  shows "overlapShortcut tg operator seg tr = Inr tr1 \<and>
         (\<forall>t0. r = Some t0 \<longrightarrow> ts_store t0 = tr_store tr1)"
  using assms
  by (auto simp: seedStart_def Let_def split: sum.splits if_splits)

lemma traceSeed_cases:
  assumes "traceSeed tg operator fuel seg tr = Inr tr'"
  shows "(\<exists>tr1. seedStart tg operator seg tr = Inr (tr1, None) \<and> tr' = tr1 \<and>
               seedEnd tg operator fuel seg tr = None) \<or>
         (\<exists>tr1 t0 t. seedStart tg operator seg tr = Inr (tr1, Some t0) \<and>
               traceLoop operator fuel t0 = Inr t \<and>
               seedEnd tg operator fuel seg tr = Some t \<and>
               finishTrace tg t (tr1\<lparr> tr_store := ts_store t, tr_handleIn := ts_handleIn t \<rparr>) =
                 Inr tr')"
proof -
  from assms obtain tr1 r where st: "seedStart tg operator seg tr = Inr (tr1, r)"
    by (cases "seedStart tg operator seg tr") (auto simp: traceSeed_def)
  show ?thesis
  proof (cases r)
    case None
    with assms st show ?thesis by (simp add: traceSeed_def seedEnd_def)
  next
    case (Some t0)
    with assms st obtain t where "traceLoop operator fuel t0 = Inr t"
      by (cases "traceLoop operator fuel t0") (auto simp: traceSeed_def)
    with assms st Some show ?thesis by (simp add: traceSeed_def seedEnd_def)
  qed
qed

text \<open>
  One seed: the store keeps its geometry, every new path is a clone of the shortcut or
  the path that the loop of this seed closed, and the console gets the message of the
  loop of this seed, if any.
\<close>

lemma traceSeed_run:
  assumes "traceSeed tg operator fuel seg tr = Inr tr'"
  shows "sameGeometry (tr_store tr) (tr_store tr') \<and>
         (\<forall>p \<in> set (tr_paths tr').
            p \<in> set (tr_paths tr) \<or> overlapClone tg (tr_store tr) p \<or>
            (emittedOk tg p \<and>
             (\<exists>t. seedEnd tg operator fuel seg tr = Some t \<and> closedPath t = Some p))) \<and>
         tr_log tr' =
           tr_log tr @
           openPathErrors tg (case seedEnd tg operator fuel seg tr of
                                None \<Rightarrow> [] | Some t \<Rightarrow> [t])"
proof -
  from traceSeed_cases [OF assms] show ?thesis
  proof
    assume "\<exists>tr1. seedStart tg operator seg tr = Inr (tr1, None) \<and> tr' = tr1 \<and>
               seedEnd tg operator fuel seg tr = None"
    then obtain tr1 where st: "seedStart tg operator seg tr = Inr (tr1, None)"
      and eq: "tr' = tr1" and e: "seedEnd tg operator fuel seg tr = None" by blast
    from seedStart_cases [OF st] have "overlapShortcut tg operator seg tr = Inr tr1" by simp
    from overlapShortcut_result [OF this] eq e show ?thesis by auto
  next
    assume "\<exists>tr1 t0 t. seedStart tg operator seg tr = Inr (tr1, Some t0) \<and>
               traceLoop operator fuel t0 = Inr t \<and>
               seedEnd tg operator fuel seg tr = Some t \<and>
               finishTrace tg t (tr1\<lparr> tr_store := ts_store t, tr_handleIn := ts_handleIn t \<rparr>) =
                 Inr tr'"
    then obtain tr1 t0 t where st: "seedStart tg operator seg tr = Inr (tr1, Some t0)"
      and loop: "traceLoop operator fuel t0 = Inr t"
      and e: "seedEnd tg operator fuel seg tr = Some t"
      and fin: "finishTrace tg t (tr1\<lparr> tr_store := ts_store t, tr_handleIn := ts_handleIn t \<rparr>) =
                 Inr tr'"
      by blast
    from seedStart_cases [OF st] have sc: "overlapShortcut tg operator seg tr = Inr tr1"
      and t0: "ts_store t0 = tr_store tr1" by simp_all
    note r1 = overlapShortcut_result [OF sc]
    from traceLoop_sameGeometry [OF loop] t0
    have g2: "sameGeometry (tr_store tr1) (ts_store t)" by simp
    from finishTrace_run [OF fin]
    have s3: "tr_store tr' = ts_store t"
      and p3: "\<forall>p \<in> set (tr_paths tr').
                 p \<in> set (tr_paths tr1) \<or> (emittedOk tg p \<and> closedPath t = Some p)"
      and l3: "tr_log tr' = tr_log tr1 @ openPathErrors tg [t]"
      by simp_all
    from r1 g2 s3 have "sameGeometry (tr_store tr) (tr_store tr')"
      using sameGeometry_trans by auto
    moreover from r1 p3 e have "\<forall>p \<in> set (tr_paths tr').
        p \<in> set (tr_paths tr) \<or> overlapClone tg (tr_store tr) p \<or>
        (emittedOk tg p \<and>
         (\<exists>t. seedEnd tg operator fuel seg tr = Some t \<and> closedPath t = Some p))"
      by (metis option.inject)
    moreover from r1 l3 e have "tr_log tr' =
        tr_log tr @ openPathErrors tg (case seedEnd tg operator fuel seg tr of
                                         None \<Rightarrow> [] | Some t \<Rightarrow> [t])"
      by simp
    ultimately show ?thesis by simp
  qed
qed

lemma openPathErrors_append:
  "openPathErrors tg (xs @ ys) = openPathErrors tg xs @ openPathErrors tg ys"
  by (induction xs) simp_all

text \<open>The whole run, from any state of the outer loop.\<close>

lemma traceAll_run:
  "traceAll tg operator fuel segments tr = Inr tr' \<Longrightarrow>
   sameGeometry (tr_store tr) (tr_store tr') \<and>
   (\<forall>p \<in> set (tr_paths tr').
      p \<in> set (tr_paths tr) \<or> overlapClone tg (tr_store tr) p \<or>
      (emittedOk tg p \<and>
       (\<exists>t \<in> set (loopEnds tg operator fuel segments tr). closedPath t = Some p))) \<and>
   tr_log tr' = tr_log tr @ openPathErrors tg (loopEnds tg operator fuel segments tr)"
proof (induction segments arbitrary: tr)
  case Nil
  then show ?case by (simp add: sameGeometry_refl)
next
  case (Cons seg rest)
  from Cons.prems obtain tr1 where
    seed: "traceSeed tg operator fuel seg tr = Inr tr1" and
    more: "traceAll tg operator fuel rest tr1 = Inr tr'"
    by (auto split: sum.splits)
  note a = traceSeed_run [OF seed]
  note b = Cons.IH [OF more]
  define here where "here = (case seedEnd tg operator fuel seg tr of
                               None \<Rightarrow> [] | Some t \<Rightarrow> [t])"
  have ends: "loopEnds tg operator fuel (seg # rest) tr =
                here @ loopEnds tg operator fuel rest tr1"
    using seed by (simp add: here_def)
  from a b have g: "sameGeometry (tr_store tr) (tr_store tr')"
    using sameGeometry_trans by blast
  have paths: "\<forall>p \<in> set (tr_paths tr').
      p \<in> set (tr_paths tr) \<or> overlapClone tg (tr_store tr) p \<or>
      (emittedOk tg p \<and>
       (\<exists>t \<in> set (here @ loopEnds tg operator fuel rest tr1). closedPath t = Some p))"
  proof
    fix p assume "p \<in> set (tr_paths tr')"
    with b consider
        (old) "p \<in> set (tr_paths tr1)"
      | (clone) "overlapClone tg (tr_store tr1) p"
      | (loop) "emittedOk tg p"
          "\<exists>t \<in> set (loopEnds tg operator fuel rest tr1). closedPath t = Some p"
      by blast
    then show "p \<in> set (tr_paths tr) \<or> overlapClone tg (tr_store tr) p \<or>
      (emittedOk tg p \<and>
       (\<exists>t \<in> set (here @ loopEnds tg operator fuel rest tr1). closedPath t = Some p))"
    proof cases
      case old
      with a consider "p \<in> set (tr_paths tr)" | "overlapClone tg (tr_store tr) p"
        | "emittedOk tg p"
          "\<exists>t. seedEnd tg operator fuel seg tr = Some t \<and> closedPath t = Some p"
        by blast
      then show ?thesis
      proof cases
        case 3
        then obtain t where "seedEnd tg operator fuel seg tr = Some t" "closedPath t = Some p"
          by blast
        then have "\<exists>t \<in> set here. closedPath t = Some p" by (simp add: here_def)
        with 3(1) show ?thesis by auto
      qed simp_all
    next
      case clone
      with a overlapClone_sameGeometry [of "tr_store tr" "tr_store tr1" tg p]
      show ?thesis by blast
    next
      case loop
      then show ?thesis by auto
    qed
  qed
  from a b have "tr_log tr' =
      tr_log tr @ openPathErrors tg here @
      openPathErrors tg (loopEnds tg operator fuel rest tr1)"
    by (simp add: here_def)
  with g paths show ?case
    unfolding ends by (simp add: openPathErrors_append)
qed

text \<open>
  Claim C3, as the code has it. In every run of \<open>tracePaths\<close> that returns, every
  path in the result is the clone that the shortcut for fully overlapping paths takes of
  a path of the operands whose area is not 0, or a path that a finished trace loop of
  the run closed and that has more than 8 segments or an area that \<open>Numerical.isZero\<close>
  does not take for zero. The partial path of a loop that did not finish is never in
  the result. The console holds one error for every unfinished loop of the run whose
  partial path has an area of magnitude \<open>GEOMETRIC_EPSILON\<close> or more, in the order of
  the run, and nothing else: a smaller partial path is dropped without a message.
\<close>

theorem tracePaths_emitted:
  "tracePaths tg operator fuel segments st = Inr tr \<Longrightarrow>
   (\<forall>p \<in> set (tr_paths tr).
      overlapClone tg st p \<or>
      (emittedOk tg p \<and>
       (\<exists>t \<in> set (runEnds tg operator fuel segments st). closedPath t = Some p))) \<and>
   tr_log tr = openPathErrors tg (runEnds tg operator fuel segments st)"
proof -
  assume "tracePaths tg operator fuel segments st = Inr tr"
  from traceAll_run [OF this [unfolded tracePaths_def]]
  show ?thesis by (simp add: initialTracer_def runEnds_def)
qed

text \<open>A loop that ends is finished or not; only a finished one has a closed path, and
  that path is marked closed.\<close>

lemma closedPath_finished:
  "closedPath t = Some p \<Longrightarrow> ts_finished t \<and> tp_closed p \<and> unfinishedArea tg t = None"
  by (auto simp: closedPath_def unfinishedArea_def split: if_splits option.splits)






text \<open>
  \<open>exclude\<close> of the two squares: the trace from the first segment of the first square
  switches at both crossings and returns the first L-shape; the second path starts at
  the crossing (100,50) on the first square and is the second L-shape. Both loops
  finish, and nothing is written to the console.
\<close>

lemma squares_exclude_run:
  "tracedPoints (tracePaths polygonGeometry (Some (operators Exclude)) 20 squaresSegments
                   squaresStore) =
     [([(0, 0), (100, 0), (100, 50), (50, 50), (50, 100), (0, 100)], True),
      ([(100, 50), (100, 100), (50, 100), (50, 150), (150, 150), (150, 50)], True)]"
  "map (\<lambda>s. sg_visited (st_segs squaresAfterFirst s)) squaresSegments =
     [True, True, False, False, True, True, False, False, False, True, True, False]"
  "map (unfinishedArea polygonGeometry)
     (runEnds polygonGeometry (Some (operators Exclude)) 20 squaresSegments squaresStore) =
     [None, None]"
  by code_simp+

lemma squares_exclude_emitted:
  "case tracePaths polygonGeometry (Some (operators Exclude)) 20 squaresSegments squaresStore of
     Inr tr \<Rightarrow> length (tr_paths tr) = 2 \<and> tr_log tr = [] \<and>
               list_all (emittedOk polygonGeometry) (tr_paths tr) \<and>
               map (tg_area polygonGeometry) (tr_paths tr) = [7500, - 7500]
   | Inl e \<Rightarrow> False"
  by code_simp

text \<open>
  The trace that is given up: the loop adds the three segments on the overlaps and
  leaves at the fourth, which is not valid. With \<open>s = 1\<close> the partial path has the area
  1/2; with \<open>s = 1/10^4\<close> it has the area 1/(2*10^8).
\<close>

lemma bail_runs:
  "case tracePaths polygonGeometry (Some (operators Exclude)) 20 bailSegments (bailStore 1) of
     Inr tr \<Rightarrow> tr_paths tr = [] | Inl e \<Rightarrow> False"
  "map (unfinishedArea polygonGeometry)
     (runEnds polygonGeometry (Some (operators Exclude)) 20 bailSegments (bailStore 1)) =
     [Some (1 / 2)]"
  "case tracePaths polygonGeometry (Some (operators Exclude)) 20 bailSegments
          (bailStore (1 / 10 ^ 4)) of
     Inr tr \<Rightarrow> tr_paths tr = [] | Inl e \<Rightarrow> False"
  "map (unfinishedArea polygonGeometry)
     (runEnds polygonGeometry (Some (operators Exclude)) 20 bailSegments
        (bailStore (1 / 10 ^ 4))) =
     [Some (1 / (2 * 10 ^ 8))]"
  by code_simp+

lemma run_logs:
  "openPathErrors polygonGeometry
     (runEnds polygonGeometry (Some (operators Exclude)) 20 squaresSegments squaresStore) = []"
  "openPathErrors polygonGeometry
     (runEnds polygonGeometry (Some (operators Exclude)) 20 bailSegments (bailStore 1)) =
     [OpenPathError]"
  "openPathErrors polygonGeometry
     (runEnds polygonGeometry (Some (operators Exclude)) 20 bailSegments
        (bailStore (1 / 10 ^ 4))) = []"
  by code_simp+

text \<open>
  The two traced L-shapes are closed and have the areas 7500 and -7500, and the console
  stays empty. The trace that is given up with a partial path of area 1/2 returns no
  path and writes one error; with the area 1/(2*10^8) it returns no path and writes
  nothing.
\<close>

theorem tracePaths_emitted_witness:
  "(\<exists>tr. tracePaths polygonGeometry (Some (operators Exclude)) 20 squaresSegments squaresStore =
           Inr tr \<and>
         length (tr_paths tr) = 2 \<and>
         emittedOk polygonGeometry (tr_paths tr ! 0) \<and>
         emittedOk polygonGeometry (tr_paths tr ! 1) \<and> tr_log tr = []) \<and>
   (\<exists>tr. tracePaths polygonGeometry (Some (operators Exclude)) 20 bailSegments (bailStore 1) =
           Inr tr \<and>
         tr_paths tr = [] \<and> tr_log tr = [OpenPathError]) \<and>
   (\<exists>tr. tracePaths polygonGeometry (Some (operators Exclude)) 20 bailSegments
            (bailStore (1 / 10 ^ 4)) = Inr tr \<and>
         tr_paths tr = [] \<and> tr_log tr = [])"
proof -
  obtain tr where run:
    "tracePaths polygonGeometry (Some (operators Exclude)) 20 squaresSegments squaresStore = Inr tr"
    and two: "length (tr_paths tr) = 2"
    and ok: "list_all (emittedOk polygonGeometry) (tr_paths tr)"
    using squares_exclude_emitted by (auto split: sum.splits)
  from two ok have "emittedOk polygonGeometry (tr_paths tr ! 0) \<and>
                    emittedOk polygonGeometry (tr_paths tr ! 1)"
    by (simp add: list_all_length)
  moreover from tracePaths_emitted [OF run, THEN conjunct2]
  have "tr_log tr = []"
    by (simp only: run_logs)
  ultimately have first: "\<exists>tr. tracePaths polygonGeometry (Some (operators Exclude)) 20
        squaresSegments squaresStore = Inr tr \<and> length (tr_paths tr) = 2 \<and>
         emittedOk polygonGeometry (tr_paths tr ! 0) \<and>
         emittedOk polygonGeometry (tr_paths tr ! 1) \<and> tr_log tr = []"
    using run two by blast
  obtain tr1 where run1:
    "tracePaths polygonGeometry (Some (operators Exclude)) 20 bailSegments (bailStore 1) = Inr tr1"
    and none1: "tr_paths tr1 = []"
    using bail_runs(1) by (auto split: sum.splits)
  from tracePaths_emitted [OF run1, THEN conjunct2]
  have "tr_log tr1 = [OpenPathError]"
    by (simp only: run_logs)
  with run1 none1 have second: "\<exists>tr. tracePaths polygonGeometry (Some (operators Exclude)) 20
        bailSegments (bailStore 1) = Inr tr \<and> tr_paths tr = [] \<and> tr_log tr = [OpenPathError]"
    by blast
  obtain tr2 where run2:
    "tracePaths polygonGeometry (Some (operators Exclude)) 20 bailSegments
       (bailStore (1 / 10 ^ 4)) = Inr tr2"
    and none2: "tr_paths tr2 = []"
    using bail_runs(3) by (auto split: sum.splits)
  from tracePaths_emitted [OF run2, THEN conjunct2]
  have "tr_log tr2 = []"
    by (simp only: run_logs)
  with run2 none2 have third: "\<exists>tr. tracePaths polygonGeometry (Some (operators Exclude)) 20
        bailSegments (bailStore (1 / 10 ^ 4)) = Inr tr \<and> tr_paths tr = [] \<and> tr_log tr = []"
    by blast
  from first second third show ?thesis by simp
qed

text \<open>
  The claim as the spec states it gives every emitted path an area of magnitude at
  least \<open>GEOMETRIC_EPSILON\<close>. The closed path of ten segments around the rectangle
  from (0,0) to (4, 1/10^8) is traced and emitted (it has more than 8 segments, so its
  area is not even looked at); its area 4/10^8 is below \<open>GEOMETRIC_EPSILON\<close>.
\<close>

theorem tracePaths_area_counterexample:
  "tracedAreas polygonGeometry
     (tracePaths polygonGeometry None 20 (map (Pair 0) [0 ..< 10]) thinStore) =
     [(True, 4 / 10 ^ 8)] \<and>
   4 / 10 ^ 8 < GEOMETRIC_EPSILON"
  by code_simp

text \<open>
  The rounds of the first trace through the two squares: the segment at which each
  round begins, whether the path has a segment yet, and what the round decides (the
  segment it goes on with, the partner, and whether the loop is finished).
\<close>

lemma squares_rounds:
  "map (\<lambda>t. (ts_seg t, ts_path t \<noteq> None, switchOutcome (Some (operators Exclude)) t))
     (seedRounds polygonGeometry (Some (operators Exclude)) 20 (0, 0)
        (initialTracer squaresStore)) =
     [((0, 0), False, Inr ((0, 0), Undefined, False)),
      ((0, 1), True, Inr ((0, 1), Undefined, False)),
      ((0, 2), True, Inr ((1, 3), Ref (1, 3), False)),
      ((1, 4), True, Inr ((1, 4), Undefined, False)),
      ((1, 5), True, Inr ((0, 4), Ref (0, 4), False)),
      ((0, 5), True, Inr ((0, 5), Undefined, False)),
      ((0, 0), True, Inr ((0, 0), Undefined, True))]"
  by code_simp




lemma covered_rounds:
  "map (\<lambda>t. (ts_seg t, ts_path t \<noteq> None, switchOutcome (Some (operators Exclude)) t))
     (seedRounds polygonGeometry (Some (operators Exclude)) 20 (0, 0)
        (initialTracer coveredStore)) =
     [((0, 0), False, Inr ((0, 0), Undefined, False)),
      ((0, 1), True, Inr ((0, 1), Undefined, False)),
      ((0, 2), True, Inr ((0, 2), Ref (1, 3), False)),
      ((0, 3), True, Inr ((0, 3), Undefined, False)),
      ((0, 4), True, Inr ((0, 4), Ref (1, 5), False)),
      ((0, 5), True, Inr ((0, 5), Undefined, False)),
      ((0, 0), True, Inr ((0, 0), Undefined, True))]"
  by code_simp

subsection \<open>The inner loop of the tracer ends\<close>

text \<open>
  Every round of the inner loop that does not leave it marks a segment of the operands
  that was not marked before. So a count of rounds larger than the number of segments
  is never used up: with it the tracer returns its paths or throws.
\<close>

lemma linked_sameGeometry:
  "sameGeometry st st' \<Longrightarrow> linked segs locs st \<Longrightarrow> linked segs locs st'"
proof -
  assume g: "sameGeometry st st'" and l: "linked segs locs st"
  from g have n: "\<And>s. getNext st' s = getNext st s"
    by (auto simp: sameGeometry_def getNext_def Let_def)
  have i: "sg_intersection (st_segs st' s) = sg_intersection (st_segs st s)" for s
    using g by (cases s) (simp add: sameGeometry_def)
  from g have "st_locs st' = st_locs st" by (simp add: sameGeometry_def)
  with l show ?thesis by (simp add: linked_def n i)
qed

lemma linked_next:
  assumes "linked segs locs st" "s \<in> set segs" "getNext st s = Ref n"
  shows "n \<in> set segs"
proof -
  from assms(1,2) have "case getNext st s of Ref n \<Rightarrow> n \<in> set segs | _ \<Rightarrow> True"
    unfolding linked_def by blast
  with assms(3) show ?thesis by simp
qed

lemma linked_first: "linked segs locs st \<Longrightarrow> s \<in> set segs \<Longrightarrow> (fst s, 0) \<in> set segs"
  unfolding linked_def by blast

lemma linked_intersection:
  assumes "linked segs locs st" "s \<in> set segs"
  shows "case sg_intersection (st_segs st s) of Ref i \<Rightarrow> i \<in> set locs | _ \<Rightarrow> True"
  using assms unfolding linked_def by blast

lemma linked_segment: "linked segs locs st \<Longrightarrow> i \<in> set locs \<Longrightarrow> lo_segment (st_locs st i) \<in> set segs"
  unfolding linked_def by blast

lemma linked_chain: "linked segs locs st \<Longrightarrow> i \<in> set locs \<Longrightarrow> set (lo_nexts (st_locs st i)) \<subseteq> set locs"
  unfolding linked_def by blast

lemma unvisited_sub: "unvisited segs (visit s st) = unvisited segs st - {s}"
  by (auto simp: unvisited_def visit_def)

lemma unvisited_card_visit:
  assumes "s \<in> set segs" "\<not> sg_visited (st_segs st s)"
  shows "card (unvisited segs (visit s st)) < card (unvisited segs st)"
proof -
  from assms have "s \<in> unvisited segs st" by (simp add: unvisited_def)
  moreover have "finite (unvisited segs st)" by (simp add: unvisited_def)
  ultimately have "card (unvisited segs st - {s}) < card (unvisited segs st)"
    by (rule card_Diff1_less [rotated])
  then show ?thesis by (simp only: unvisited_sub)
qed

lemma unvisited_card_visit_le:
  "card (unvisited segs (visit s st)) \<le> card (unvisited segs st)"
proof -
  have "finite (unvisited segs st)" by (simp add: unvisited_def)
  then show ?thesis
    by (simp add: unvisited_sub card_Diff1_le)
qed

lemma findBestLoop_in:
  "findBestLoop operator st start otherStart exclude js = Inr (Some best) \<Longrightarrow> best \<in> set js"
  by (induction js) (auto simp: Let_def split: if_splits jsref.splits)

lemma findBestLoop_error:
  "findBestLoop operator st start otherStart exclude js = Inl e \<Longrightarrow> e = TypeError"
  by (induction js) (auto simp: Let_def split: if_splits jsref.splits)

lemma switchSegment_error:
  assumes "switchSegment operator t = Inl e"
  shows "e = TypeError"
proof -
  from assms have "bestIntersection operator t = Inl e"
    by (auto simp: switchSegment_def Let_def split: sum.splits jsref.splits if_splits)
  then obtain i where
    "findBestIntersection operator (ts_store t) (ts_start t) (ts_otherStart t) i (ts_seg t) = Inl e"
    by (auto simp: bestIntersection_def split: jsref.splits sum.splits option.splits)
  then have "findBestLoop operator (ts_store t) (ts_start t) (ts_otherStart t) (ts_seg t)
               (i # lo_nexts (st_locs (ts_store t) i)) = Inl e"
    by (simp add: findBestIntersection_def split: if_splits)
  then show ?thesis by (rule findBestLoop_error)
qed

lemma findBestIntersection_in:
  assumes "findBestIntersection operator st start otherStart i exclude = Inr (Some b)"
  shows "b \<in> set (i # lo_nexts (st_locs st i))"
proof (cases "lo_nexts (st_locs st i) = []")
  case True
  with assms show ?thesis by (simp add: findBestIntersection_def)
next
  case False
  with assms have "findBestLoop operator st start otherStart exclude
                     (i # lo_nexts (st_locs st i)) = Inr (Some b)"
    by (simp add: findBestIntersection_def)
  then show ?thesis by (rule findBestLoop_in)
qed

lemma bestIntersection_in:
  assumes "linked segs locs (ts_store t)" "atOperands segs locs t" "bestIntersection operator t = Inr isect"
  shows "case isect of Ref i \<Rightarrow> i \<in> set locs | _ \<Rightarrow> True"
proof (cases "ts_inter t")
  case (Ref i)
  with assms(2) have iL: "i \<in> set locs" by (simp add: atOperands_def)
  with assms(1) have nx: "set (lo_nexts (st_locs (ts_store t) i)) \<subseteq> set locs"
    by (rule linked_chain)
  show ?thesis
  proof (cases isect)
    case (Ref b)
    with assms(3) \<open>ts_inter t = Ref i\<close> have
      "b = i \<or> findBestIntersection operator (ts_store t) (ts_start t) (ts_otherStart t) i (ts_seg t) = Inr (Some b)"
      by (auto simp: bestIntersection_def split: sum.splits option.splits)
    then have "b = i \<or> b \<in> set (i # lo_nexts (st_locs (ts_store t) i))"
      using findBestIntersection_in by blast
    with iL nx Ref show ?thesis by auto
  qed simp_all
next
  case Undefined
  with assms(3) show ?thesis by (auto simp: bestIntersection_def)
next
  case Null
  with assms(3) show ?thesis by (auto simp: bestIntersection_def)
qed

lemma switchSegment_within:
  assumes l: "linked segs locs (ts_store t)" and w: "atOperands segs locs t"
    and sw: "switchSegment operator t = Inr (t1, other)"
  shows "atOperands segs locs t1 \<and> card (unvisited segs (ts_store t1)) \<le> card (unvisited segs (ts_store t))"
proof -
  from sw obtain isect where b: "bestIntersection operator t = Inr isect"
    by (auto simp: switchSegment_def split: sum.splits)
  from bestIntersection_in [OF l w b] have iL: "case isect of Ref i \<Rightarrow> i \<in> set locs | _ \<Rightarrow> True" .
  have oth: "partner \<in> set segs" if "otherSegment (ts_store t) isect = Ref partner" for partner
  proof (cases isect)
    case (Ref i)
    with iL have "i \<in> set locs" by simp
    with l have "lo_segment (st_locs (ts_store t) i) \<in> set segs" by (rule linked_segment)
    with that Ref show ?thesis by (simp add: otherSegment_def)
  next
    case Undefined
    with that show ?thesis by (simp add: otherSegment_def)
  next
    case Null
    with that show ?thesis by (simp add: otherSegment_def)
  qed
  from sw b have inter1: "ts_inter t1 = isect"
    by (auto simp: switchSegment_def Let_def split: if_splits jsref.splits)
  from sw b have seg1: "ts_seg t1 = ts_seg t \<or> Ref (ts_seg t1) = otherSegment (ts_store t) isect"
    by (auto simp: switchSegment_def Let_def split: if_splits jsref.splits)
  from sw b have st1: "ts_store t1 = ts_store t \<or> ts_store t1 = visit (ts_seg t) (ts_store t)"
    by (auto simp: switchSegment_def Let_def split: if_splits jsref.splits option.splits)
  from w have "ts_seg t \<in> set segs" by (simp add: atOperands_def)
  with seg1 oth [of "ts_seg t1"] have "ts_seg t1 \<in> set segs" by auto
  with inter1 iL have "atOperands segs locs t1" by (simp add: atOperands_def)
  moreover from st1 unvisited_card_visit_le [of segs "ts_seg t" "ts_store t"]
  have "card (unvisited segs (ts_store t1)) \<le> card (unvisited segs (ts_store t))" by auto
  ultimately show ?thesis by simp
qed

lemma addSegment_within:
  assumes l: "linked segs locs (ts_store t)" and w: "atOperands segs locs t"
  shows "atOperands segs locs (addSegment t other)"
proof -
  from w have s: "ts_seg t \<in> set segs" by (simp add: atOperands_def)
  define seg' where "seg' = (case getNext (ts_store t) (ts_seg t) of Ref n \<Rightarrow> n | _ \<Rightarrow> (fst (ts_seg t), 0))"
  from l s have "seg' \<in> set segs"
    by (auto simp: seg'_def dest: linked_next linked_first split: jsref.splits)
  with l have "case sg_intersection (st_segs (ts_store t) seg') of Ref i \<Rightarrow> i \<in> set locs | _ \<Rightarrow> True"
    by (rule linked_intersection)
  with \<open>seg' \<in> set segs\<close> show ?thesis
    by (simp add: atOperands_def addSegment_def Let_def seg'_def)
qed

lemma addSegment_store: "ts_store (addSegment t other) = visit (ts_seg t) (ts_store t)"
  by (simp add: addSegment_def Let_def)

lemma traceLoop_enough_fuel:
  "linked segs locs (ts_store t) \<Longrightarrow> atOperands segs locs t \<Longrightarrow> card (unvisited segs (ts_store t)) < fuel \<Longrightarrow>
   traceLoop operator fuel t \<noteq> Inl OutOfFuel"
proof (induction fuel arbitrary: t)
  case 0
  then show ?case by simp
next
  case (Suc fuel)
  show ?case
  proof (cases "switchSegment operator t")
    case (Inl e)
    then have "e = TypeError" by (rule switchSegment_error)
    with Inl show ?thesis by simp
  next
    case (Inr r)
    obtain t1 other where r: "r = (t1, other)" by (cases r)
    with Inr have sw: "switchSegment operator t = Inr (t1, other)" by simp
    from switchSegment_within [OF Suc.prems(1,2) sw]
    have w1: "atOperands segs locs t1"
      and c1: "card (unvisited segs (ts_store t1)) \<le> card (unvisited segs (ts_store t))" by simp_all
    from linked_sameGeometry [OF switchSegment_sameGeometry [OF sw] Suc.prems(1)]
    have l1: "linked segs locs (ts_store t1)" .
    show ?thesis
    proof (cases "ts_finished t1 \<or> sg_visited (st_segs (ts_store t1) (ts_seg t1)) \<or>
                  (pa_validOverlapsOnly (st_paths (ts_store t1) (fst (ts_seg t1))) \<and>
                   \<not> isValid operator (ts_store t1) (Ref (ts_seg t1)) False)")
      case True
      with sw show ?thesis by auto
    next
      case False
      then have nv: "\<not> sg_visited (st_segs (ts_store t1) (ts_seg t1))" by simp
      from False sw have step: "traceLoop operator (Suc fuel) t = traceLoop operator fuel (addSegment t1 other)"
        by auto
          from w1 have "ts_seg t1 \<in> set segs" by (simp add: atOperands_def)
      from unvisited_card_visit [OF this nv] c1 Suc.prems(3)
      have "card (unvisited segs (ts_store (addSegment t1 other))) < fuel"
        by (simp add: addSegment_store)
      moreover have "linked segs locs (ts_store (addSegment t1 other))"
        using linked_sameGeometry [OF addSegment_sameGeometry l1] .
      moreover note addSegment_within [OF l1 w1]
      ultimately have "traceLoop operator fuel (addSegment t1 other) \<noteq> Inl OutOfFuel"
        using Suc.IH by blast
      with step show ?thesis by simp
    qed
  qed
qed


lemma overlapShortcut_error:
  "overlapShortcut tg operator seg tr = Inl e \<Longrightarrow> e = TypeError"
  by (auto simp: overlapShortcut_def Let_def split: if_splits jsref.splits option.splits)

lemma finishTrace_error:
  "finishTrace tg t tr = Inl e \<Longrightarrow> e = TypeError"
  by (auto simp: finishTrace_def Let_def split: if_splits option.splits)

lemma unvisited_card: "card (unvisited segs st) \<le> length segs"
proof -
  have "card (unvisited segs st) \<le> card (set segs)"
    by (rule card_mono) (auto simp: unvisited_def)
  also have "\<dots> \<le> length segs" by (rule card_length)
  finally show ?thesis .
qed

lemma seedStart_error:
  "seedStart tg operator seg tr = Inl e \<Longrightarrow> e = TypeError"
  by (auto simp: seedStart_def Let_def dest: overlapShortcut_error split: sum.splits if_splits)

lemma seedStart_state:
  "seedStart tg operator seg tr = Inr (tr1, Some t0) \<Longrightarrow>
   ts_store t0 = tr_store tr1 \<and> ts_seg t0 = seg \<and>
   ts_inter t0 = sg_intersection (st_segs (tr_store tr1) seg)"
  by (auto simp: seedStart_def Let_def split: sum.splits if_splits)

lemma traceSeed_enough_fuel:
  assumes l: "linked segs locs (tr_store tr)" and s: "seg \<in> set segs" and f: "length segs < fuel"
  shows "traceSeed tg operator fuel seg tr \<noteq> Inl OutOfFuel"
proof (cases "seedStart tg operator seg tr")
  case (Inl e)
  then have "e = TypeError" by (rule seedStart_error)
  with Inl show ?thesis by (simp add: traceSeed_def)
next
  case (Inr r)
  obtain tr1 o0 where r: "r = (tr1, o0)" by (cases r)
  show ?thesis
  proof (cases o0)
    case None
    with Inr r show ?thesis by (simp add: traceSeed_def)
  next
    case (Some t0)
    with Inr r have st: "seedStart tg operator seg tr = Inr (tr1, Some t0)" by simp
    from seedStart_cases [OF st] have "overlapShortcut tg operator seg tr = Inr tr1" by simp
    from overlapShortcut_result [OF this]
    have "sameGeometry (tr_store tr) (tr_store tr1)" by simp
    from linked_sameGeometry [OF this l] have l1: "linked segs locs (tr_store tr1)" .
    note t0 = seedStart_state [OF st]
    from linked_intersection [OF l1 s] s have w0: "atOperands segs locs t0"
      by (simp add: atOperands_def t0)
    from unvisited_card [of segs "tr_store tr1"] f
    have "card (unvisited segs (ts_store t0)) < fuel" by (simp add: t0)
    with l1 w0 have loop: "traceLoop operator fuel t0 \<noteq> Inl OutOfFuel"
      by (intro traceLoop_enough_fuel [of segs locs]) (simp_all add: t0)
    show ?thesis
    proof (cases "traceLoop operator fuel t0")
      case (Inl e)
      with loop have "e = TypeError" by (cases e) simp_all
      with Inl st show ?thesis by (simp add: traceSeed_def)
    next
      case (Inr t)
      have "finishTrace tg t (tr1\<lparr> tr_store := ts_store t, tr_handleIn := ts_handleIn t \<rparr>)
              \<noteq> Inl OutOfFuel"
        using finishTrace_error by fastforce
      with Inr st show ?thesis by (simp add: traceSeed_def)
    qed
  qed
qed

lemma traceAll_enough_fuel:
  "linked segs locs (tr_store tr) \<Longrightarrow> set segments \<subseteq> set segs \<Longrightarrow> length segs < fuel \<Longrightarrow>
   traceAll tg operator fuel segments tr \<noteq> Inl OutOfFuel"
proof (induction segments arbitrary: tr)
  case Nil
  then show ?case by simp
next
  case (Cons seg rest)
  from Cons.prems have s: "seg \<in> set segs" by simp
  note seed = traceSeed_enough_fuel [OF Cons.prems(1) s Cons.prems(3), of tg operator]
  show ?case
  proof (cases "traceSeed tg operator fuel seg tr")
    case (Inl e)
    with seed show ?thesis by simp
  next
    case (Inr tr')
    from traceSeed_run [OF Inr] have "sameGeometry (tr_store tr) (tr_store tr')" by simp
    from linked_sameGeometry [OF this Cons.prems(1)] have "linked segs locs (tr_store tr')" .
    with Cons.IH [of tr'] Cons.prems have "traceAll tg operator fuel rest tr' \<noteq> Inl OutOfFuel"
      by simp
    with Inr show ?thesis by simp
  qed
qed

lemma tracePaths_enough_fuel:
  "linked segs locs st \<Longrightarrow> set segments \<subseteq> set segs \<Longrightarrow> length segs < fuel \<Longrightarrow>
   tracePaths tg operator fuel segments st \<noteq> Inl OutOfFuel"
  unfolding tracePaths_def by (rule traceAll_enough_fuel) (simp_all add: initialTracer_def)

lemma squares_linked: "linked squaresSegments [0, 1, 2, 3] squaresStore"
  by code_simp

lemma squares_enough_fuel:
  "tracePaths tg operator 13 squaresSegments squaresStore \<noteq> Inl OutOfFuel"
  using tracePaths_enough_fuel [OF squares_linked, of squaresSegments 13 tg operator]
  by (simp add: squaresSegments_def)


subsection \<open>Winding propagation\<close>

text \<open>
  \<open>successors\<close> lists what iterating \<open>getNext()\<close> from a segment of the store
  yields: its first entry is \<open>getNext()\<close> of the start (null when there is none),
  each entry is followed by its own \<open>getNext()\<close>, and the list ends with the start
  itself on a closed path and with the segment whose \<open>getNext()\<close> is null on an open
  one.
\<close>

lemma successors_first:
  "snd start < pa_count (st_paths st (fst start)) \<Longrightarrow>
   getNext st start = (case successors st start of [] \<Rightarrow> Null | s # rest \<Rightarrow> Ref s)"
  by (auto simp: getNext_def successors_def Let_def upt_conv_Cons simp del: upt_Suc
           split: list.splits)

lemma successors_step:
  "snd start < pa_count (st_paths st (fst start)) \<Longrightarrow>
   Suc k < length (successors st start) \<Longrightarrow>
   getNext st (successors st start ! k) = Ref (successors st start ! Suc k)"
  by (auto simp: getNext_def successors_def Let_def nth_append split: if_splits)

lemma successors_last:
  "snd start < pa_count (st_paths st (fst start)) \<Longrightarrow> successors st start \<noteq> [] \<Longrightarrow>
   (if pa_closed (st_paths st (fst start))
    then last (successors st start) = start
    else getNext st (last (successors st start)) = Null)"
  by (auto simp: getNext_def successors_def Let_def last_map last_append split: if_splits)

lemma findSample_exists:
  "entries \<noteq> [] \<Longrightarrow> \<forall>e \<in> set entries. 0 \<le> snd e \<Longrightarrow> len \<le> sum_list (map snd entries) \<Longrightarrow>
   \<exists>s l. findSample entries len = Some (s, l) \<and> s \<in> fst ` set entries"
proof (induction entries arbitrary: len)
  case Nil
  then show ?case by simp
next
  case (Cons e rest)
  obtain seg curveLength where e: "e = (seg, curveLength)" by (cases e)
  show ?case
  proof (cases "len \<le> curveLength")
    case True
    with e show ?thesis by simp
  next
    case False
    have "rest \<noteq> []"
    proof
      assume "rest = []"
      with Cons.prems(3) e False show False by simp
    qed
    moreover have "\<forall>x \<in> set rest. 0 \<le> snd x" using Cons.prems(2) by simp
    moreover have "len - curveLength \<le> sum_list (map snd rest)"
      using Cons.prems(3) e by simp
    ultimately obtain s l where "findSample rest (len - curveLength) = Some (s, l)"
      "s \<in> fst ` set rest"
      using Cons.IH by blast
    with e False show ?thesis by auto
  qed
qed

lemma assignWinding_segs:
  "st_segs (assignWinding w rs st) r =
     (if r \<in> set rs
      then (st_segs st r)\<lparr> sg_winding := Some (w_winding w), sg_contour := w_contour w \<rparr>
      else st_segs st r)"
  by (induction rs arbitrary: st) auto

lemma assignWinding_frame:
  "st_paths (assignWinding w rs st) = st_paths st \<and>
   st_locs (assignWinding w rs st) = st_locs st"
  by (induction rs arbitrary: st) auto

lemma chainSample_exists:
  assumes "\<forall>s \<in> set (chainOf st segment). 0 \<le> ch_length cg s"
  shows "\<exists>seg pt hor. chainSample cg st segment = Some (seg, pt, hor) \<and>
           seg \<in> set (chainOf st segment)"
proof -
  define entries where "entries = chainEntries cg st segment"
  have ne: "entries \<noteq> []" by (simp add: entries_def chainEntries_def chainOf_def)
  have nonneg: "\<forall>e \<in> set entries. 0 \<le> snd e"
    using assms by (auto simp: entries_def chainEntries_def)
  then have "0 \<le> sum_list (map snd entries)"
    by (intro sum_list_nonneg) auto
  then have "sum_list (map snd entries) / 2 \<le> sum_list (map snd entries)" by simp
  from findSample_exists [OF ne nonneg this]
  obtain s l where f: "findSample entries (sum_list (map snd entries) / 2) = Some (s, l)"
    and s: "s \<in> fst ` set entries" by blast
  from s have "s \<in> set (chainOf st segment)"
    by (auto simp: entries_def chainEntries_def)
  moreover obtain pt hor where "ch_sample cg s l = (pt, hor)" by (cases "ch_sample cg s l")
  ultimately show ?thesis
    using f by (simp add: chainSample_def Let_def entries_def [symmetric])
qed

text \<open>
  Claim C2. The operation is \<open>subtract\<close> and a second operand exists; curve lengths
  are not negative. The chain of the seed segment has a sampled point, and every segment
  of the chain is assigned winding 0 if the sampled point belongs to operand A and has
  nonzero winding with respect to operand B, or belongs to operand B and has zero winding
  with respect to operand A; in all other cases every segment of the chain is assigned
  the ray-cast winding of the sampled point against all curves.
\<close>

theorem propagateWinding_subtract:
  "\<forall>s \<in> set (chainOf st segment). 0 \<le> ch_length cg s \<Longrightarrow>
   \<exists>seg pt hor st'.
     chainSample cg st segment = Some (seg, pt, hor) \<and>
     seg \<in> set (chainOf st segment) \<and>
     propagateWinding g cg st segment path1 (Some path2) curves (operators Subtract) = Inr st' \<and>
     (\<forall>s \<in> set (chainOf st segment).
        sg_winding (st_segs st' s) =
          Some (if (ownerItem st seg = od_id path1 \<and>
                    w_winding (getWinding g pt (od_curves path2) hor) \<noteq> 0) \<or>
                   (ownerItem st seg = od_id path2 \<and>
                    w_winding (getWinding g pt (od_curves path1) hor) = 0)
                then 0
                else w_winding (getWinding g pt curves hor)))"
proof -
  assume "\<forall>s \<in> set (chainOf st segment). 0 \<le> ch_length cg s"
  from chainSample_exists [OF this]
  obtain seg pt hor where cs: "chainSample cg st segment = Some (seg, pt, hor)"
    and mem: "seg \<in> set (chainOf st segment)" by blast
  define w where "w = sampleWinding g st path1 (Some path2) curves (operators Subtract) (seg, pt, hor)"
  define st' where "st' = assignWinding w (rev (chainOf st segment)) st"
  have pw: "propagateWinding g cg st segment path1 (Some path2) curves (operators Subtract) = Inr st'"
    by (simp add: propagateWinding_def cs w_def st'_def)
  have ww: "w_winding w =
      (if (ownerItem st seg = od_id path1 \<and>
           w_winding (getWinding g pt (od_curves path2) hor) \<noteq> 0) \<or>
          (ownerItem st seg = od_id path2 \<and>
           w_winding (getWinding g pt (od_curves path1) hor) = 0)
       then 0
       else w_winding (getWinding g pt curves hor))"
    by (simp add: w_def sampleWinding_def operators_def)
  have "\<forall>s \<in> set (chainOf st segment). sg_winding (st_segs st' s) = Some (w_winding w)"
    by (simp add: st'_def assignWinding_segs)
  with cs mem pw ww show ?thesis by simp
qed

lemma operandStore_chain:
  "chainOf operandStore (0, 0) = [(0, 0), (0, 1), (0, 2)]"
  "chainSample operandChain operandStore (0, 0) = Some ((0, 1), (22 / 5, 16 / 5), False)"
  "ownerItem operandStore (0, Suc 0) = 0"
  "w_winding (getWinding straightGeometry (22 / 5, 16 / 5) squareCurves False) = 1"
  by code_simp+

lemma operandStore_lengths:
  "\<forall>s \<in> set (chainOf operandStore (0, 0)). 0 \<le> ch_length operandChain s"
  by code_simp

text \<open>
  The triangle inside the square, \<open>subtract\<close>: the sampled point of the triangle's
  chain belongs to operand A and has winding 1 with respect to operand B, so all three
  segments of the triangle get winding 0.
\<close>

theorem propagateWinding_subtract_witness:
  "chainOf operandStore (0, 0) = [(0, 0), (0, 1), (0, 2)] \<and>
   0 \<le> ch_length operandChain (0, 0) \<and> 0 \<le> ch_length operandChain (0, 1) \<and>
   0 \<le> ch_length operandChain (0, 2) \<and>
   chainSample operandChain operandStore (0, 0) = Some ((0, 1), (22 / 5, 16 / 5), False) \<and>
   (\<exists>st'. propagateWinding straightGeometry operandChain operandStore (0, 0)
            \<lparr> od_id = 0, od_curves = triangleCurves \<rparr>
            (Some \<lparr> od_id = 1, od_curves = squareCurves \<rparr>)
            (triangleCurves @ squareCurves) (operators Subtract) = Inr st' \<and>
          sg_winding (st_segs st' (0, 0)) = Some 0 \<and>
          sg_winding (st_segs st' (0, 1)) = Some 0 \<and>
          sg_winding (st_segs st' (0, 2)) = Some 0)"
proof -
  from propagateWinding_subtract
    [OF operandStore_lengths, of straightGeometry
        "\<lparr> od_id = 0, od_curves = triangleCurves \<rparr>"
        "\<lparr> od_id = 1, od_curves = squareCurves \<rparr>" "triangleCurves @ squareCurves"]
  obtain st' where
    "propagateWinding straightGeometry operandChain operandStore (0, 0)
       \<lparr> od_id = 0, od_curves = triangleCurves \<rparr>
       (Some \<lparr> od_id = 1, od_curves = squareCurves \<rparr>)
       (triangleCurves @ squareCurves) (operators Subtract) = Inr st'"
    "\<forall>s \<in> set (chainOf operandStore (0, 0)). sg_winding (st_segs st' s) = Some 0"
    by (auto simp: operandStore_chain)
  moreover have "0 \<le> ch_length operandChain (0, 0) \<and> 0 \<le> ch_length operandChain (0, 1) \<and>
     0 \<le> ch_length operandChain (0, 2)"
    using operandStore_lengths by (simp add: operandStore_chain)
  ultimately show ?thesis
    by (auto simp: operandStore_chain)
qed

subsection \<open>Orientation of the traced paths\<close>

lemma scanContainers_done:
  "sc_container s \<noteq> None \<Longrightarrow> scanContainers cont nz paths i js s = s"
  by (cases js) auto

lemma scanContainers_evenodd:
  "sc_container s = None \<Longrightarrow> sc_excluded s = [] \<Longrightarrow>
   scanContainers cont False paths i js s =
     (case find (\<lambda>j. cont (or_id (paths ! j)) (or_id (paths ! i))) js of
        None \<Rightarrow> s
      | Some j \<Rightarrow> s\<lparr> sc_isContained := True, sc_container := Some j \<rparr>)"
proof (induction js arbitrary: s)
  case Nil
  then show ?case by simp
next
  case (Cons j js)
  then show ?case by (simp add: scanContainers_done)
qed

lemma update_keeps_id:
  "or_id (ps[i := (ps ! i)\<lparr> or_clockwise := b \<rparr>] ! k) = or_id (ps ! k)"
  by (cases "i < length ps") (auto simp: nth_list_update list_update_beyond)

lemma nearestContainer_ids:
  "\<forall>k. or_id (ps ! k) = or_id (qs ! k) \<Longrightarrow>
   nearestContainer cont ps i = nearestContainer cont qs i"
  by (simp add: nearestContainer_def)

lemma find_Some_holds: "find P xs = Some x \<Longrightarrow> P x \<and> x \<in> set xs"
  by (induction xs) (auto split: if_splits)

lemma nearestContainer_less:
  "nearestContainer cont ps i = Some j \<Longrightarrow> j < i \<and> cont (or_id (ps ! j)) (or_id (ps ! i))"
  by (auto simp: nearestContainer_def dest: find_Some_holds)

text \<open>One step of the outer loop under the even-odd rule.\<close>

lemma fixLoop_evenodd_step:
  "fx_excluded st = [] \<Longrightarrow>
   fixLoop cont False (i # rest) st =
     fixLoop cont False rest
       (st\<lparr> fx_paths := (fx_paths st)
               [i := (fx_paths st ! i)
                  \<lparr> or_clockwise :=
                      (case nearestContainer cont (fx_paths st) i of
                         Some j \<Rightarrow> \<not> or_clockwise (fx_paths st ! j)
                       | None \<Rightarrow> or_clockwise (fx_paths st ! 0)) \<rparr>],
            fx_items := fx_items st @ [i] \<rparr>)"
proof -
  assume ex: "fx_excluded st = []"
  define s0 where "s0 = \<lparr> sc_windings = fx_windings st, sc_excluded = fx_excluded st,
                  sc_isContained = False, sc_container = None, sc_exclude = False \<rparr>"
  have s: "scanContainers cont False (fx_paths st) i (rev [0..<i]) s0 =
      (case nearestContainer cont (fx_paths st) i of
         None \<Rightarrow> s0
       | Some j \<Rightarrow> s0\<lparr> sc_isContained := True, sc_container := Some j \<rparr>)"
    using ex by (simp add: scanContainers_evenodd nearestContainer_def s0_def
                   cong: option.case_cong)
  have same: "st\<lparr> fx_windings := sc_windings s0, fx_excluded := sc_excluded s0 \<rparr> = st"
    by (simp add: s0_def)
  have fields: "sc_exclude s0 = False" "sc_container s0 = None"
    by (simp_all add: s0_def)
  show ?thesis
  proof (cases "nearestContainer cont (fx_paths st) i")
    case None
    with s same fields show ?thesis
      by (simp add: Let_def s0_def [symmetric])
  next
    case (Some j)
    with s same fields show ?thesis
      by (simp add: Let_def s0_def [symmetric])
  qed
qed

lemma fixLoop_evenodd:
  "fx_excluded st = [] \<Longrightarrow> sorted_wrt (<) is \<Longrightarrow>
   \<forall>i \<in> set is. 0 < i \<and> i < length (fx_paths st) \<Longrightarrow>
   length (fx_paths (fixLoop cont False is st)) = length (fx_paths st) \<and>
   fx_items (fixLoop cont False is st) = fx_items st @ is \<and>
   (\<forall>k. k \<notin> set is \<longrightarrow> fx_paths (fixLoop cont False is st) ! k = fx_paths st ! k) \<and>
   (\<forall>k. or_id (fx_paths (fixLoop cont False is st) ! k) = or_id (fx_paths st ! k)) \<and>
   (\<forall>i \<in> set is.
      or_clockwise (fx_paths (fixLoop cont False is st) ! i) =
        (case nearestContainer cont (fx_paths st) i of
           Some j \<Rightarrow> \<not> or_clockwise (fx_paths (fixLoop cont False is st) ! j)
         | None \<Rightarrow> or_clockwise (fx_paths st ! 0)))"
proof (induction "is" arbitrary: st)
  case Nil
  then show ?case by simp
next
  case (Cons i rest)
  define b where "b = (case nearestContainer cont (fx_paths st) i of
                         Some j \<Rightarrow> \<not> or_clockwise (fx_paths st ! j)
                       | None \<Rightarrow> or_clockwise (fx_paths st ! 0))"
  define st1 where "st1 = st\<lparr> fx_paths := (fx_paths st)[i := (fx_paths st ! i)\<lparr> or_clockwise := b \<rparr>],
                             fx_items := fx_items st @ [i] \<rparr>"
  have step: "fixLoop cont False (i # rest) st = fixLoop cont False rest st1"
    using Cons.prems(1) by (simp only: fixLoop_evenodd_step st1_def b_def)
  have i: "0 < i" "i < length (fx_paths st)" using Cons.prems(3) by auto
  have rest_gt: "\<forall>k \<in> set rest. i < k" using Cons.prems(2) by auto
  have p1: "fx_excluded st1 = []" using Cons.prems(1) by (simp add: st1_def)
  have p2: "sorted_wrt (<) rest" using Cons.prems(2) by simp
  have p3: "\<forall>k \<in> set rest. 0 < k \<and> k < length (fx_paths st1)"
    using Cons.prems(3) by (simp add: st1_def)
  note IH = Cons.IH [OF p1 p2 p3]
  define fin where "fin = fx_paths (fixLoop cont False rest st1)"
  have ids1: "\<forall>k. or_id (fx_paths st1 ! k) = or_id (fx_paths st ! k)"
    by (simp add: st1_def update_keeps_id)
  have nc: "\<And>k. nearestContainer cont (fx_paths st1) k = nearestContainer cont (fx_paths st) k"
    using nearestContainer_ids [OF ids1] by simp
  have len: "length fin = length (fx_paths st)"
    using IH by (simp add: fin_def st1_def)
  have items: "fx_items (fixLoop cont False rest st1) = fx_items st @ i # rest"
    using IH by (simp add: st1_def)
  have keep: "\<And>k. k \<notin> set rest \<Longrightarrow> fin ! k = fx_paths st1 ! k"
    using IH by (simp add: fin_def)
  have below: "\<And>k. k < i \<Longrightarrow> fin ! k = fx_paths st ! k"
  proof -
    fix k assume "k < i"
    with rest_gt have "k \<notin> set rest" by auto
    with keep have "fin ! k = fx_paths st1 ! k" by simp
    with \<open>k < i\<close> show "fin ! k = fx_paths st ! k" by (simp add: st1_def)
  qed
  have at_i: "fin ! i = (fx_paths st ! i)\<lparr> or_clockwise := b \<rparr>"
  proof -
    from rest_gt have "i \<notin> set rest" by auto
    with keep have "fin ! i = fx_paths st1 ! i" by simp
    with i show ?thesis by (simp add: st1_def)
  qed
  have other: "\<And>k. k \<notin> set (i # rest) \<Longrightarrow> fin ! k = fx_paths st ! k"
  proof -
    fix k assume "k \<notin> set (i # rest)"
    then have "k \<notin> set rest" "k \<noteq> i" by auto
    with keep [of k] show "fin ! k = fx_paths st ! k" by (simp add: st1_def)
  qed
  have ids: "\<And>k. or_id (fin ! k) = or_id (fx_paths st ! k)"
    using IH ids1 by (simp add: fin_def)
  have zero: "fx_paths st1 ! 0 = fx_paths st ! 0"
    using i by (simp add: st1_def)
  have cw_i: "or_clockwise (fin ! i) =
      (case nearestContainer cont (fx_paths st) i of
         Some j \<Rightarrow> \<not> or_clockwise (fin ! j)
       | None \<Rightarrow> or_clockwise (fx_paths st ! 0))"
  proof (cases "nearestContainer cont (fx_paths st) i")
    case None
    then show ?thesis by (simp add: at_i b_def)
  next
    case (Some j)
    from nearestContainer_less [OF Some] have "j < i" by simp
    with below have "fin ! j = fx_paths st ! j" by simp
    with Some show ?thesis by (simp add: at_i b_def)
  qed
  have cw_rest: "\<forall>k \<in> set rest. or_clockwise (fin ! k) =
      (case nearestContainer cont (fx_paths st) k of
         Some j \<Rightarrow> \<not> or_clockwise (fin ! j)
       | None \<Rightarrow> or_clockwise (fx_paths st ! 0))"
    using IH by (simp add: fin_def nc zero split: option.splits)
  show ?case
    unfolding step
    using len items other ids cw_i cw_rest
    by (simp add: fin_def cong: option.case_cong)
qed

text \<open>The fixer under the even-odd rule, path by path.\<close>

lemma reorientPaths_fixed:
  "1 < length paths \<Longrightarrow>
   length (reorientPaths cont EvenOdd paths) = length paths \<and>
   reorientPaths cont EvenOdd paths ! 0 = sortByBoundsArea paths ! 0 \<and>
   (\<forall>i. 0 < i \<and> i < length paths \<longrightarrow>
      or_id (reorientPaths cont EvenOdd paths ! i) = or_id (sortByBoundsArea paths ! i) \<and>
      or_clockwise (reorientPaths cont EvenOdd paths ! i) =
        (case nearestContainer cont (sortByBoundsArea paths) i of
           Some j \<Rightarrow> \<not> or_clockwise (reorientPaths cont EvenOdd paths ! j)
         | None \<Rightarrow> or_clockwise (sortByBoundsArea paths ! 0)))"
proof -
  assume n: "1 < length paths"
  define s where "s = sortByBoundsArea paths"
  define st0 where "st0 = \<lparr> fx_paths = s, fx_windings = [], fx_excluded = [], fx_items = [0] \<rparr>"
  define st where "st = fixLoop cont False [1..<length s] st0"
  have len_s: "length s = length paths" by (simp add: s_def sortByBoundsArea_def)
  have inv: "length (fx_paths st) = length s \<and>
     fx_items st = [0] @ [1..<length s] \<and>
     (\<forall>k. k \<notin> set [1..<length s] \<longrightarrow> fx_paths st ! k = s ! k) \<and>
     (\<forall>k. or_id (fx_paths st ! k) = or_id (s ! k)) \<and>
     (\<forall>i \<in> set [1..<length s].
        or_clockwise (fx_paths st ! i) =
          (case nearestContainer cont s i of
             Some j \<Rightarrow> \<not> or_clockwise (fx_paths st ! j)
           | None \<Rightarrow> or_clockwise (s ! 0)))"
    using fixLoop_evenodd [of st0 "[1..<length s]" cont]
    by (simp add: st_def st0_def cong: option.case_cong)
  have "0 < length s" using n len_s by linarith
  then have "[0..<length s] = 0 # [Suc 0..<length s]" by (rule upt_conv_Cons)
  then have "[0] @ [1..<length s] = [0..<length s]" by simp
  with inv have items: "fx_items st = [0..<length (fx_paths st)]" by simp
  have "reorientPaths cont EvenOdd paths = map (\<lambda>i. fx_paths st ! i) (fx_items st)"
    using n by (simp add: reorientPaths_def Let_def s_def st_def st0_def)
  with items have r: "reorientPaths cont EvenOdd paths = fx_paths st"
    by (simp add: map_nth)
  from inv have first: "fx_paths st ! 0 = s ! 0" by simp
  from inv have rest: "\<forall>i. 0 < i \<and> i < length paths \<longrightarrow>
      or_id (fx_paths st ! i) = or_id (s ! i) \<and>
      or_clockwise (fx_paths st ! i) =
        (case nearestContainer cont s i of
           Some j \<Rightarrow> \<not> or_clockwise (fx_paths st ! j)
         | None \<Rightarrow> or_clockwise (s ! 0))"
    using len_s by auto
  from inv len_s have len: "length (fx_paths st) = length paths" by simp
  show ?thesis
    unfolding r s_def [symmetric]
    using len first rest by simp
qed

text \<open>
  When the paths are nested (a path before the nearest container of \<open>P\<close> contains
  \<open>P\<close>'s interior point just when it contains that of the container), the nearest
  container decides the parity of the count.
\<close>

lemma find_rev_upt_Some:
  "find P (rev [0..<n]) = Some j \<Longrightarrow> j < n \<and> P j \<and> (\<forall>k. j < k \<and> k < n \<longrightarrow> \<not> P k)"
proof (induction n)
  case 0
  then show ?case by simp
next
  case (Suc n)
  show ?case
  proof (cases "P n")
    case True
    with Suc.prems have "j = n" by simp
    with True show ?thesis by auto
  next
    case False
    with Suc.prems have "find P (rev [0..<n]) = Some j" by simp
    from Suc.IH [OF this] False show ?thesis
      by (auto simp: less_Suc_eq)
  qed
qed

lemma find_rev_upt_None:
  "find P (rev [0..<n]) = None \<Longrightarrow> \<forall>k < n. \<not> P k"
  by (induction n) (auto simp: less_Suc_eq split: if_splits)

lemma count_up_to_last:
  assumes "j < n" "P j" "\<forall>k. j < k \<and> k < n \<longrightarrow> \<not> P k"
  shows "length (filter P [0..<n]) = Suc (length (filter P [0..<j]))"
proof -
  from assms(1) obtain d where n: "n = j + d" using less_imp_add_positive by blast
  have "[0..<j + d] = [0..<j] @ [j..<j + d]"
    by (rule upt_add_eq_append) simp
  with n have "[0..<n] = [0..<j] @ [j..<n]" by simp
  also from assms(1) have "[j..<n] = j # [Suc j..<n]" by (rule upt_conv_Cons)
  finally have "[0..<n] = [0..<j] @ j # [Suc j..<n]" .
  moreover from assms(3) have "filter P [Suc j..<n] = []"
    by (auto simp: filter_empty_conv)
  ultimately show ?thesis using assms(2) by simp
qed

lemma containerCount_nearest:
  assumes near: "nearestContainer cont s i = Some j"
    and nest: "\<forall>k < j. cont (or_id (s ! k)) (or_id (s ! i)) = cont (or_id (s ! k)) (or_id (s ! j))"
  shows "containerCount cont s i = Suc (containerCount cont s j)"
proof -
  define P where "P = (\<lambda>k. cont (or_id (s ! k)) (or_id (s ! i)))"
  from near have "find P (rev [0..<i]) = Some j" by (simp add: nearestContainer_def P_def)
  from find_rev_upt_Some [OF this]
  have "length (filter P [0..<i]) = Suc (length (filter P [0..<j]))"
    by (intro count_up_to_last) auto
  moreover from nest have "filter P [0..<j] = filter (\<lambda>k. cont (or_id (s ! k)) (or_id (s ! j))) [0..<j]"
    by (intro filter_cong) (auto simp: P_def)
  ultimately show ?thesis by (simp add: containerCount_def P_def)
qed

lemma containerCount_none:
  assumes "nearestContainer cont s i = None"
  shows "containerCount cont s i = 0"
proof -
  from assms have "\<forall>k < i. \<not> cont (or_id (s ! k)) (or_id (s ! i))"
    unfolding nearestContainer_def by (rule find_rev_upt_None)
  then show ?thesis by (auto simp: containerCount_def filter_empty_conv)
qed

lemma parity_of_nearest:
  fixes cw :: "nat \<Rightarrow> bool"
  assumes first: "cw 0 = c0"
    and step: "\<forall>i. 0 < i \<and> i < n \<longrightarrow>
        cw i = (case nearestContainer cont s i of Some j \<Rightarrow> \<not> cw j | None \<Rightarrow> c0)"
    and nest: "\<forall>i < n. \<forall>j < i. \<forall>k < j. cont (or_id (s ! j)) (or_id (s ! i)) \<longrightarrow>
        cont (or_id (s ! k)) (or_id (s ! i)) = cont (or_id (s ! k)) (or_id (s ! j))"
  shows "i < n \<Longrightarrow> cw i = (even (containerCount cont s i) = c0)"
proof (induction i rule: less_induct)
  case (less i)
  show ?case
  proof (cases "nearestContainer cont s i")
    case None
    from containerCount_none [OF None] have c: "containerCount cont s i = 0" .
    show ?thesis
    proof (cases "i = 0")
      case True
      with first show ?thesis by (simp add: containerCount_def)
    next
      case False
      with step less.prems None have "cw i = c0" by simp
      with c show ?thesis by simp
    qed
  next
    case (Some j)
    from nearestContainer_less [OF Some] have j: "j < i" "cont (or_id (s ! j)) (or_id (s ! i))"
      by simp_all
    with less.prems nest
    have "\<forall>k < j. cont (or_id (s ! k)) (or_id (s ! i)) = cont (or_id (s ! k)) (or_id (s ! j))"
      by blast
    from containerCount_nearest [OF Some this]
    have c: "containerCount cont s i = Suc (containerCount cont s j)" .
    from j less.prems have "j < n" by simp
    from less.IH [OF j(1) this] have cj: "cw j = (even (containerCount cont s j) = c0)" .
    from j have "0 < i" by simp
    with step less.prems Some have "cw i = (\<not> cw j)" by simp
    with cj c show ?thesis by auto
  qed
qed

text \<open>
  So for nested paths the fixer of \<open>resolveCrossings\<close> sets every path as the count of
  its containers says.
\<close>

lemma reorientPaths_nested_parity:
  assumes n: "1 < length paths"
    and nest: "\<forall>i < length paths. \<forall>j < i. \<forall>k < j.
        cont (or_id (sortByBoundsArea paths ! j)) (or_id (sortByBoundsArea paths ! i)) \<longrightarrow>
        cont (or_id (sortByBoundsArea paths ! k)) (or_id (sortByBoundsArea paths ! i)) =
        cont (or_id (sortByBoundsArea paths ! k)) (or_id (sortByBoundsArea paths ! j))"
    and i: "i < length paths"
  shows "or_clockwise (reorientPaths cont EvenOdd paths ! i) =
     (even (containerCount cont (sortByBoundsArea paths) i) =
      or_clockwise (sortByBoundsArea paths ! 0))"
proof -
  note f = reorientPaths_fixed [OF n, of cont]
  show ?thesis
  proof (rule parity_of_nearest [where cw = "\<lambda>i. or_clockwise (reorientPaths cont EvenOdd paths ! i)"
        and n = "length paths"])
    show "or_clockwise (reorientPaths cont EvenOdd paths ! 0) =
          or_clockwise (sortByBoundsArea paths ! 0)"
      using f by simp
    show "\<forall>i. 0 < i \<and> i < length paths \<longrightarrow>
        or_clockwise (reorientPaths cont EvenOdd paths ! i) =
        (case nearestContainer cont (sortByBoundsArea paths) i of
           Some j \<Rightarrow> \<not> or_clockwise (reorientPaths cont EvenOdd paths ! j)
         | None \<Rightarrow> or_clockwise (sortByBoundsArea paths ! 0))"
      using f by simp
    show "\<forall>i < length paths. \<forall>j < i. \<forall>k < j.
        cont (or_id (sortByBoundsArea paths ! j)) (or_id (sortByBoundsArea paths ! i)) \<longrightarrow>
        cont (or_id (sortByBoundsArea paths ! k)) (or_id (sortByBoundsArea paths ! i)) =
        cont (or_id (sortByBoundsArea paths ! k)) (or_id (sortByBoundsArea paths ! j))"
      by (rule nest)
    show "i < length paths" by (rule i)
  qed
qed

subsection \<open>The orientation each path is given\<close>

text \<open>
  Claim C4, as the code has it. With more than one path and the even-odd rule, the
  fixer of \<open>resolveCrossings\<close> lists the paths in the order of their bounding-box
  areas, largest first. The first path is returned as it was. Every other path \<open>P\<close>
  gets the orientation opposite to the new orientation of the nearest path before it in
  that order that contains \<open>P\<close>'s interior point, and the orientation of the first path
  when no path before it contains the point.
\<close>

theorem reorientPaths_evenodd:
  "1 < length paths \<Longrightarrow>
   sorted (map (\<lambda>p. - or_boundsArea p) (sortByBoundsArea paths)) \<and>
   set (sortByBoundsArea paths) = set paths \<and>
   length (reorientPaths cont EvenOdd paths) = length paths \<and>
   reorientPaths cont EvenOdd paths ! 0 = sortByBoundsArea paths ! 0 \<and>
   (\<forall>i. 0 < i \<and> i < length paths \<longrightarrow>
      or_id (reorientPaths cont EvenOdd paths ! i) = or_id (sortByBoundsArea paths ! i) \<and>
      or_clockwise (reorientPaths cont EvenOdd paths ! i) =
        (case nearestContainer cont (sortByBoundsArea paths) i of
           Some j \<Rightarrow> \<not> or_clockwise (reorientPaths cont EvenOdd paths ! j)
         | None \<Rightarrow> or_clockwise (sortByBoundsArea paths ! 0)))"
proof -
  assume n: "1 < length paths"
  have "sorted (map (\<lambda>p. - or_boundsArea p) (sortByBoundsArea paths))"
    by (simp add: sortByBoundsArea_def)
  moreover have "set (sortByBoundsArea paths) = set paths"
    by (simp add: sortByBoundsArea_def)
  moreover note reorientPaths_fixed [OF n, of cont]
  ultimately show ?thesis by simp
qed

lemma bandPaths_reoriented:
  "sortByBoundsArea bandPaths = bandPaths"
  "reorientPaths bandContains EvenOdd bandPaths =
     [\<lparr> or_id = 0, or_clockwise = True, or_boundsArea = 100 \<rparr>,
      \<lparr> or_id = 1, or_clockwise = True, or_boundsArea = 100 \<rparr>,
      \<lparr> or_id = 2, or_clockwise = False, or_boundsArea = 1 \<rparr>]"
  "nearestContainer bandContains bandPaths 1 = None"
  "nearestContainer bandContains bandPaths 2 = Some 1"
  "containerCount bandContains bandPaths 2 = 2"
  by code_simp+

text \<open>
  The band, the square and the small path: the square is in no larger path and takes
  the orientation of the band; the small path takes the opposite of the square's new
  orientation.
\<close>

theorem reorientPaths_evenodd_witness:
  "1 < length bandPaths \<and>
   reorientPaths bandContains EvenOdd bandPaths ! 0 = bandPaths ! 0 \<and>
   or_clockwise (reorientPaths bandContains EvenOdd bandPaths ! 1) = or_clockwise (bandPaths ! 0) \<and>
   or_clockwise (reorientPaths bandContains EvenOdd bandPaths ! 2) =
     (\<not> or_clockwise (reorientPaths bandContains EvenOdd bandPaths ! 1))"
  using reorientPaths_evenodd [of bandPaths bandContains]
  by (simp add: bandPaths_reoriented) (simp add: bandPaths_def)

text \<open>
  The claim as the spec states it sets \<open>clockwise(P)\<close> to (the number of larger paths
  that contain \<open>P\<close>'s interior point is even) = \<open>clockwise(largest)\<close>. Two larger paths
  contain the interior point of the small path and the largest path is clockwise, so
  the claim makes the small path clockwise; the code makes it counter-clockwise.
\<close>

theorem reorientPaths_parity_counterexample:
  "or_clockwise (reorientPaths bandContains EvenOdd bandPaths ! 2) \<noteq>
     (even (containerCount bandContains (sortByBoundsArea bandPaths) 2) =
      or_clockwise (sortByBoundsArea bandPaths ! 0))"
  by code_simp

subsection \<open>Fixing the orientations twice\<close>

text \<open>
  Under the even-odd rule the fixer of \<open>resolveCrossings\<close> changes nothing in a list
  it has fixed before: the order, the containments and the orientation of the first
  path are the same, and they decide every other orientation.
\<close>

lemma update_keeps_area:
  "or_boundsArea (ps[i := (ps ! i)\<lparr> or_clockwise := b \<rparr>] ! k) = or_boundsArea (ps ! k)"
  by (cases "i < length ps") (auto simp: nth_list_update list_update_beyond)

lemma fixLoop_keeps:
  "length (fx_paths (fixLoop cont nz is st)) = length (fx_paths st) \<and>
   (\<forall>k. or_id (fx_paths (fixLoop cont nz is st) ! k) = or_id (fx_paths st ! k) \<and>
        or_boundsArea (fx_paths (fixLoop cont nz is st) ! k) = or_boundsArea (fx_paths st ! k))"
proof (induction "is" arbitrary: st)
  case Nil
  then show ?case by simp
next
  case (Cons i rest)
  then show ?case
    by (simp add: Let_def update_keeps_id update_keeps_area)
qed

lemma reorientPaths_keeps:
  "length (reorientPaths cont EvenOdd paths) = length paths \<and>
   (\<forall>i < length paths.
      or_id (reorientPaths cont EvenOdd paths ! i) = or_id (sortByBoundsArea paths ! i) \<and>
      or_boundsArea (reorientPaths cont EvenOdd paths ! i) =
        or_boundsArea (sortByBoundsArea paths ! i))"
proof (cases "1 < length paths")
  case False
  then have r: "reorientPaths cont EvenOdd paths = paths" by (simp add: reorientPaths_def)
  from False have "length paths = 0 \<or> length paths = 1" by linarith
  then have "sortByBoundsArea paths = paths"
    by (cases paths) (auto simp: sortByBoundsArea_def)
  with r show ?thesis by simp
next
  case True
  define s where "s = sortByBoundsArea paths"
  define st where "st = fixLoop cont False [1..<length s]
      \<lparr> fx_paths = s, fx_windings = [], fx_excluded = [], fx_items = [0] \<rparr>"
  have len_s: "length s = length paths" by (simp add: s_def sortByBoundsArea_def)
  from reorientPaths_fixed [OF True, of cont]
  have len: "length (reorientPaths cont EvenOdd paths) = length paths" by simp
  have k: "length (fx_paths st) = length s \<and>
     (\<forall>k. or_id (fx_paths st ! k) = or_id (s ! k) \<and>
          or_boundsArea (fx_paths st ! k) = or_boundsArea (s ! k))"
    unfolding st_def using fixLoop_keeps [of cont False "[1..<length s]"
        "\<lparr> fx_paths = s, fx_windings = [], fx_excluded = [], fx_items = [0] \<rparr>"] by simp
  have items: "fx_items st = [0] @ [1..<length s]"
    unfolding st_def
    using fixLoop_evenodd [of "\<lparr> fx_paths = s, fx_windings = [], fx_excluded = [], fx_items = [0] \<rparr>"
        "[1..<length s]" cont] True len_s by simp
  have "0 < length s" using True len_s by linarith
  then have "[0..<length s] = 0 # [Suc 0..<length s]" by (rule upt_conv_Cons)
  with items k have "fx_items st = [0..<length (fx_paths st)]" by simp
  moreover have "reorientPaths cont EvenOdd paths = map (\<lambda>i. fx_paths st ! i) (fx_items st)"
    using True by (simp add: reorientPaths_def Let_def s_def st_def)
  ultimately have "reorientPaths cont EvenOdd paths = fx_paths st" by (simp add: map_nth)
  with k len show ?thesis by (simp add: s_def)
qed

lemma nearestContainer_ids_below:
  "\<forall>k \<le> i. or_id (ps ! k) = or_id (qs ! k) \<Longrightarrow>
   nearestContainer cont ps i = nearestContainer cont qs i"
  unfolding nearestContainer_def by (rule find_cong) auto

lemma orient_path_eqI:
  "or_id p = or_id q \<Longrightarrow> or_clockwise p = or_clockwise q \<Longrightarrow>
   or_boundsArea p = or_boundsArea q \<Longrightarrow> p = (q :: orient_path)"
  by (cases p, cases q) simp

lemma reorientPaths_evenodd_idempotent:
  "reorientPaths cont EvenOdd (reorientPaths cont EvenOdd paths) = reorientPaths cont EvenOdd paths"
proof (cases "1 < length paths")
  case False
  then show ?thesis by (simp add: reorientPaths_def)
next
  case True
  define s where "s = sortByBoundsArea paths"
  define r where "r = reorientPaths cont EvenOdd paths"
  define r2 where "r2 = reorientPaths cont EvenOdd r"
  note k = reorientPaths_keeps [of cont paths, folded r_def s_def]
  note f = reorientPaths_fixed [OF True, of cont, folded r_def s_def]
  have len_s: "length s = length paths" by (simp add: s_def sortByBoundsArea_def)
  from k have len_r: "length r = length paths" by simp
  have "map (\<lambda>p. - or_boundsArea p) r = map (\<lambda>p. - or_boundsArea p) s"
    using k len_s len_r by (intro nth_equalityI) simp_all
  moreover have "sorted (map (\<lambda>p. - or_boundsArea p) s)"
    by (simp add: s_def sortByBoundsArea_def)
  ultimately have "sorted (map (\<lambda>p. - or_boundsArea p) r)" by simp
  then have sr: "sortByBoundsArea r = r"
    unfolding sortByBoundsArea_def by (rule sort_key_id_if_sorted)
  from True len_r have n2: "1 < length r" by simp
  note k2 = reorientPaths_keeps [of cont r, folded r2_def, unfolded sr]
  note f2 = reorientPaths_fixed [OF n2, of cont, folded r2_def, unfolded sr]
  have near: "nearestContainer cont r i = nearestContainer cont s i" if "i < length paths" for i
    using k that by (intro nearestContainer_ids_below) simp
  have first: "r ! 0 = s ! 0" using f by simp
  have cw: "or_clockwise (r2 ! i) = or_clockwise (r ! i)" if "i < length paths" for i
    using that
  proof (induction i rule: less_induct)
    case (less i)
    show ?case
    proof (cases "i = 0")
      case True
      with f2 show ?thesis by simp
    next
      case False
      then have pos: "0 < i" by simp
      show ?thesis
      proof (cases "nearestContainer cont s i")
        case None
        with f f2 pos less.prems near [OF less.prems] len_r first show ?thesis by simp
      next
        case (Some j)
        from nearestContainer_less [OF Some] have "j < i" by simp
        with less.prems have "j < length paths" by simp
        from less.IH [OF \<open>j < i\<close> this] have "or_clockwise (r2 ! j) = or_clockwise (r ! j)" .
        with f f2 pos less.prems near [OF less.prems] len_r Some show ?thesis by simp
      qed
    qed
  qed
  have "r2 = r"
  proof (rule nth_equalityI)
    show "length r2 = length r" using k2 by simp
    fix i assume "i < length r2"
    with k2 len_r have i: "i < length paths" by simp
    with k2 len_r have "or_id (r2 ! i) = or_id (r ! i)"
      "or_boundsArea (r2 ! i) = or_boundsArea (r ! i)" by simp_all
    with cw [OF i] show "r2 ! i = r ! i" by (intro orient_path_eqI)
  qed
  then show ?thesis by (simp add: r2_def r_def)
qed

subsection \<open>Interior point\<close>

lemma getInteriorPoint_contained:
  "getInteriorPoint g center True curves = (Num (fst center), snd center)"
  by (simp add: getInteriorPoint_def)

lemma getInteriorPoint_by_intercepts:
  "getInteriorPoint g center False curves =
     (if rayIntercepts g center curves = [] then (Num (fst center), snd center)
      else (firstTwoMidpoint (rayIntercepts g center curves), snd center))"
proof -
  define M where "M = concat (map (rayMonos g (snd center)) curves)"
  have "length (sort (map (\<lambda>(v, winding). intercept g (snd center) v) M)) = length M"
    by simp
  then have "(sort (map (\<lambda>(v, winding). intercept g (snd center) v) M) = []) = (M = [])"
    by (metis length_0_conv)
  then show ?thesis
    by (simp add: getInteriorPoint_def rayIntercepts_def Let_def M_def)
qed

lemma getInteriorPoint_no_intercept:
  "rayIntercepts g center curves = [] \<Longrightarrow>
   getInteriorPoint g center False curves = (Num (fst center), snd center)"
  by (simp add: getInteriorPoint_by_intercepts)

lemma getInteriorPoint_two_intercepts:
  "rayIntercepts g center curves = a # b # rest \<Longrightarrow>
   getInteriorPoint g center False curves = (Num ((a + b) / 2), snd center) \<and>
   a \<le> b \<and> (\<forall>x \<in> set rest. b \<le> x)"
proof -
  assume r: "rayIntercepts g center curves = a # b # rest"
  have "sorted (rayIntercepts g center curves)"
    by (simp add: rayIntercepts_def)
  with r have "a \<le> b \<and> (\<forall>x \<in> set rest. b \<le> x)" by auto
  with r show ?thesis by (simp add: getInteriorPoint_by_intercepts)
qed

lemma getInteriorPoint_one_intercept:
  "rayIntercepts g center curves = [a] \<Longrightarrow>
   getInteriorPoint g center False curves = (NaN, snd center)"
  by (simp add: getInteriorPoint_by_intercepts)

text \<open>
  The older \<open>getInteriorPoint\<close> has no fallback: for a path without curves that does
  not contain the centre of its bounds (a path of one segment) no intercept is found,
  and the abscissa it returns is \<open>NaN\<close>.
\<close>

lemma getInteriorPointOld_no_curves:
  "getInteriorPointOld g center False [] = (NaN, snd center)"
  by (simp add: getInteriorPointOld_def)

lemma getInteriorPointOld_few_intercepts:
  "length (xInterceptsLoop g (snd center) monoCurves [] []) < 2 \<Longrightarrow>
   getInteriorPointOld g center False monoCurves = (NaN, snd center)"
proof -
  assume "length (xInterceptsLoop g (snd center) monoCurves [] []) < 2"
  then have "firstTwoMidpoint (xInterceptsLoop g (snd center) monoCurves [] []) = NaN"
    by (cases "xInterceptsLoop g (snd center) monoCurves [] []" rule: firstTwoMidpoint.cases)
       simp_all
  then show ?thesis by (simp add: getInteriorPointOld_def)
qed

text \<open>
  The ray cast of \<open>getWinding\<close> gives the centre of that one-curve path the winding 0,
  whichever way the path is oriented: a containment test by winding fails there.
\<close>

lemma single_curve_centre_winding:
  "w_winding (getWinding straightGeometry (1 / (2 * 10 ^ 10), 1)
     [\<lparr> wc_values = [0, 1, 0, 1, 1 / 10 ^ 10, 1 + 1 / 2 ^ 52, 1 / 10 ^ 10, 1 + 1 / 2 ^ 52],
        wc_path = 0, wc_clockwise = cw, wc_previous = [] \<rparr>] False) = 0"
  by (cases cw; code_simp)

text \<open>
  Claim C9, at the input where the code departs from it. The open path of one straight
  curve from (0, 1) to (1/10^10, 1 + 1/2^52): the centre of its bounding box is
  (1/(2*10^10), 1) (the ordinate 1 + 1/2^53 rounds to 1 in double precision), and the
  path does not contain it. The ray at \<open>y = 1\<close> meets the one curve at its start point,
  so exactly one intercept is found. The claim says the centre comes back unchanged;
  the code returns a point whose abscissa is \<open>NaN\<close>.
\<close>

theorem getInteriorPoint_single_intercept_nan:
  "rayIntercepts straightGeometry (1 / (2 * 10 ^ 10), 1)
     [[0, 1, 0, 1, 1 / 10 ^ 10, 1 + 1 / 2 ^ 52, 1 / 10 ^ 10, 1 + 1 / 2 ^ 52]] = [0] \<and>
   getInteriorPoint straightGeometry (1 / (2 * 10 ^ 10), 1) False
     [[0, 1, 0, 1, 1 / 10 ^ 10, 1 + 1 / 2 ^ 52, 1 / 10 ^ 10, 1 + 1 / 2 ^ 52]] = (NaN, 1) \<and>
   getInteriorPoint straightGeometry (1 / (2 * 10 ^ 10), 1) False
     [[0, 1, 0, 1, 1 / 10 ^ 10, 1 + 1 / 2 ^ 52, 1 / 10 ^ 10, 1 + 1 / 2 ^ 52]] \<noteq>
     (Num (1 / (2 * 10 ^ 10)), 1)"
  by code_simp

subsection \<open>Ray-cast winding\<close>

lemma mod2map_table:
  "mod2map 0 = 0" "mod2map 1 = 1" "mod2map 2 = 2" "mod2map 3 = 1" "mod2map 4 = 2"
  "mod2map (- w) = mod2map w"
  by (simp_all add: mod2map_def)

lemma mod2map_range: "mod2map w \<in> {0, 1, 2}"
proof -
  have "\<bar>w\<bar> mod 2 = 0 \<or> \<bar>w\<bar> mod 2 = 1" by presburger
  then show ?thesis by (auto simp: mod2map_def)
qed

lemma mod2map_zero_iff: "mod2map w = 0 \<longleftrightarrow> w = 0"
proof -
  have "\<bar>w\<bar> mod 2 = 0 \<or> \<bar>w\<bar> mod 2 = 1" by presburger
  then show ?thesis by (auto simp: mod2map_def)
qed

lemma jsAnd_mod2map: "jsAnd w (2 - \<bar>w\<bar> mod 2) = mod2map w"
  by (simp add: jsAnd_def mod2map_def)

lemma windingCounts_zero_pattern:
  "((fst (windingCounts g pt curves hor) = 0) \<noteq> (snd (windingCounts g pt curves hor) = 0)) =
   ((fst (accumulatedCounts g pt curves hor) = 0) \<noteq> (snd (accumulatedCounts g pt curves hor) = 0))"
  by (auto simp: windingCounts_def accumulatedCounts_def Let_def)

lemma windingCounts_cases:
  "windingCounts g pt curves hor =
     (if fst (accumulatedCounts g pt curves hor) = 0 \<and> snd (accumulatedCounts g pt curves hor) = 0
      then (onPathWinding g pt curves hor, onPathWinding g pt curves hor)
      else accumulatedCounts g pt curves hor)"
  by (simp add: windingCounts_def accumulatedCounts_def onPathWinding_def Let_def)

text \<open>
  Claim C1, as the code has it. \<open>windLeft\<close> and \<open>windRight\<close> are the two counts the
  loop has accumulated over all paths (\<open>accumulatedCounts\<close>), and \<open>f\<close> is \<open>mod2map\<close>.
  When at least one of the two counts is not zero, \<open>getWinding\<close> returns
  \<open>winding = max (f windLeft) (f windRight)\<close>. When both are zero, lines 1560-1563 put
  the on-path winding in the place of both, and the winding returned is \<open>f\<close> of the
  on-path winding. In both cases \<open>contour\<close> is true exactly when one of the two
  accumulated counts is zero and the other is not.
\<close>

theorem getWinding_result:
  "w_winding (getWinding g pt curves hor) =
     (if fst (accumulatedCounts g pt curves hor) = 0 \<and> snd (accumulatedCounts g pt curves hor) = 0
      then mod2map (onPathWinding g pt curves hor)
      else max (mod2map (fst (accumulatedCounts g pt curves hor)))
               (mod2map (snd (accumulatedCounts g pt curves hor)))) \<and>
   w_contour (getWinding g pt curves hor) =
     ((fst (accumulatedCounts g pt curves hor) = 0) \<noteq>
      (snd (accumulatedCounts g pt curves hor) = 0)) \<and>
   mod2map 0 = 0 \<and> mod2map 1 = 1 \<and> mod2map 2 = 2 \<and> mod2map 3 = 1 \<and> mod2map 4 = 2"
proof -
  obtain w0 w1 where w: "windingCounts g pt curves hor = (w0, w1)"
    by (cases "windingCounts g pt curves hor")
  have win: "w_winding (getWinding g pt curves hor) = max (mod2map w0) (mod2map w1)"
    by (simp add: getWinding_def w jsAnd_mod2map Let_def)
  have con: "w_contour (getWinding g pt curves hor) = ((w0 = 0) \<noteq> (w1 = 0))"
    by (simp add: getWinding_def w jsAnd_mod2map mod2map_zero_iff Let_def)
  from windingCounts_zero_pattern [of g pt curves hor] w
  have acc: "((w0 = 0) \<noteq> (w1 = 0)) =
    ((fst (accumulatedCounts g pt curves hor) = 0) \<noteq> (snd (accumulatedCounts g pt curves hor) = 0))"
    by simp
  have "w0 = fst (windingCounts g pt curves hor)" "w1 = snd (windingCounts g pt curves hor)"
    using w by simp_all
  then have "max (mod2map w0) (mod2map w1) =
     (if fst (accumulatedCounts g pt curves hor) = 0 \<and> snd (accumulatedCounts g pt curves hor) = 0
      then mod2map (onPathWinding g pt curves hor)
      else max (mod2map (fst (accumulatedCounts g pt curves hor)))
               (mod2map (snd (accumulatedCounts g pt curves hor))))"
    by (simp add: windingCounts_cases)
  with win con acc show ?thesis by (simp add: mod2map_table)
qed

lemma square_top_edge_counts:
  "accumulatedCounts straightGeometry (5, 0) squareCurves False = (0, 0)"
  "onPathWinding straightGeometry (5, 0) squareCurves False = 1"
  by code_simp+

lemma square_left_edge_counts:
  "accumulatedCounts straightGeometry (0, 5) squareCurves False = (1, 0)"
  by code_simp

text \<open>
  The point (5,0) on the level top edge of the clockwise square, with a level ray: the
  counts accumulated over the path cancel to (0,0), the point is on the path, and the
  on-path winding 1 gives the winding 1; the point is not on the contour. The point
  (0,5) on the left edge has the counts (1,0): winding 1, contour.
\<close>

theorem getWinding_result_witness:
  "accumulatedCounts straightGeometry (5, 0) squareCurves False = (0, 0) \<and>
   onPathWinding straightGeometry (5, 0) squareCurves False = 1 \<and>
   w_winding (getWinding straightGeometry (5, 0) squareCurves False) = 1 \<and>
   w_contour (getWinding straightGeometry (5, 0) squareCurves False) = False \<and>
   accumulatedCounts straightGeometry (0, 5) squareCurves False = (1, 0) \<and>
   w_winding (getWinding straightGeometry (0, 5) squareCurves False) = 1 \<and>
   w_contour (getWinding straightGeometry (0, 5) squareCurves False) = True"
  using getWinding_result [of straightGeometry "(5, 0)" squareCurves False]
    getWinding_result [of straightGeometry "(0, 5)" squareCurves False]
  by (simp add: square_top_edge_counts square_left_edge_counts mod2map_def)

text \<open>
  The claim as the spec states it takes the winding from the accumulated counts alone.
  At the point (5,0) on the top edge of the square both accumulated counts are 0, so the
  claim's formula gives the winding 0; \<open>getWinding\<close> returns 1.
\<close>

theorem getWinding_accumulated_counterexample:
  "accumulatedCounts straightGeometry (5, 0) squareCurves False = (0, 0) \<and>
   max (mod2map (fst (accumulatedCounts straightGeometry (5, 0) squareCurves False)))
       (mod2map (snd (accumulatedCounts straightGeometry (5, 0) squareCurves False))) = 0 \<and>
   w_winding (getWinding straightGeometry (5, 0) squareCurves False) = 1"
  by code_simp

subsection \<open>Boolean operations on an open first operand\<close>

lemma computeOpenBoolean_supported:
  "\<not> isOpenPath p2 \<Longrightarrow> operation = Subtract \<or> operation = Intersect \<Longrightarrow>
   computeOpenBoolean geometry path1 (Some p2) (operators operation) =
     Group (openPieces geometry path1 p2 (operation = Subtract))"
  by (auto simp: computeOpenBoolean_def operators_def openPieces_def Let_def
           split: prod.splits)

lemma computeOpenBoolean_unsupported:
  "\<not> closedOperand path2 \<or> operation = Unite \<or> operation = Exclude \<Longrightarrow>
   computeOpenBoolean geometry path1 path2 (operators operation) = NullResult"
  by (auto simp: computeOpenBoolean_def operators_def closedOperand_def
           split: option.splits)

text \<open>
  Claim C7. The first operand is an open path. For \<open>subtract\<close> and \<open>intersect\<close>
  against a closed second operand the result is the group that the open-path code
  computes (never null); for every other combination (no second operand, an open second
  operand, or \<open>unite\<close> or \<open>exclude\<close>) the result is null.
\<close>

theorem computeBoolean_open_first_operand:
  "isOpenPath path1 \<Longrightarrow>
   computeBoolean geometry traced path1 path2 operation =
     (if (operation = Subtract \<or> operation = Intersect) \<and> closedOperand path2
      then Group (openPieces geometry path1 (the path2) (operation = Subtract))
      else NullResult)"
proof (cases "(operation = Subtract \<or> operation = Intersect) \<and> closedOperand path2")
  case True
  then obtain p2 where "path2 = Some p2" "\<not> isOpenPath p2"
    by (auto simp: closedOperand_def split: option.splits)
  moreover assume "isOpenPath path1"
  ultimately show ?thesis
    using True computeOpenBoolean_supported [of p2 operation geometry path1]
    by (simp add: computeBoolean_def Let_def)
next
  case False
  then have "\<not> closedOperand path2 \<or> operation = Unite \<or> operation = Exclude"
    by (cases operation) auto
  moreover assume "isOpenPath path1"
  ultimately show ?thesis
    using False computeOpenBoolean_unsupported [of path2 operation geometry path1]
    by (auto simp: computeBoolean_def Let_def)
qed

text \<open>
  An open path crossed once by a closed path: the piece split off lies inside the
  second operand, the rest outside. \<open>subtract\<close> keeps the rest, \<open>intersect\<close> the
  piece; \<open>unite\<close> with the same operands, and \<open>subtract\<close> from an open second
  operand, give null.
\<close>

theorem computeBoolean_open_first_operand_witness:
  "isOpenPath (Path \<lparr>pd_id = 1, pd_closed = False\<rparr>) \<and>
   computeBoolean
     (\<lambda>a b. \<lparr> og_splits = [Some \<lparr>pc_id = 3, pc_midInside = True, pc_handleInCleared = False,
                                 pc_handleOutCleared = False\<rparr>],
              og_rest = \<lparr>pc_id = 1, pc_midInside = False, pc_handleInCleared = False,
                         pc_handleOutCleared = False\<rparr> \<rparr>)
     (\<lambda>a b c. ()) (Path \<lparr>pd_id = 1, pd_closed = False\<rparr>)
     (Some (Path \<lparr>pd_id = 2, pd_closed = True\<rparr>)) Subtract =
     Group [\<lparr>pc_id = 1, pc_midInside = False, pc_handleInCleared = False,
             pc_handleOutCleared = True\<rparr>] \<and>
   computeBoolean
     (\<lambda>a b. \<lparr> og_splits = [Some \<lparr>pc_id = 3, pc_midInside = True, pc_handleInCleared = False,
                                 pc_handleOutCleared = False\<rparr>],
              og_rest = \<lparr>pc_id = 1, pc_midInside = False, pc_handleInCleared = False,
                         pc_handleOutCleared = False\<rparr> \<rparr>)
     (\<lambda>a b c. ()) (Path \<lparr>pd_id = 1, pd_closed = False\<rparr>)
     (Some (Path \<lparr>pd_id = 2, pd_closed = True\<rparr>)) Intersect =
     Group [\<lparr>pc_id = 3, pc_midInside = True, pc_handleInCleared = True,
             pc_handleOutCleared = False\<rparr>] \<and>
   computeBoolean
     (\<lambda>a b. \<lparr> og_splits = [Some \<lparr>pc_id = 3, pc_midInside = True, pc_handleInCleared = False,
                                 pc_handleOutCleared = False\<rparr>],
              og_rest = \<lparr>pc_id = 1, pc_midInside = False, pc_handleInCleared = False,
                         pc_handleOutCleared = False\<rparr> \<rparr>)
     (\<lambda>a b c. ()) (Path \<lparr>pd_id = 1, pd_closed = False\<rparr>)
     (Some (Path \<lparr>pd_id = 2, pd_closed = True\<rparr>)) Unite = NullResult \<and>
   computeBoolean
     (\<lambda>a b. \<lparr> og_splits = [], og_rest = \<lparr>pc_id = 1, pc_midInside = False,
                         pc_handleInCleared = False, pc_handleOutCleared = False\<rparr> \<rparr>)
     (\<lambda>a b c. ()) (Path \<lparr>pd_id = 1, pd_closed = False\<rparr>)
     (Some (Path \<lparr>pd_id = 2, pd_closed = False\<rparr>)) Subtract = NullResult"
  using computeBoolean_open_first_operand
    [where ?path1.0 = "Path \<lparr>pd_id = 1, pd_closed = False\<rparr>"
       and ?path2.0 = "Some (Path \<lparr>pd_id = 2, pd_closed = True\<rparr>)" and operation = Subtract
       and traced = "\<lambda>a b c. ()"
       and geometry = "\<lambda>a b. \<lparr> og_splits = [Some \<lparr>pc_id = 3, pc_midInside = True,
                                 pc_handleInCleared = False, pc_handleOutCleared = False\<rparr>],
              og_rest = \<lparr>pc_id = 1, pc_midInside = False, pc_handleInCleared = False,
                         pc_handleOutCleared = False\<rparr> \<rparr>"]
    computeBoolean_open_first_operand
    [where ?path1.0 = "Path \<lparr>pd_id = 1, pd_closed = False\<rparr>"
       and ?path2.0 = "Some (Path \<lparr>pd_id = 2, pd_closed = True\<rparr>)" and operation = Intersect
       and traced = "\<lambda>a b c. ()"
       and geometry = "\<lambda>a b. \<lparr> og_splits = [Some \<lparr>pc_id = 3, pc_midInside = True,
                                 pc_handleInCleared = False, pc_handleOutCleared = False\<rparr>],
              og_rest = \<lparr>pc_id = 1, pc_midInside = False, pc_handleInCleared = False,
                         pc_handleOutCleared = False\<rparr> \<rparr>"]
    computeBoolean_open_first_operand
    [where ?path1.0 = "Path \<lparr>pd_id = 1, pd_closed = False\<rparr>"
       and ?path2.0 = "Some (Path \<lparr>pd_id = 2, pd_closed = True\<rparr>)" and operation = Unite
       and traced = "\<lambda>a b c. ()"
       and geometry = "\<lambda>a b. \<lparr> og_splits = [Some \<lparr>pc_id = 3, pc_midInside = True,
                                 pc_handleInCleared = False, pc_handleOutCleared = False\<rparr>],
              og_rest = \<lparr>pc_id = 1, pc_midInside = False, pc_handleInCleared = False,
                         pc_handleOutCleared = False\<rparr> \<rparr>"]
    computeBoolean_open_first_operand
    [where ?path1.0 = "Path \<lparr>pd_id = 1, pd_closed = False\<rparr>"
       and ?path2.0 = "Some (Path \<lparr>pd_id = 2, pd_closed = False\<rparr>)" and operation = Subtract
       and traced = "\<lambda>a b c. ()"
       and geometry = "\<lambda>a b. \<lparr> og_splits = [], og_rest = \<lparr>pc_id = 1, pc_midInside = False,
                         pc_handleInCleared = False, pc_handleOutCleared = False\<rparr> \<rparr>"]
  by (simp add: closedOperand_def openPieces_def addPath_def)

subsection \<open>divideLocations\<close>

lemma divideWalk_head:
  "divideWalk hh incl prev nh ls = d # ds \<Longrightarrow>
   dv_time d = rescale prev (dl_curve (dv_loc d)) (dl_time (dv_loc d)) \<and>
   dv_where d = divisionAt (dv_time d)"
proof (induction ls arbitrary: prev nh)
  case Nil
  then show ?case by simp
next
  case (Cons loc0 rest)
  show ?case
  proof (cases "case incl of None \<Rightarrow> Some loc0 | Some f \<Rightarrow> f loc0")
    case None
    with Cons show ?thesis by simp
  next
    case (Some loc)
    with Cons.prems show ?thesis by (auto simp: Let_def)
  qed
qed

lemma divideWalk_step:
  "divideWalk hh incl prev nh ls = d # ds \<Longrightarrow>
   \<exists>nh' ls'. ds = divideWalk hh incl (Some (dl_curve (dv_loc d), dl_time (dv_loc d))) nh' ls'"
proof (induction ls arbitrary: prev nh)
  case Nil
  then show ?case by simp
next
  case (Cons loc0 rest)
  show ?case
  proof (cases "case incl of None \<Rightarrow> Some loc0 | Some f \<Rightarrow> f loc0")
    case None
    with Cons show ?thesis by simp
  next
    case (Some loc)
    with Cons.prems have "dv_loc d = loc" and
      "ds = divideWalk hh incl (Some (dl_curve loc, dl_time loc))
              (updateNoHandles hh prev (dl_curve loc) nh) rest"
      by (auto simp: Let_def)
    then show ?thesis by blast
  qed
qed

lemma divideWalk_nth:
  "Suc k < length (divideWalk hh incl prev nh ls) \<Longrightarrow>
   dv_time (divideWalk hh incl prev nh ls ! Suc k) =
     rescale (Some (dl_curve (dv_loc (divideWalk hh incl prev nh ls ! k)),
                    dl_time (dv_loc (divideWalk hh incl prev nh ls ! k))))
       (dl_curve (dv_loc (divideWalk hh incl prev nh ls ! Suc k)))
       (dl_time (dv_loc (divideWalk hh incl prev nh ls ! Suc k))) \<and>
   dv_where (divideWalk hh incl prev nh ls ! Suc k) =
     divisionAt (dv_time (divideWalk hh incl prev nh ls ! Suc k))"
proof (induction k arbitrary: prev nh ls)
  case 0
  then obtain d e es where out: "divideWalk hh incl prev nh ls = d # e # es"
    by (cases "divideWalk hh incl prev nh ls"; cases "tl (divideWalk hh incl prev nh ls)") auto
  from divideWalk_step [OF out] obtain nh' ls' where
    "e # es = divideWalk hh incl (Some (dl_curve (dv_loc d), dl_time (dv_loc d))) nh' ls'"
    by blast
  from divideWalk_head [OF this [symmetric]] out show ?case by simp
next
  case (Suc k)
  then obtain d ds where out: "divideWalk hh incl prev nh ls = d # ds"
    by (cases "divideWalk hh incl prev nh ls") auto
  from divideWalk_step [OF out] obtain nh' ls' where
    ds: "ds = divideWalk hh incl (Some (dl_curve (dv_loc d), dl_time (dv_loc d))) nh' ls'"
    by blast
  from Suc.prems out have "Suc k < length ds" by simp
  with ds Suc.IH [of "Some (dl_curve (dv_loc d), dl_time (dv_loc d))" nh' ls'] out
  show ?case by simp
qed

text \<open>
  Claim C5, as the code has it. In the order of the walk, the first processed location
  keeps its time. A later one is rescaled to \<open>time / prevTime\<close> exactly when its curve
  is the curve of the location processed just before it and that location's own time
  lies in \<open>[tMin, tMax]\<close> (the previous location did divide a curve); in every other
  case, and in particular when the previous time is below \<open>tMin\<close> or above \<open>tMax\<close>,
  the time is left as it is. The place of the division is decided on that time.
\<close>

theorem divideLocations_rescale:
  "k < length (divideLocations hh incl locs) \<Longrightarrow>
   dv_time (divideLocations hh incl locs ! k) =
     (if 0 < k \<and>
         dl_curve (dv_loc (divideLocations hh incl locs ! k)) =
           dl_curve (dv_loc (divideLocations hh incl locs ! (k - 1))) \<and>
         tMin \<le> dl_time (dv_loc (divideLocations hh incl locs ! (k - 1))) \<and>
         dl_time (dv_loc (divideLocations hh incl locs ! (k - 1))) \<le> tMax
      then dl_time (dv_loc (divideLocations hh incl locs ! k)) /
           dl_time (dv_loc (divideLocations hh incl locs ! (k - 1)))
      else dl_time (dv_loc (divideLocations hh incl locs ! k))) \<and>
   dv_where (divideLocations hh incl locs ! k) =
     divisionAt (dv_time (divideLocations hh incl locs ! k))"
proof (cases k)
  case 0
  assume "k < length (divideLocations hh incl locs)"
  with 0 obtain d ds where "divideLocations hh incl locs = d # ds"
    by (cases "divideLocations hh incl locs") auto
  with 0 divideWalk_head [of hh incl None False "rev locs" d ds]
  show ?thesis by (simp add: divideLocations_def rescale_def)
next
  case (Suc j)
  assume "k < length (divideLocations hh incl locs)"
  with Suc divideWalk_nth [of j hh incl None False "rev locs"]
  show ?thesis by (auto simp: divideLocations_def rescale_def)
qed

text \<open>
  Three locations on one curve at times 1/4, 1/2 and 1 - 1/10^9 (above \<open>tMax\<close>): the
  walk starts at the last one, which lands on \<open>_segment2\<close>; the location at 1/2 is not
  rescaled and divides at 1/2, and the one at 1/4 is rescaled to 1/2.
\<close>

theorem divideLocations_rescale_witness:
  "(2::nat) < length (divideLocations (\<lambda>c. True) None
       [\<lparr>dl_curve = 0, dl_time = 1/4\<rparr>, \<lparr>dl_curve = 0, dl_time = 1/2\<rparr>,
        \<lparr>dl_curve = 0, dl_time = 1 - 1/10^9\<rparr>]) \<and>
   dv_time (divideLocations (\<lambda>c. True) None
       [\<lparr>dl_curve = 0, dl_time = 1/4\<rparr>, \<lparr>dl_curve = 0, dl_time = 1/2\<rparr>,
        \<lparr>dl_curve = 0, dl_time = 1 - 1/10^9\<rparr>] ! 2) = 1/2 \<and>
   dv_where (divideLocations (\<lambda>c. True) None
       [\<lparr>dl_curve = 0, dl_time = 1/4\<rparr>, \<lparr>dl_curve = 0, dl_time = 1/2\<rparr>,
        \<lparr>dl_curve = 0, dl_time = 1 - 1/10^9\<rparr>] ! 2) = DivideAtTime (1/2)"
  using divideLocations_rescale [where k = 2 and hh = "\<lambda>c. True" and incl = None and
      locs = "[\<lparr>dl_curve = 0, dl_time = 1/4\<rparr>, \<lparr>dl_curve = 0, dl_time = 1/2\<rparr>,
               \<lparr>dl_curve = 0, dl_time = 1 - 1/10^9\<rparr>]"]
  by (simp add: divideLocations_def rescale_def divisionAt_def updateNoHandles_def
        tMin_def tMax_def CURVETIME_EPSILON_def Let_def)

text \<open>
  The claim as the spec states it rescales every location that shares its curve with
  the location processed before it. Two locations on one curve at times 2/10^9 and
  4/10^9, both below \<open>tMin\<close>: the second one processed has the curve of the first, yet
  its time is not \<open>(2/10^9) / (4/10^9) = 1/2\<close>; it stays 2/10^9 and the location goes
  to \<open>_segment1\<close> instead of dividing the curve at 1/2.
\<close>

theorem divideLocations_rescale_counterexample:
  "dl_curve (dv_loc (divideLocations (\<lambda>c. True) None
       [\<lparr>dl_curve = 0, dl_time = 2/10^9\<rparr>, \<lparr>dl_curve = 0, dl_time = 4/10^9\<rparr>] ! 1)) =
   dl_curve (dv_loc (divideLocations (\<lambda>c. True) None
       [\<lparr>dl_curve = 0, dl_time = 2/10^9\<rparr>, \<lparr>dl_curve = 0, dl_time = 4/10^9\<rparr>] ! 0)) \<and>
   dv_time (divideLocations (\<lambda>c. True) None
       [\<lparr>dl_curve = 0, dl_time = 2/10^9\<rparr>, \<lparr>dl_curve = 0, dl_time = 4/10^9\<rparr>] ! 1) \<noteq>
   dl_time (dv_loc (divideLocations (\<lambda>c. True) None
       [\<lparr>dl_curve = 0, dl_time = 2/10^9\<rparr>, \<lparr>dl_curve = 0, dl_time = 4/10^9\<rparr>] ! 1)) /
   dl_time (dv_loc (divideLocations (\<lambda>c. True) None
       [\<lparr>dl_curve = 0, dl_time = 2/10^9\<rparr>, \<lparr>dl_curve = 0, dl_time = 4/10^9\<rparr>] ! 0)) \<and>
   dv_time (divideLocations (\<lambda>c. True) None
       [\<lparr>dl_curve = 0, dl_time = 2/10^9\<rparr>, \<lparr>dl_curve = 0, dl_time = 4/10^9\<rparr>] ! 1) = 2/10^9 \<and>
   dv_where (divideLocations (\<lambda>c. True) None
       [\<lparr>dl_curve = 0, dl_time = 2/10^9\<rparr>, \<lparr>dl_curve = 0, dl_time = 4/10^9\<rparr>] ! 1) = AtSegment1"
  by code_simp
subsection \<open>CurveLocation\<close>

lemma setCurve_curve: "cl_curve (setCurve curves l c) = Some c"
  by (simp add: setCurve_def)

lemma setCurve_parameter: "cl_parameter (setCurve curves l c) = cl_parameter l"
  by (simp add: setCurve_def)

text \<open>The threshold of the comparison lies below the real number 1 - 1/10^8, so it
  is met by every parameter that is at least that number.\<close>

lemma oneMinusCurvetimeEpsilon_below:
  "oneMinusCurvetimeEpsilon < 1 - CURVETIME_EPSILON"
  by (simp add: oneMinusCurvetimeEpsilon_def CURVETIME_EPSILON_def)

lemma created_initialize:
  "\<exists>l. created (initialize curves gp h c t pt d ov partner0) = Some l \<and>
       cl_curve l = cl_curve (setCurve curves newLocation (fst (mergeToNext curves c t))) \<and>
       cl_parameter l = snd (mergeToNext curves c t)"
  by (auto simp: created_def initialize_def Let_def setCurve_def
           split: prod.splits option.splits)

text \<open>Below the threshold the curve and the parameter are stored as they were passed.\<close>

lemma initialize_before_end:
  "t < oneMinusCurvetimeEpsilon \<Longrightarrow>
   \<exists>l. created (initialize curves gp h c t pt d ov partner0) = Some l \<and>
       cl_curve l = Some c \<and> cl_parameter l = t"
  using created_initialize [of curves gp h c t pt d ov partner0]
  by (auto simp: mergeToNext_def setCurve_curve)

text \<open>
  Claim C10. A location constructed with a parameter of at least
  \<open>1 - CURVETIME_EPSILON\<close>, as the engine computes that number, on a curve that has a
  next curve is stored on that next curve with parameter 0; when the curve has no next
  curve, the curve and the parameter are stored as they were passed.
\<close>

theorem initialize_end_of_curve:
  "oneMinusCurvetimeEpsilon \<le> t \<Longrightarrow>
   (c_next (curves c) = Some n \<longrightarrow>
      (\<exists>l. created (initialize curves gp h c t pt d ov partner0) = Some l \<and>
           cl_curve l = Some n \<and> cl_parameter l = 0)) \<and>
   (c_next (curves c) = None \<longrightarrow>
      (\<exists>l. created (initialize curves gp h c t pt d ov partner0) = Some l \<and>
           cl_curve l = Some c \<and> cl_parameter l = t))"
  using created_initialize [of curves gp h c t pt d ov partner0]
  by (auto simp: mergeToNext_def setCurve_curve)

text \<open>
  Two curves, curve 0 followed by curve 1, which is the last: a location at the
  smallest parameter that counts as the end of curve 0, the double 0.99999999, lands on
  curve 1 at parameter 0, and one at the end of curve 1 stays there.
\<close>

theorem initialize_end_of_curve_witness:
  "oneMinusCurvetimeEpsilon \<le> 9007199164668999 / 2 ^ 53 \<and>
   oneMinusCurvetimeEpsilon \<le> 1 \<and>
   (\<exists>l. created (initialize
          (\<lambda>i. \<lparr> c_path_version = Some 3, c_segment1 = i, c_segment2 = i + 1,
                  c_next = (if i = 0 then Some 1 else None) \<rparr>)
          (\<lambda>c t. (0, 0)) \<lparr> h_locs = Map.empty, h_uid = 7 \<rparr> 0 (9007199164668999 / 2 ^ 53)
          None None False None) = Some l \<and>
        cl_curve l = Some 1 \<and> cl_parameter l = 0) \<and>
   (\<exists>l. created (initialize
          (\<lambda>i. \<lparr> c_path_version = Some 3, c_segment1 = i, c_segment2 = i + 1,
                  c_next = (if i = 0 then Some 1 else None) \<rparr>)
          (\<lambda>c t. (0, 0)) \<lparr> h_locs = Map.empty, h_uid = 7 \<rparr> 1 1 None None False None) = Some l \<and>
        cl_curve l = Some 1 \<and> cl_parameter l = 1)"
  using initialize_end_of_curve
    [where t = "9007199164668999 / 2 ^ 53" and c = 0 and n = 1
       and h = "\<lparr> h_locs = Map.empty, h_uid = 7 \<rparr>"
       and gp = "\<lambda>c t. (0, 0)" and pt = None and d = None and ov = False and ?partner0.0 = None
       and curves = "\<lambda>i. \<lparr> c_path_version = Some 3, c_segment1 = i, c_segment2 = i + 1,
                  c_next = (if i = 0 then Some 1 else None) \<rparr>"]
    initialize_end_of_curve
    [where t = 1 and c = 1 and n = 1 and h = "\<lparr> h_locs = Map.empty, h_uid = 7 \<rparr>"
       and gp = "\<lambda>c t. (0, 0)" and pt = None and d = None and ov = False and ?partner0.0 = None
       and curves = "\<lambda>i. \<lparr> c_path_version = Some 3, c_segment1 = i, c_segment2 = i + 1,
                  c_next = (if i = 0 then Some 1 else None) \<rparr>"]
  by (simp add: oneMinusCurvetimeEpsilon_def)

end
